theory Spec2Isabelle
  imports Complex_Main "HOL-Library.Word"
begin

unbundle bit_operations_syntax

section \<open>ARM32 lifting: condition codes (arm\_il32.c)\<close>

text \<open>
  The IL fragment built by \<open>cond\<close>: boolean pure expressions over global variables.
  \<open>VARG\<close>, \<open>INV\<close>, \<open>AND\<close>, \<open>OR\<close>, \<open>XOR\<close> are the op-builder macros of the source.
\<close>

datatype RzILOpBool =
    VARG string
  | IL_INV RzILOpBool
  | IL_AND RzILOpBool RzILOpBool
  | IL_OR RzILOpBool RzILOpBool
  | IL_XOR RzILOpBool RzILOpBool

text \<open>Capstone's \<open>arm_cc\<close> enumeration.\<close>

datatype arm_cc =
    ARM_CC_INVALID
  | ARM_CC_EQ | ARM_CC_NE | ARM_CC_HS | ARM_CC_LO
  | ARM_CC_MI | ARM_CC_PL | ARM_CC_VS | ARM_CC_VC
  | ARM_CC_HI | ARM_CC_LS | ARM_CC_GE | ARM_CC_LT
  | ARM_CC_GT | ARM_CC_LE | ARM_CC_AL

text \<open>\<open>cond\<close>: the unconditional case is \<open>NULL\<close> (here \<open>None\<close>), as is the default branch.\<close>

fun cond :: "arm_cc \<Rightarrow> RzILOpBool option" where
  "cond ARM_CC_EQ = Some (VARG ''zf'')"
| "cond ARM_CC_NE = Some (IL_INV (VARG ''zf''))"
| "cond ARM_CC_HS = Some (VARG ''cf'')"
| "cond ARM_CC_LO = Some (IL_INV (VARG ''cf''))"
| "cond ARM_CC_MI = Some (VARG ''nf'')"
| "cond ARM_CC_PL = Some (IL_INV (VARG ''nf''))"
| "cond ARM_CC_VS = Some (VARG ''vf'')"
| "cond ARM_CC_VC = Some (IL_INV (VARG ''vf''))"
| "cond ARM_CC_HI = Some (IL_AND (VARG ''cf'') (IL_INV (VARG ''zf'')))"
| "cond ARM_CC_LS = Some (IL_AND (IL_INV (VARG ''cf'')) (VARG ''zf''))"
| "cond ARM_CC_GE = Some (IL_INV (IL_XOR (VARG ''nf'') (VARG ''vf'')))"
| "cond ARM_CC_LT = Some (IL_XOR (VARG ''nf'') (VARG ''vf''))"
| "cond ARM_CC_GT =
     Some (IL_AND (IL_INV (VARG ''zf'')) (IL_INV (IL_XOR (VARG ''nf'') (VARG ''vf''))))"
| "cond ARM_CC_LE = Some (IL_AND (VARG ''zf'') (IL_XOR (VARG ''nf'') (VARG ''vf'')))"
| "cond ARM_CC_AL = None"
| "cond ARM_CC_INVALID = None"

text \<open>
  Effects, as far as \<open>rz_arm_cs_32_il\<close> builds them: the effect of the unconditional
  instruction (kept abstract, type \<open>'e\<close>), \<open>NOP\<close>, and \<open>BRANCH\<close>.
\<close>

datatype 'e RzILOpEffect =
    Eff 'e
  | IL_NOP
  | IL_BRANCH RzILOpBool "'e RzILOpEffect" "'e RzILOpEffect"

text \<open>
  \<open>rz_arm_cs_32_il\<close>, given the result of \<open>il_unconditional\<close> (\<open>None\<close> for \<open>NULL\<close>) and
  the instruction's condition code.
\<close>

definition rz_arm_cs_32_il :: "'e RzILOpEffect option \<Rightarrow> arm_cc \<Rightarrow> 'e RzILOpEffect option" where
  "rz_arm_cs_32_il il_unconditional cc =
     (case il_unconditional of
        None \<Rightarrow> None
      | Some eff \<Rightarrow>
          (case cond cc of
             Some c \<Rightarrow> Some (IL_BRANCH c eff IL_NOP)
           | None \<Rightarrow> Some eff))"

text \<open>The value of a boolean expression in a state of the global variables.\<close>

fun il_eval :: "(string \<Rightarrow> bool) \<Rightarrow> RzILOpBool \<Rightarrow> bool" where
  "il_eval s (VARG v) = s v"
| "il_eval s (IL_INV a) = (\<not> il_eval s a)"
| "il_eval s (IL_AND a b) = (il_eval s a \<and> il_eval s b)"
| "il_eval s (IL_OR a b) = (il_eval s a \<or> il_eval s b)"
| "il_eval s (IL_XOR a b) = (il_eval s a \<noteq> il_eval s b)"

section \<open>AVR: CPU models and their constants (analysis\_avr.c)\<close>

type_synonym ut8 = "8 word"
type_synonym ut16 = "16 word"
type_synonym ut32 = "32 word"
type_synonym ut64 = "64 word"

text \<open>\<open>CPU_CONST\<close>: a named constant of a CPU model. The \<open>NULL\<close>-keyed terminator of each
  array is the end of the list.\<close>

record CPU_CONST =
  c_key :: string
  c_type :: int
  c_value :: ut32
  c_size :: nat

definition CPU_CONST_NONE :: int where "CPU_CONST_NONE = 0"
definition CPU_CONST_PARAM :: int where "CPU_CONST_PARAM = 1"
definition CPU_CONST_REG :: int where "CPU_CONST_REG = 2"

text \<open>\<open>CPU_MODEL\<close>. The pointer \<open>inherit_cpu_p\<close> points into the array \<open>cpu_models\<close>: it is
  the index of the parent there, \<open>None\<close> for \<open>NULL\<close>. The \<open>NULL\<close>-terminated array
  \<open>consts\<close> is the list \<open>cpu_consts\<close>.\<close>

record CPU_MODEL =
  model :: string
  pc :: int
  inherit :: "string option"
  inherit_cpu_p :: "nat option"
  cpu_consts :: "CPU_CONST list list"

text \<open>\<open>MASK(bits)\<close>, a value of type \<open>ut32\<close>. (A shift by more than 31 bits is undefined in
  C and gives 0 here.)\<close>

definition MASK :: "nat \<Rightarrow> ut32" where
  "MASK bits = (if bits = 32 then 0xffffffff else NOT (push_bit bits (NOT 0)))"

definition CPU_PC_MASK :: "CPU_MODEL \<Rightarrow> ut32" where
  "CPU_PC_MASK cpu = MASK (nat (pc cpu))"

text \<open>\<open>CPU_PC_SIZE(cpu)\<close>: \<open>(pc >> 3) + ((pc & 7) ? 1 : 0)\<close> on the C \<open>int\<close>.\<close>

definition CPU_PC_SIZE :: "CPU_MODEL \<Rightarrow> int" where
  "CPU_PC_SIZE cpu = drop_bit 3 (pc cpu) + (if pc cpu AND 7 \<noteq> 0 then 1 else 0)"

definition mk_const :: "string \<Rightarrow> int \<Rightarrow> ut32 \<Rightarrow> nat \<Rightarrow> CPU_CONST" where
  "mk_const k t v s = \<lparr>c_key = k, c_type = t, c_value = v, c_size = s\<rparr>"

definition cpu_reg_common :: "CPU_CONST list" where
  "cpu_reg_common =
    [mk_const ''spl'' CPU_CONST_REG 0x3d 1,
     mk_const ''sph'' CPU_CONST_REG 0x3e 1,
     mk_const ''sreg'' CPU_CONST_REG 0x3f 1,
     mk_const ''spmcsr'' CPU_CONST_REG 0x37 1]"

definition cpu_memsize_common :: "CPU_CONST list" where
  "cpu_memsize_common =
    [mk_const ''eeprom_size'' CPU_CONST_PARAM 512 4,
     mk_const ''io_size'' CPU_CONST_PARAM 0x40 4,
     mk_const ''sram_start'' CPU_CONST_PARAM 0x60 4,
     mk_const ''sram_size'' CPU_CONST_PARAM 1024 4]"

definition cpu_memsize_m640_m1280m_m1281_m2560_m2561 :: "CPU_CONST list" where
  "cpu_memsize_m640_m1280m_m1281_m2560_m2561 =
    [mk_const ''eeprom_size'' CPU_CONST_PARAM 512 4,
     mk_const ''io_size'' CPU_CONST_PARAM 0x1ff 4,
     mk_const ''sram_start'' CPU_CONST_PARAM 0x200 4,
     mk_const ''sram_size'' CPU_CONST_PARAM 0x2000 4]"

definition cpu_memsize_xmega128a4u :: "CPU_CONST list" where
  "cpu_memsize_xmega128a4u =
    [mk_const ''eeprom_size'' CPU_CONST_PARAM 0x800 4,
     mk_const ''io_size'' CPU_CONST_PARAM 0x1000 4,
     mk_const ''sram_start'' CPU_CONST_PARAM 0x800 4,
     mk_const ''sram_size'' CPU_CONST_PARAM 0x2000 4]"

definition cpu_pagesize_5_bits :: "CPU_CONST list" where
  "cpu_pagesize_5_bits = [mk_const ''page_size'' CPU_CONST_PARAM 5 1]"

definition cpu_pagesize_7_bits :: "CPU_CONST list" where
  "cpu_pagesize_7_bits = [mk_const ''page_size'' CPU_CONST_PARAM 7 1]"

definition mk_model :: "string \<Rightarrow> int \<Rightarrow> string option \<Rightarrow> CPU_CONST list list \<Rightarrow> CPU_MODEL" where
  "mk_model m p i cs =
     \<lparr>model = m, pc = p, inherit = i, inherit_cpu_p = None, cpu_consts = cs\<rparr>"

text \<open>The array \<open>cpu_models\<close> as initialised: no parent pointer is resolved yet.\<close>

definition cpu_models :: "CPU_MODEL list" where
  "cpu_models =
    [mk_model ''ATmega640'' 15 None
       [cpu_reg_common, cpu_memsize_m640_m1280m_m1281_m2560_m2561, cpu_pagesize_7_bits],
     mk_model ''ATxmega128a4u'' 17 None
       [cpu_reg_common, cpu_memsize_xmega128a4u, cpu_pagesize_7_bits],
     mk_model ''ATmega1280'' 16 (Some ''ATmega640'') [],
     mk_model ''ATmega1281'' 16 (Some ''ATmega640'') [],
     mk_model ''ATmega2560'' 17 (Some ''ATmega640'') [],
     mk_model ''ATmega2561'' 17 (Some ''ATmega640'') [],
     mk_model ''ATmega88'' 8 (Some ''ATmega8'') [],
     mk_model ''ATmega8'' 13 None
       [cpu_reg_common, cpu_memsize_common, cpu_pagesize_5_bits]]"

text \<open>The library's \<open>rz_str_casecmp\<close> and \<open>rz_str_ncasecmp\<close> (ASCII case-insensitive
  comparison, of the first \<open>n\<close> characters for the latter), as the test the callers make of
  them: \<open>True\<close> when the C function returns 0.\<close>

definition lower_char :: "char \<Rightarrow> char" where
  "lower_char c =
     (if 65 \<le> (of_char c :: nat) \<and> (of_char c :: nat) \<le> 90
      then (case c of Char b0 b1 b2 b3 b4 b5 b6 b7 \<Rightarrow> Char b0 b1 b2 b3 b4 True b6 b7)
      else c)"

definition str_casecmp_eq :: "string \<Rightarrow> string \<Rightarrow> bool" where
  "str_casecmp_eq a b = (map lower_char a = map lower_char b)"

definition str_ncasecmp_eq :: "string \<Rightarrow> string \<Rightarrow> nat \<Rightarrow> bool" where
  "str_ncasecmp_eq a b n = (map lower_char (take n a) = map lower_char (take n b))"

text \<open>\<open>STR_BEGINS(in, s)\<close> is \<open>rz_str_ncasecmp(in, s, strlen(s))\<close>, 0 when \<open>in\<close> begins with
  \<open>s\<close>; the handlers test \<open>!STR_BEGINS(...)\<close>, which is \<open>begins_with\<close>.\<close>

definition begins_with :: "string \<Rightarrow> string \<Rightarrow> bool" where
  "begins_with i s = str_ncasecmp_eq i s (length s)"

text \<open>The process-wide state of the registry: the array with its parent pointers, the
  \<open>static\<close> pointer \<open>cpu\<close> of \<open>get_cpu_model\<close> (the one-slot cache), and what \<open>eprintf\<close>
  has written.\<close>

record cpu_registry =
  models :: "CPU_MODEL list"
  cached :: "nat option"
  errlog :: "string list"

definition registry0 :: cpu_registry where
  "registry0 = \<lparr>models = cpu_models, cached = None, errlog = []\<rparr>"

text \<open>The search loop of \<open>__get_cpu_model_recursive\<close>: it tests every entry but the last
  and stops at the last one whatever its name.\<close>

function model_loop :: "CPU_MODEL list \<Rightarrow> string \<Rightarrow> nat \<Rightarrow> nat" where
  "model_loop ms name i =
     (if i < length ms - 1
      then (if str_casecmp_eq name (model (ms ! i)) then i else model_loop ms name (i + 1))
      else i)"
  by pat_completeness auto
termination
  by (relation "measure (\<lambda>(ms, name, i). length ms - 1 - i)") auto

declare model_loop.simps [simp del]

text \<open>\<open>get_cpu_model\<close> with \<open>__get_cpu_model_recursive\<close> inlined (the two call each other).
  The result is the pointer returned (an index of the array, \<open>None\<close> for \<open>NULL\<close>) and the
  registry after the call. A parent name that leads back to the model itself recurses
  forever: that is the value \<open>None\<close> of the whole call.\<close>

partial_function (option) get_cpu_model ::
  "string \<Rightarrow> cpu_registry \<Rightarrow> (nat option \<times> cpu_registry) option" where
  "get_cpu_model name r =
     (if (case cached r of
            Some c \<Rightarrow> str_casecmp_eq name (model (models r ! c))
          | None \<Rightarrow> False)
      then Some (cached r, r)
      else
        (let cpu = model_loop (models r) name 0 in
         (case inherit (models r ! cpu) of
            None \<Rightarrow> Some (Some cpu, r\<lparr>cached := Some cpu\<rparr>)
          | Some parent \<Rightarrow>
              (if inherit_cpu_p (models r ! cpu) \<noteq> None
               then Some (Some cpu, r\<lparr>cached := Some cpu\<rparr>)
               else
                 Option.bind (get_cpu_model parent r) (\<lambda>(p, r1).
                   Some (Some cpu,
                     r1\<lparr>models := (models r1)[cpu := (models r1 ! cpu)\<lparr>inherit_cpu_p := p\<rparr>],
                        cached := Some cpu,
                        errlog := (if p = None
                                   then errlog r1 @
                                     [''ERROR: Cannot inherit from unknown CPU model '' @ parent]
                                   else errlog r1)\<rparr>))))))"

declare get_cpu_model.simps [code]

text \<open>\<open>const_get_value\<close>.\<close>

definition const_get_value :: "CPU_CONST option \<Rightarrow> ut32" where
  "const_get_value c =
     (case c of None \<Rightarrow> 0 | Some c \<Rightarrow> MASK (c_size c * 8) AND c_value c)"

text \<open>The two loops of \<open>const_by_name\<close> over one model's groups.\<close>

fun name_in_group :: "int \<Rightarrow> string \<Rightarrow> CPU_CONST list \<Rightarrow> CPU_CONST option" where
  "name_in_group ty c [] = None"
| "name_in_group ty c (citem # rest) =
     (if c = c_key citem \<and> (ty = CPU_CONST_NONE \<or> ty = c_type citem)
      then Some citem else name_in_group ty c rest)"

fun name_in_groups :: "int \<Rightarrow> string \<Rightarrow> CPU_CONST list list \<Rightarrow> CPU_CONST option" where
  "name_in_groups ty c [] = None"
| "name_in_groups ty c (clist # rest) =
     (case name_in_group ty c clist of
        Some citem \<Rightarrow> Some citem
      | None \<Rightarrow> name_in_groups ty c rest)"

text \<open>\<open>const_by_name\<close>: the model's own groups, then the parent the pointer names. The
  result is the constant found (\<open>None\<close> for \<open>NULL\<close>) and the lines written by \<open>eprintf\<close>.\<close>

partial_function (option) const_by_name ::
  "CPU_MODEL list \<Rightarrow> nat \<Rightarrow> int \<Rightarrow> string \<Rightarrow> (CPU_CONST option \<times> string list) option" where
  "const_by_name ms cpu ty c =
     (case name_in_groups ty c (cpu_consts (ms ! cpu)) of
        Some citem \<Rightarrow> Some (Some citem, [])
      | None \<Rightarrow>
          (case inherit_cpu_p (ms ! cpu) of
             Some p \<Rightarrow> const_by_name ms p ty c
           | None \<Rightarrow> Some (None, [''ERROR: CONSTANT key['' @ c @ ''] NOT FOUND.''])))"

declare const_by_name.simps [code]

text \<open>\<open>const_by_value\<close>, the same walk with the test on the value.\<close>

fun value_in_group :: "int \<Rightarrow> ut32 \<Rightarrow> CPU_CONST list \<Rightarrow> CPU_CONST option" where
  "value_in_group ty v [] = None"
| "value_in_group ty v (citem # rest) =
     (if c_value citem = (MASK (c_size citem * 8) AND v)
         \<and> (ty = CPU_CONST_NONE \<or> ty = c_type citem)
      then Some citem else value_in_group ty v rest)"

fun value_in_groups :: "int \<Rightarrow> ut32 \<Rightarrow> CPU_CONST list list \<Rightarrow> CPU_CONST option" where
  "value_in_groups ty v [] = None"
| "value_in_groups ty v (clist # rest) =
     (case value_in_group ty v clist of
        Some citem \<Rightarrow> Some citem
      | None \<Rightarrow> value_in_groups ty v rest)"

partial_function (option) const_by_value ::
  "CPU_MODEL list \<Rightarrow> nat \<Rightarrow> int \<Rightarrow> ut32 \<Rightarrow> CPU_CONST option option" where
  "const_by_value ms cpu ty v =
     (case value_in_groups ty v (cpu_consts (ms ! cpu)) of
        Some citem \<Rightarrow> Some (Some citem)
      | None \<Rightarrow>
          (case inherit_cpu_p (ms ! cpu) of
             Some p \<Rightarrow> const_by_value ms p ty v
           | None \<Rightarrow> Some None))"

declare const_by_value.simps [code]

section \<open>AVR: the analysed instruction and the ESIL text\<close>

text \<open>The part of \<open>RzAnalysisOp\<close> the plugin writes. \<open>RZ_ANALYSIS_OP_TYPE_*\<close> and
  \<open>RZ_ANALYSIS_OP_FAMILY_*\<close> are enumerations of the framework; \<open>T_NULL\<close> and \<open>F_CPU\<close>
  are their zero values (a zero-initialised \<open>RzAnalysisOp\<close> has them).\<close>

datatype (plugins only: size) op_type =
    T_NULL | T_UNK | T_TRAP | T_UCALL | T_UJMP | T_LOAD | T_NOP | T_RET | T_MOV | T_MUL
  | T_AND | T_CRYPTO | T_ADD | T_SUB | T_IO | T_SAR | T_NOT | T_SHR | T_POP | T_PUSH
  | T_STORE | T_CALL | T_JMP | T_CJMP | T_CMP | T_XOR | T_OR

datatype op_family = F_UNKNOWN | F_CPU | F_IO | F_PRIV

record RzAnalysisOp =
  op_mnemonic :: "string option"
  op_addr :: ut64
  op_type :: op_type
  op_type2 :: int
  op_family :: op_family
  op_nopcode :: int
  op_cycles :: int
  op_size :: int
  op_eob :: bool
  op_jump :: ut64
  op_fail :: ut64
  op_ptr :: ut64
  op_val :: ut64
  op_mmio_address :: ut64
  op_esil :: string

text \<open>\<open>RzAnalysisOp next_op = { 0 }\<close>.\<close>

definition zero_op :: RzAnalysisOp where
  "zero_op = \<lparr>op_mnemonic = None, op_addr = 0, op_type = T_NULL, op_type2 = 0,
     op_family = F_CPU, op_nopcode = 0, op_cycles = 0, op_size = 0, op_eob = False,
     op_jump = 0, op_fail = 0, op_ptr = 0, op_val = 0, op_mmio_address = 0, op_esil = []\<rparr>"

definition UT64_MAX :: ut64 where "UT64_MAX = - 1"

subsection \<open>printf conversions\<close>

function show_nat :: "nat \<Rightarrow> string" where
  "show_nat n =
     (if n < 10 then [''0123456789'' ! n]
      else show_nat (n div 10) @ [''0123456789'' ! (n mod 10)])"
  by pat_completeness auto
termination
  by (relation "measure (\<lambda>n. n)") auto

declare show_nat.simps [simp del]

function show_hex :: "nat \<Rightarrow> string" where
  "show_hex n =
     (if n < 16 then [''0123456789abcdef'' ! n]
      else show_hex (n div 16) @ [''0123456789abcdef'' ! (n mod 16)])"
  by pat_completeness auto
termination
  by (relation "measure (\<lambda>n. n)") auto

declare show_hex.simps [simp del]

text \<open>\<open>%d\<close> of an \<open>int\<close>, \<open>%x\<close> of a non-negative \<open>int\<close>, and \<open>PFMT64d\<close> of a \<open>ut64\<close>
  (printed as a signed 64-bit number).\<close>

definition fmt_d :: "int \<Rightarrow> string" where
  "fmt_d i = (if i < 0 then ''-'' @ show_nat (nat (- i)) else show_nat (nat i))"

definition fmt_x :: "int \<Rightarrow> string" where
  "fmt_x i = show_hex (nat i)"

definition fmt_lld :: "ut64 \<Rightarrow> string" where
  "fmt_lld v = fmt_d (sint v)"

text \<open>\<open>ESIL_A\<close>: append to the instruction's ESIL text. The list holds the pieces of
  consecutive \<open>ESIL_A\<close> calls.\<close>

definition ESIL_A :: "RzAnalysisOp \<Rightarrow> string list \<Rightarrow> RzAnalysisOp" where
  "ESIL_A op ps = op\<lparr>op_esil := op_esil op @ concat ps\<rparr>"

text \<open>The bytes of the instruction: \<open>buf[i]\<close>, promoted to \<open>int\<close> as C does. The buffer is
  the memory behind the pointer \<open>buf\<close>; \<open>buf + n\<close> is \<open>buf_plus\<close>. The length the
  caller passes is a separate argument, as in the source.\<close>

definition byte :: "(nat \<Rightarrow> ut8) \<Rightarrow> nat \<Rightarrow> int" where
  "byte buf i = uint (buf i)"

definition buf_plus :: "(nat \<Rightarrow> ut8) \<Rightarrow> int \<Rightarrow> (nat \<Rightarrow> ut8)" where
  "buf_plus buf n = (\<lambda>i. buf (i + nat n))"

definition shl :: "int \<Rightarrow> nat \<Rightarrow> int" where
  "shl x n = push_bit n x"

definition shr :: "int \<Rightarrow> nat \<Rightarrow> int" where
  "shr x n = drop_bit n x"

subsection \<open>Generic ESIL fragments\<close>

text \<open>\<open>__generic_io_dest\<close>: the text for an I/O port, a register name when the CPU model
  defines one at that address. \<open>None\<close> only when \<open>const_by_value\<close> does not return.\<close>

definition generic_io_dest :: "int \<Rightarrow> bool \<Rightarrow> CPU_MODEL list \<Rightarrow> nat \<Rightarrow> string option" where
  "generic_io_dest port wr ms cpu =
     (case const_by_value ms cpu CPU_CONST_REG (word_of_int (port AND 0xff)) of
        None \<Rightarrow> None
      | Some (Some c) \<Rightarrow> Some (c_key c @ (if wr then '',='' else ''''))
      | Some None \<Rightarrow>
          Some (''_io,'' @ fmt_d (port AND 0xff) @ '',+,'' @ (if wr then ''='' else '''') @ ''[1]''))"

text \<open>\<open>__generic_ld_st\<close>; \<open>ireg\<close> is the index register's letter, \<open>None\<close> for 0.\<close>

definition generic_ld_st ::
  "RzAnalysisOp \<Rightarrow> string \<Rightarrow> char option \<Rightarrow> bool \<Rightarrow> int \<Rightarrow> int \<Rightarrow> bool \<Rightarrow> RzAnalysisOp" where
  "generic_ld_st op mem ireg use_ramp prepostdec offset st =
     ESIL_A op
       [case ireg of
          Some c \<Rightarrow>
            (if prepostdec < 0 then ''1,'' @ [c] @ '',-,'' @ [c] @ '',=,'' else '''')
            @ [c] @ '',''
            @ (if offset \<noteq> 0 then fmt_d offset @ '',+,'' else '''')
        | None \<Rightarrow> fmt_d offset @ '','',
        if use_ramp
        then ''16,ramp'' @ [case ireg of Some c \<Rightarrow> c | None \<Rightarrow> CHR ''d''] @ '',<<,+,''
        else '''',
        ''_'' @ mem @ '',+,'',
        (if st then ''='' else '''') @ ''[1],'',
        case ireg of
          Some c \<Rightarrow> (if prepostdec > 0 then ''1,'' @ [c] @ '',+,'' @ [c] @ '',=,'' else '''')
        | None \<Rightarrow> '''']"

definition generic_pop :: "RzAnalysisOp \<Rightarrow> int \<Rightarrow> RzAnalysisOp" where
  "generic_pop op sz =
     (if sz > 1
      then ESIL_A op [''1,sp,+,_ram,+,'', ''['' @ fmt_d sz @ ''],'', fmt_d sz @ '',sp,+=,'']
      else ESIL_A op [''1,sp,+=,sp,_ram,+,[1],''])"

definition generic_push :: "RzAnalysisOp \<Rightarrow> int \<Rightarrow> RzAnalysisOp" where
  "generic_push op sz =
     ESIL_A op
       [''sp,_ram,+,'',
        if sz > 1 then ''-'' @ fmt_d (sz - 1) @ '',+,'' else '''',
        ''=['' @ fmt_d sz @ ''],'',
        ''-'' @ fmt_d sz @ '',sp,+=,'']"

section \<open>AVR: the instruction handlers\<close>

text \<open>One definition per \<open>INST_HANDLER\<close>, with the arguments the handler uses among
  \<open>(analysis, op, buf, len, fail, cpu)\<close>. No handler writes \<open>*fail\<close> (\<open>INST_INVALID\<close> and
  \<open>INST_ASSERT\<close> are never used). \<open>cpu\<close> is a pointer into the array of models: the array
  \<open>ms\<close> and an index. The registers a handler reads from \<open>analysis->esil\<close> are the
  function \<open>regs\<close>.\<close>

definition inst_adc :: "RzAnalysisOp \<Rightarrow> (nat \<Rightarrow> ut8) \<Rightarrow> int \<Rightarrow> RzAnalysisOp" where
  "inst_adc op buf len =
     (if len < 2 then op
      else
        let d = (shr (byte buf 0) 4 AND 0xf) OR shl (byte buf 1 AND 1) 4;
            r = (byte buf 0 AND 0xf) OR shl (byte buf 1 AND 2) 3
        in ESIL_A op
             [''r'' @ fmt_d r @ '',cf,+,r'' @ fmt_d d @ '',+=,'',
              ''$z,zf,:=,'', ''3,$c,hf,:=,'', ''7,$c,cf,:=,'', ''7,$o,vf,:=,'',
              ''0x80,r'' @ fmt_d d @ '',&,!,!,nf,:=''])"

definition inst_add :: "RzAnalysisOp \<Rightarrow> (nat \<Rightarrow> ut8) \<Rightarrow> int \<Rightarrow> RzAnalysisOp" where
  "inst_add op buf len =
     (if len < 2 then op
      else
        let d = (shr (byte buf 0) 4 AND 0xf) OR shl (byte buf 1 AND 1) 4;
            r = (byte buf 0 AND 0xf) OR shl (byte buf 1 AND 2) 3
        in ESIL_A op
             [''r'' @ fmt_d r @ '',r'' @ fmt_d d @ '',+=,'',
              ''$z,zf,:=,'', ''3,$c,hf,:=,'', ''7,$c,cf,:=,'', ''7,$o,vf,:=,'',
              ''0x80,r'' @ fmt_d d @ '',&,!,!,nf,:=,''])"

definition inst_adiw :: "RzAnalysisOp \<Rightarrow> (nat \<Rightarrow> ut8) \<Rightarrow> int \<Rightarrow> RzAnalysisOp" where
  "inst_adiw op buf len =
     (if len < 1 then op
      else
        let d = shr (byte buf 0 AND 0x30) 3 + 24;
            k = (byte buf 0 AND 0x0f) OR (shr (byte buf 0) 2 AND 0x30)
        in ESIL_A (op\<lparr>op_val := word_of_int k\<rparr>)
             [''7,r'' @ fmt_d (d + 1) @ '',>>,'',
              ''8,'' @ fmt_d k @ '',8,r'' @ fmt_d (d + 1) @ '',<<,r'' @ fmt_d d
                @ '',|,+,DUP,r'' @ fmt_d d @ '',=,>>,r'' @ fmt_d (d + 1) @ '',=,'',
              ''DUP,!,7,r'' @ fmt_d (d + 1) @ '',>>,&,vf,:=,'',
              ''r'' @ fmt_d (d + 1) @ '',0x80,&,!,!,nf,:=,'',
              ''8,r'' @ fmt_d (d + 1) @ '',<<,r'' @ fmt_d d @ '',|,!,zf,:=,'',
              ''7,r'' @ fmt_d (d + 1) @ '',>>,!,&,cf,:=,'',
              ''vf,nf,^,sf,:=''])"

definition inst_and :: "RzAnalysisOp \<Rightarrow> (nat \<Rightarrow> ut8) \<Rightarrow> int \<Rightarrow> RzAnalysisOp" where
  "inst_and op buf len =
     (if len < 2 then op
      else
        let d = (shr (byte buf 0) 4 AND 0xf) OR shl (byte buf 1 AND 1) 4;
            r = (byte buf 0 AND 0xf) OR shl (byte buf 1 AND 2) 3
        in ESIL_A op
             [''r'' @ fmt_d r @ '',r'' @ fmt_d d @ '',&=,$z,zf,:=,r'' @ fmt_d d
                @ '',0x80,&,!,!,nf,:=,0,vf,:=,nf,sf,:=,''])"

definition inst_andi :: "RzAnalysisOp \<Rightarrow> (nat \<Rightarrow> ut8) \<Rightarrow> int \<Rightarrow> RzAnalysisOp" where
  "inst_andi op buf len =
     (if len < 2 then op
      else
        let d = (shr (byte buf 0) 4 AND 0xf) + 16;
            k = shl (byte buf 1 AND 0x0f) 4 OR (byte buf 0 AND 0x0f)
        in ESIL_A (op\<lparr>op_val := word_of_int k\<rparr>)
             [fmt_d k @ '',r'' @ fmt_d d @ '',&=,$z,zf,:=,r'' @ fmt_d d
                @ '',0x80,&,!,!,nf,:=,0,vf,:=,nf,sf,:=,''])"

definition inst_asr :: "RzAnalysisOp \<Rightarrow> (nat \<Rightarrow> ut8) \<Rightarrow> int \<Rightarrow> RzAnalysisOp" where
  "inst_asr op buf len =
     (if len < 2 then op
      else
        let d = (shr (byte buf 0) 4 AND 0xf) OR shl (byte buf 1 AND 1) 4
        in ESIL_A op
             [''r'' @ fmt_d d @ '',0x1,&,cf,:=,0x1,r'' @ fmt_d d @ '',>>,r'' @ fmt_d d
                @ '',0x80,&,|,'',
              ''$z,zf,:=,'',
              ''r'' @ fmt_d d @ '',0x80,&,!,!,nf,:=,'',
              ''nf,cf,^,vf,:=,'',
              ''nf,vf,^,sf,:=,''])"

definition inst_bclr :: "RzAnalysisOp \<Rightarrow> (nat \<Rightarrow> ut8) \<Rightarrow> int \<Rightarrow> RzAnalysisOp" where
  "inst_bclr op buf len =
     (if len < 1 then op
      else
        let s = shr (byte buf 0) 4 AND 0x7
        in ESIL_A op [''0xff,'' @ fmt_d s @ '',1,<<,^,sreg,&=,''])"

definition inst_bld :: "RzAnalysisOp \<Rightarrow> (nat \<Rightarrow> ut8) \<Rightarrow> int \<Rightarrow> RzAnalysisOp" where
  "inst_bld op buf len =
     (if len < 2 then op
      else
        let d = shl (byte buf 1 AND 0x01) 4 OR (shr (byte buf 0) 4 AND 0xf);
            b = byte buf 0 AND 0x7
        in ESIL_A op
             [''r'' @ fmt_d d @ '','' @ fmt_d b @ '',1,<<,0xff,^,&,'',
              fmt_d b @ '',tf,<<,|,r'' @ fmt_d d @ '',=,''])"

definition inst_brbx :: "RzAnalysisOp \<Rightarrow> (nat \<Rightarrow> ut8) \<Rightarrow> int \<Rightarrow> RzAnalysisOp" where
  "inst_brbx op buf len =
     (if len < 2 then op
      else
        let s = byte buf 0 AND 0x7;
            jump = op_addr op
              + word_of_int
                  ((shl (byte buf 1 AND 0x03) 6 OR shr (byte buf 0 AND 0xf8) 2)
                   OR (if byte buf 1 AND 0x2 \<noteq> 0 then NOT 0x7f else 0))
              + 2;
            op1 = op\<lparr>op_jump := jump,
                     op_fail := op_addr op + word_of_int (op_size op),
                     op_cycles := 1\<rparr>
        in ESIL_A op1
             [fmt_d s @ '',1,<<,sreg,&,'',
              if byte buf 1 AND 0x4 \<noteq> 0 then ''!,'' else ''!,!,'',
              ''?{,'' @ fmt_lld jump @ '',pc,=,},''])"

definition inst_break :: "RzAnalysisOp \<Rightarrow> RzAnalysisOp" where
  "inst_break op = ESIL_A op [''BREAK'']"

definition inst_bset :: "RzAnalysisOp \<Rightarrow> (nat \<Rightarrow> ut8) \<Rightarrow> int \<Rightarrow> RzAnalysisOp" where
  "inst_bset op buf len =
     (if len < 1 then op
      else
        let s = shr (byte buf 0) 4 AND 0x7
        in ESIL_A op [fmt_d s @ '',1,<<,sreg,|=,''])"

definition inst_bst :: "RzAnalysisOp \<Rightarrow> (nat \<Rightarrow> ut8) \<Rightarrow> int \<Rightarrow> RzAnalysisOp" where
  "inst_bst op buf len =
     (if len < 2 then op
      else ESIL_A op
             [''r'' @ fmt_d (shl (byte buf 1 AND 1) 4 OR (shr (byte buf 0) 4 AND 0xf))
                @ '','' @ fmt_d (byte buf 0 AND 0x7) @ '',1,<<,&,!,!,tf,=,''])"

definition inst_call ::
  "RzAnalysisOp \<Rightarrow> (nat \<Rightarrow> ut8) \<Rightarrow> int \<Rightarrow> CPU_MODEL \<Rightarrow> RzAnalysisOp" where
  "inst_call op buf len cpu =
     (if len < 4 then op
      else
        let jump = word_of_int
              (shl (byte buf 2) 1 OR shl (byte buf 3) 9 OR shl (byte buf 1 AND 0x01) 23
               OR shl (byte buf 0 AND 0x01) 17 OR shl (byte buf 0 AND 0xf0) 14);
            cycles = (if pc cpu \<le> 16 then 3 else 4);
            op1 = op\<lparr>op_jump := jump,
                     op_fail := op_addr op + word_of_int (op_size op),
                     op_cycles := (if begins_with (model cpu) ''ATxmega''
                                   then cycles - 1 else cycles)\<rparr>
        in ESIL_A (generic_push (ESIL_A op1 [''pc,'']) (CPU_PC_SIZE cpu))
             [fmt_lld jump @ '',pc,=,''])"

text \<open>\<open>cbi\<close>, \<open>sbi\<close>, \<open>in\<close>, \<open>out\<close> and \<open>sbix\<close> ask the CPU model for the port's name.\<close>

definition inst_cbi ::
  "RzAnalysisOp \<Rightarrow> (nat \<Rightarrow> ut8) \<Rightarrow> int \<Rightarrow> CPU_MODEL list \<Rightarrow> nat \<Rightarrow> RzAnalysisOp option" where
  "inst_cbi op buf len ms cpu =
     (if len < 1 then Some op
      else
        let a = shr (byte buf 0) 3 AND 0x1f;
            b = byte buf 0 AND 0x07;
            op1 = op\<lparr>op_family := F_IO, op_type2 := 1, op_val := word_of_int a\<rparr>
        in case generic_io_dest a False ms cpu of
             None \<Rightarrow> None
           | Some rd \<Rightarrow>
               (case generic_io_dest a True ms cpu of
                  None \<Rightarrow> None
                | Some wr \<Rightarrow>
                    Some (ESIL_A op1
                      [''0xff,'' @ fmt_d b @ '',1,<<,^,'' @ rd @ '',&,'', wr @ '',''])))"

definition inst_com :: "RzAnalysisOp \<Rightarrow> (nat \<Rightarrow> ut8) \<Rightarrow> int \<Rightarrow> RzAnalysisOp" where
  "inst_com op buf len =
     (if len < 2 then op
      else
        let r = (shr (byte buf 0) 4 AND 0x0f) OR shl (byte buf 1 AND 1) 4
        in ESIL_A op
             [''r'' @ fmt_d r @ '',0xff,-,r'' @ fmt_d r @ '',=,$z,zf,:=,0,cf,:=,0,vf,:=,r''
                @ fmt_d r @ '',0x80,&,!,!,nf,:=,vf,nf,^,sf,:=''])"

definition inst_cp :: "RzAnalysisOp \<Rightarrow> (nat \<Rightarrow> ut8) \<Rightarrow> int \<Rightarrow> RzAnalysisOp" where
  "inst_cp op buf len =
     (if len < 2 then op
      else
        let r = (byte buf 0 AND 0x0f) OR (shl (byte buf 1) 3 AND 0x10);
            d = (shr (byte buf 0) 4 AND 0x0f) OR (shl (byte buf 1) 4 AND 0x10)
        in ESIL_A op
             [''r'' @ fmt_d r @ '',r'' @ fmt_d d @ '',-,0x80,&,!,!,nf,:=,'',
              ''r'' @ fmt_d r @ '',r'' @ fmt_d d @ '',==,'',
              ''$z,zf,:=,'', ''3,$b,hf,:=,'', ''8,$b,cf,:=,'', ''7,$o,vf,:=,'',
              ''vf,nf,^,sf,:=''])"

definition inst_cpc :: "RzAnalysisOp \<Rightarrow> (nat \<Rightarrow> ut8) \<Rightarrow> int \<Rightarrow> RzAnalysisOp" where
  "inst_cpc op buf len =
     (if len < 2 then op
      else
        let r = (byte buf 0 AND 0x0f) OR (shl (byte buf 1) 3 AND 0x10);
            d = (shr (byte buf 0) 4 AND 0x0f) OR (shl (byte buf 1) 4 AND 0x10)
        in ESIL_A op
             [''cf,r'' @ fmt_d r @ '',+,DUP,r'' @ fmt_d d @ '',-,0x80,&,!,!,nf,:=,'',
              ''r'' @ fmt_d d @ '',==,'',
              ''$z,zf,:=,'', ''3,$b,hf,:=,'', ''8,$b,cf,:=,'', ''7,$o,vf,:=,'',
              ''vf,nf,^,sf,:=''])"

definition inst_cpi :: "RzAnalysisOp \<Rightarrow> (nat \<Rightarrow> ut8) \<Rightarrow> int \<Rightarrow> RzAnalysisOp" where
  "inst_cpi op buf len =
     (if len < 2 then op
      else
        let d = (shr (byte buf 0) 4 AND 0xf) + 16;
            k = (byte buf 0 AND 0xf) OR shl (byte buf 1 AND 0xf) 4
        in ESIL_A op
             [fmt_d k @ '',r'' @ fmt_d d @ '',-,0x80,&,!,!,nf,:=,'',
              fmt_d k @ '',r'' @ fmt_d d @ '',==,'',
              ''$z,zf,:=,'', ''3,$b,hf,:=,'', ''8,$b,cf,:=,'', ''7,$o,vf,:=,'',
              ''vf,nf,^,sf,:=''])"

text \<open>\<open>cpse\<close>, \<open>sbix\<close> and \<open>sbrx\<close> call \<open>avr_op_analyze\<close> on the rest of the buffer; the
  definitions here are the handler after that call, given the size it left in
  \<open>next_op\<close>. The call itself is made in \<open>avr_op_analyze\<close> below, under the handler's own
  guard \<open>len \<ge> 2\<close>.\<close>

definition inst_cpse ::
  "RzAnalysisOp \<Rightarrow> (nat \<Rightarrow> ut8) \<Rightarrow> int \<Rightarrow> int \<Rightarrow> RzAnalysisOp" where
  "inst_cpse op buf len next_op_size =
     (let r = (byte buf 0 AND 0xf) OR shl (byte buf 1 AND 0x2) 3;
          d = (shr (byte buf 0) 4 AND 0xf) OR shl (byte buf 1 AND 0x1) 4;
          jump = op_addr op + word_of_int next_op_size + 2;
          op1 = op\<lparr>op_jump := jump, op_fail := op_addr op + 2, op_cycles := 1\<rparr>
      in ESIL_A op1
           [''r'' @ fmt_d r @ '',r'' @ fmt_d d @ '',^,!,'',
            ''?{,'' @ fmt_lld jump @ '',pc,=,},''])"

definition inst_dec :: "RzAnalysisOp \<Rightarrow> (nat \<Rightarrow> ut8) \<Rightarrow> int \<Rightarrow> RzAnalysisOp" where
  "inst_dec op buf len =
     (if len < 2 then op
      else
        let d = (shr (byte buf 0) 4 AND 0xf) OR shl (byte buf 1 AND 0x1) 4
        in ESIL_A op
             [''0x1,r'' @ fmt_d d @ '',-=,'',
              ''7,$o,vf,:=,'',
              ''r'' @ fmt_d d @ '',0x80,&,!,!,nf,:=,'',
              ''$z,zf,:=,'',
              ''vf,nf,^,sf,:=,''])"

definition inst_des :: "RzAnalysisOp \<Rightarrow> (nat \<Rightarrow> ut8) \<Rightarrow> RzAnalysisOp" where
  "inst_des op buf =
     (let round = shr (byte buf 0) 4
      in op\<lparr>op_type := T_CRYPTO, op_cycles := 1, op_esil := fmt_d round @ '',des''\<rparr>)"

definition inst_eijmp :: "(string \<Rightarrow> ut64) \<Rightarrow> RzAnalysisOp \<Rightarrow> RzAnalysisOp" where
  "inst_eijmp regs op =
     (let z = regs ''z''; eind = regs ''eind'';
          op1 = op\<lparr>op_jump := push_bit 1 (push_bit 16 eind + z)\<rparr>
      in (ESIL_A op1 [''1,z,16,eind,<<,+,<<,pc,=,''])\<lparr>op_cycles := 2\<rparr>)"

definition inst_eicall :: "(string \<Rightarrow> ut64) \<Rightarrow> RzAnalysisOp \<Rightarrow> CPU_MODEL \<Rightarrow> RzAnalysisOp" where
  "inst_eicall regs op cpu =
     (inst_eijmp regs (generic_push (ESIL_A op [''pc,'']) (CPU_PC_SIZE cpu)))
        \<lparr>op_cycles := (if begins_with (model cpu) ''ATxmega'' then 3 else 4)\<rparr>"

definition inst_elpm :: "RzAnalysisOp \<Rightarrow> (nat \<Rightarrow> ut8) \<Rightarrow> int \<Rightarrow> RzAnalysisOp" where
  "inst_elpm op buf len =
     (if len < 2 then op
      else
        let d = (if byte buf 1 AND 0xfe = 0x90
                 then shl (byte buf 1 AND 1) 4 OR (shr (byte buf 0) 4 AND 0xf)
                 else 0)
        in ESIL_A op
             [''16,rampz,<<,z,+,_prog,+,[1],'',
              ''r'' @ fmt_d d @ '',=,'',
              if byte buf 1 AND 0xfe = 0x90 \<and> byte buf 0 AND 0xf = 0x7
              then ''16,1,z,+,DUP,z,=,>>,1,&,rampz,+=,'' else ''''])"

definition inst_eor :: "RzAnalysisOp \<Rightarrow> (nat \<Rightarrow> ut8) \<Rightarrow> int \<Rightarrow> RzAnalysisOp" where
  "inst_eor op buf len =
     (if len < 2 then op
      else
        let d = (shr (byte buf 0) 4 AND 0xf) OR shl (byte buf 1 AND 1) 4;
            r = (byte buf 0 AND 0xf) OR shl (byte buf 1 AND 2) 3
        in ESIL_A op
             [''r'' @ fmt_d r @ '',r'' @ fmt_d d @ '',^=,$z,zf,:=,0,vf,:=,r'' @ fmt_d d
                @ '',0x80,&,!,!,nf,:=,nf,sf,:=''])"

definition inst_fmul :: "RzAnalysisOp \<Rightarrow> (nat \<Rightarrow> ut8) \<Rightarrow> int \<Rightarrow> RzAnalysisOp" where
  "inst_fmul op buf len =
     (if len < 1 then op
      else
        let d = (shr (byte buf 0) 4 AND 0x7) + 16;
            r = (byte buf 0 AND 0x7) + 16
        in ESIL_A op
             [''8,'',
              ''0xffff,1,r'' @ fmt_d r @ '',r'' @ fmt_d d @ '',*,<<,&,DUP,r0,=,>>,r1,=,'',
              ''8,r1,<<,r0,|,DUP,0x8000,&,!,!,cf,:=,'',
              ''!,zf,:=''])"

definition inst_fmuls :: "RzAnalysisOp \<Rightarrow> (nat \<Rightarrow> ut8) \<Rightarrow> int \<Rightarrow> RzAnalysisOp" where
  "inst_fmuls op buf len =
     (if len < 1 then op
      else
        let d = (shr (byte buf 0) 4 AND 0x7) + 16;
            r = (byte buf 0 AND 0x7) + 16
        in ESIL_A op
             [''8,1,'',
              ''r'' @ fmt_d d @ '',DUP,0x80,&,?{,0xff00,|,},'',
              ''r'' @ fmt_d r @ '',DUP,0x80,&,?{,0xff00,|,},'',
              ''*,<<,DUP,r0,=,>>,r1,=,'',
              ''8,r1,<<,r0,|,DUP,0x8000,&,!,!,cf,:=,'',
              ''!,zf,:=''])"

definition inst_fmulsu :: "RzAnalysisOp \<Rightarrow> (nat \<Rightarrow> ut8) \<Rightarrow> int \<Rightarrow> RzAnalysisOp" where
  "inst_fmulsu op buf len =
     (if len < 1 then op
      else
        let d = (shr (byte buf 0) 4 AND 0x7) + 16;
            r = (byte buf 0 AND 0x7) + 16
        in ESIL_A op
             [''8,1,'',
              ''r'' @ fmt_d d @ '',DUP,0x80,&,?{,0xff00,|,},'',
              ''r'' @ fmt_d r @ '',*,<<,DUP,r0,=,>>,r1,=,'',
              ''8,r1,<<,r0,|,DUP,0x8000,&,!,!,cf,:=,'',
              ''!,zf,:=''])"

definition inst_ijmp :: "(string \<Rightarrow> ut64) \<Rightarrow> RzAnalysisOp \<Rightarrow> RzAnalysisOp" where
  "inst_ijmp regs op =
     (let z = regs ''z''
      in ESIL_A (op\<lparr>op_jump := push_bit 1 z, op_cycles := 2\<rparr>) [''1,z,<<,pc,=,''])"

definition inst_icall :: "(string \<Rightarrow> ut64) \<Rightarrow> RzAnalysisOp \<Rightarrow> CPU_MODEL \<Rightarrow> RzAnalysisOp" where
  "inst_icall regs op cpu =
     (let op1 = inst_ijmp regs (generic_push (ESIL_A op [''pc,'']) (CPU_PC_SIZE cpu))
      in if begins_with (model cpu) ''ATxmega''
         then op1\<lparr>op_cycles := op_cycles op1 - 1\<rparr> else op1)"

definition inst_in ::
  "RzAnalysisOp \<Rightarrow> (nat \<Rightarrow> ut8) \<Rightarrow> int \<Rightarrow> CPU_MODEL list \<Rightarrow> nat \<Rightarrow> RzAnalysisOp option" where
  "inst_in op buf len ms cpu =
     (if len < 2 then Some op
      else
        let r = (shr (byte buf 0) 4 AND 0x0f) OR shl (byte buf 1 AND 0x01) 4;
            a = (byte buf 0 AND 0x0f) OR shl (byte buf 1 AND 0x6) 3
        in case generic_io_dest a False ms cpu of
             None \<Rightarrow> None
           | Some io_src \<Rightarrow>
               Some (ESIL_A
                 (op\<lparr>op_type2 := 0, op_val := word_of_int a,
                     op_mmio_address := word_of_int a, op_family := F_IO\<rparr>)
                 [io_src @ '',r'' @ fmt_d r @ '',=,'']))"

definition inst_inc :: "RzAnalysisOp \<Rightarrow> (nat \<Rightarrow> ut8) \<Rightarrow> int \<Rightarrow> RzAnalysisOp" where
  "inst_inc op buf len =
     (if len < 2 then op
      else
        let d = (shr (byte buf 0) 4 AND 0xf) OR shl (byte buf 1 AND 0x1) 4
        in ESIL_A op
             [''1,r'' @ fmt_d d @ '',+=,'',
              ''7,$o,vf,:=,'',
              ''r'' @ fmt_d d @ '',0x80,&,!,!,nf,:=,'',
              ''$z,zf,:=,'',
              ''vf,nf,^,sf,:=,''])"

definition inst_jmp :: "RzAnalysisOp \<Rightarrow> (nat \<Rightarrow> ut8) \<Rightarrow> int \<Rightarrow> RzAnalysisOp" where
  "inst_jmp op buf len =
     (if len < 4 then op
      else
        let jump = word_of_int
              (shl (byte buf 2) 1 OR shl (byte buf 3) 9 OR shl (byte buf 1 AND 0x01) 23
               OR shl (byte buf 0 AND 0x01) 17 OR shl (byte buf 0 AND 0xf0) 14)
        in ESIL_A (op\<lparr>op_jump := jump, op_cycles := 3\<rparr>) [fmt_lld jump @ '',pc,=,''])"

definition inst_lac :: "RzAnalysisOp \<Rightarrow> (nat \<Rightarrow> ut8) \<Rightarrow> int \<Rightarrow> RzAnalysisOp" where
  "inst_lac op buf len =
     (if len < 2 then op
      else
        let d = (shr (byte buf 0) 4 AND 0xf) OR shl (byte buf 1 AND 0x1) 4;
            op1 = generic_ld_st op ''ram'' (Some CHR ''z'') True 0 0 False;
            op2 = ESIL_A op1
                    [''r'' @ fmt_d d @ '',0xff,^,&,'', ''DUP,r'' @ fmt_d d @ '',=,'']
        in generic_ld_st op2 ''ram'' (Some CHR ''z'') True 0 0 True)"

definition inst_las :: "RzAnalysisOp \<Rightarrow> (nat \<Rightarrow> ut8) \<Rightarrow> int \<Rightarrow> RzAnalysisOp" where
  "inst_las op buf len =
     (if len < 2 then op
      else
        let d = (shr (byte buf 0) 4 AND 0xf) OR shl (byte buf 1 AND 0x1) 4;
            op1 = generic_ld_st op ''ram'' (Some CHR ''z'') True 0 0 False;
            op2 = ESIL_A op1 [''r'' @ fmt_d d @ '',|,'', ''DUP,r'' @ fmt_d d @ '',=,'']
        in generic_ld_st op2 ''ram'' (Some CHR ''z'') True 0 0 True)"

definition inst_lat :: "RzAnalysisOp \<Rightarrow> (nat \<Rightarrow> ut8) \<Rightarrow> int \<Rightarrow> RzAnalysisOp" where
  "inst_lat op buf len =
     (if len < 2 then op
      else
        let d = (shr (byte buf 0) 4 AND 0xf) OR shl (byte buf 1 AND 0x1) 4;
            op1 = generic_ld_st op ''ram'' (Some CHR ''z'') True 0 0 False;
            op2 = ESIL_A op1 [''r'' @ fmt_d d @ '',^,'', ''DUP,r'' @ fmt_d d @ '',=,'']
        in generic_ld_st op2 ''ram'' (Some CHR ''z'') True 0 0 True)"

definition inst_ld ::
  "RzAnalysisOp \<Rightarrow> (nat \<Rightarrow> ut8) \<Rightarrow> int \<Rightarrow> CPU_MODEL \<Rightarrow> RzAnalysisOp" where
  "inst_ld op buf len cpu =
     (if len < 2 then op
      else
        let op1 = generic_ld_st op ''ram'' (Some CHR ''x'') False
                    (if byte buf 0 AND 0xf = 0xe then - 1
                     else if byte buf 0 AND 0xf = 0xd then 1 else 0)
                    0 False;
            op2 = ESIL_A op1
                    [''r'' @ fmt_d (shl (byte buf 1 AND 1) 4 OR (shr (byte buf 0) 4 AND 0xf))
                       @ '',=,''];
            cycles = (if byte buf 0 AND 0x3 = 0 then 2
                      else if byte buf 0 AND 0x3 = 1 then 2 else 3)
        in op2\<lparr>op_cycles := (if begins_with (model cpu) ''ATxmega'' \<and> cycles > 1
                               then cycles - 1 else cycles)\<rparr>)"

definition inst_ldd ::
  "RzAnalysisOp \<Rightarrow> (nat \<Rightarrow> ut8) \<Rightarrow> int \<Rightarrow> CPU_MODEL \<Rightarrow> RzAnalysisOp" where
  "inst_ldd op buf len cpu =
     (if len < 2 then op
      else
        let offset = (byte buf 1 AND 0x20) OR shl (byte buf 1 AND 0xc) 1 OR (byte buf 0 AND 0x7);
            op1 = generic_ld_st op ''ram''
                    (Some (if byte buf 0 AND 0x8 \<noteq> 0 then CHR ''y'' else CHR ''z'')) False
                    (if byte buf 1 AND 0x10 = 0 then 0
                     else if byte buf 0 AND 0x1 \<noteq> 0 then 1 else - 1)
                    (if byte buf 1 AND 0x10 = 0 then offset else 0)
                    False;
            op2 = ESIL_A op1
                    [''r'' @ fmt_d (shl (byte buf 1 AND 1) 4 OR (shr (byte buf 0) 4 AND 0xf))
                       @ '',=,''];
            cycles = (if byte buf 1 AND 0x10 = 0 then (if offset = 0 then 1 else 3)
                      else if byte buf 0 AND 0x3 = 0 then 1
                      else if byte buf 0 AND 0x3 = 1 then 2 else 3)
        in op2\<lparr>op_cycles := (if begins_with (model cpu) ''ATxmega'' \<and> cycles > 1
                               then cycles - 1 else cycles)\<rparr>)"

definition inst_ldi :: "RzAnalysisOp \<Rightarrow> (nat \<Rightarrow> ut8) \<Rightarrow> int \<Rightarrow> RzAnalysisOp" where
  "inst_ldi op buf len =
     (if len < 2 then op
      else
        let k = (byte buf 0 AND 0xf) + shl (byte buf 1 AND 0xf) 4;
            d = (shr (byte buf 0) 4 AND 0xf) + 16
        in ESIL_A (op\<lparr>op_val := word_of_int k\<rparr>)
             [''0x'' @ fmt_x k @ '',r'' @ fmt_d d @ '',=,''])"

definition inst_lds :: "RzAnalysisOp \<Rightarrow> (nat \<Rightarrow> ut8) \<Rightarrow> int \<Rightarrow> RzAnalysisOp" where
  "inst_lds op buf len =
     (if len < 4 then op
      else
        let d = (shr (byte buf 0) 4 AND 0xf) OR shl (byte buf 1 AND 0x1) 4;
            k = shl (byte buf 3) 8 OR byte buf 2;
            op1 = generic_ld_st (op\<lparr>op_ptr := word_of_int k\<rparr>) ''ram'' None True 0 k False
        in ESIL_A op1 [''r'' @ fmt_d d @ '',=,''])"

definition inst_sts :: "RzAnalysisOp \<Rightarrow> (nat \<Rightarrow> ut8) \<Rightarrow> int \<Rightarrow> RzAnalysisOp" where
  "inst_sts op buf len =
     (if len < 4 then op
      else
        let r = (shr (byte buf 0) 4 AND 0xf) OR shl (byte buf 1 AND 0x1) 4;
            k = shl (byte buf 3) 8 OR byte buf 2;
            op1 = ESIL_A (op\<lparr>op_ptr := word_of_int k\<rparr>) [''r'' @ fmt_d r @ '','']
        in (generic_ld_st op1 ''ram'' None True 0 k True)\<lparr>op_cycles := 2\<rparr>)"

definition inst_lpm :: "RzAnalysisOp \<Rightarrow> (nat \<Rightarrow> ut8) \<Rightarrow> int \<Rightarrow> RzAnalysisOp" where
  "inst_lpm op buf len =
     (if len < 2 then op
      else
        let ins = shl (byte buf 1) 8 OR byte buf 0;
            op1 = generic_ld_st op ''prog'' (Some CHR ''z'') True
                    (if ins AND 0xfe0f = 0x9005 then 1 else 0) 0 False
        in ESIL_A op1
             [''r'' @ fmt_d (if ins = 0x95c8 then 0
                             else (shr (byte buf 0) 4 AND 0xf) OR shl (byte buf 1 AND 0x1) 4)
                @ '',=,''])"

definition inst_lsr :: "RzAnalysisOp \<Rightarrow> (nat \<Rightarrow> ut8) \<Rightarrow> int \<Rightarrow> RzAnalysisOp" where
  "inst_lsr op buf len =
     (if len < 2 then op
      else
        let d = (shr (byte buf 0) 4 AND 0xf) OR shl (byte buf 1 AND 1) 4
        in ESIL_A op
             [''r'' @ fmt_d d @ '',0x1,&,cf,:=,'',
              ''1,r'' @ fmt_d d @ '',>>=,'',
              ''$z,zf,:=,'', ''0,nf,:=,'', ''cf,vf,:=,'', ''cf,sf,:=,''])"

definition inst_mov :: "RzAnalysisOp \<Rightarrow> (nat \<Rightarrow> ut8) \<Rightarrow> int \<Rightarrow> RzAnalysisOp" where
  "inst_mov op buf len =
     (if len < 2 then op
      else
        let d = (shl (byte buf 1) 4 AND 0x10) OR (shr (byte buf 0) 4 AND 0x0f);
            r = (shl (byte buf 1) 3 AND 0x10) OR (byte buf 0 AND 0x0f)
        in ESIL_A op [''r'' @ fmt_d r @ '',r'' @ fmt_d d @ '',=,''])"

definition inst_movw :: "RzAnalysisOp \<Rightarrow> (nat \<Rightarrow> ut8) \<Rightarrow> int \<Rightarrow> RzAnalysisOp" where
  "inst_movw op buf len =
     (if len < 1 then op
      else
        let d = shr (byte buf 0 AND 0xf0) 3;
            r = shl (byte buf 0 AND 0x0f) 1
        in ESIL_A op
             [''r'' @ fmt_d r @ '',r'' @ fmt_d d @ '',=,r'' @ fmt_d (r + 1)
                @ '',r'' @ fmt_d (d + 1) @ '',=,''])"

definition inst_mul :: "RzAnalysisOp \<Rightarrow> (nat \<Rightarrow> ut8) \<Rightarrow> int \<Rightarrow> RzAnalysisOp" where
  "inst_mul op buf len =
     (if len < 2 then op
      else
        let d = (shl (byte buf 1) 4 AND 0x10) OR (shr (byte buf 0) 4 AND 0x0f);
            r = (shl (byte buf 1) 3 AND 0x10) OR (byte buf 0 AND 0x0f)
        in ESIL_A op
             [''8,r'' @ fmt_d r @ '',r'' @ fmt_d d @ '',*,DUP,r0,=,>>,r1,=,'',
              ''8,r1,<<,r0,|,DUP,0x8000,&,!,!,cf,:=,'',
              ''!,zf,:=''])"

definition inst_muls :: "RzAnalysisOp \<Rightarrow> (nat \<Rightarrow> ut8) \<Rightarrow> int \<Rightarrow> RzAnalysisOp" where
  "inst_muls op buf len =
     (if len < 1 then op
      else
        let d = (shr (byte buf 0) 4 AND 0x0f) + 16;
            r = (byte buf 0 AND 0x0f) + 16
        in ESIL_A op
             [''8,'',
              ''r'' @ fmt_d d @ '',DUP,0x80,&,?{,0xff00,|,},'',
              ''r'' @ fmt_d r @ '',DUP,0x80,&,?{,0xff00,|,},'',
              ''*,DUP,r0,=,>>,r1,=,'',
              ''8,r1,<<,r0,|,DUP,0x8000,&,!,!,cf,:=,'',
              ''!,zf,:=''])"

definition inst_mulsu :: "RzAnalysisOp \<Rightarrow> (nat \<Rightarrow> ut8) \<Rightarrow> int \<Rightarrow> RzAnalysisOp" where
  "inst_mulsu op buf len =
     (if len < 1 then op
      else
        let d = (shr (byte buf 0) 4 AND 0x07) + 16;
            r = (byte buf 0 AND 0x07) + 16
        in ESIL_A op
             [''8,'',
              ''r'' @ fmt_d d @ '',DUP,0x80,&,?{,0xff00,|,},'',
              ''r'' @ fmt_d r @ '',*,DUP,r0,=,>>,r1,=,'',
              ''8,r1,<<,r0,|,DUP,0x8000,&,!,!,cf,:=,'',
              ''!,zf,:=''])"

definition inst_neg :: "RzAnalysisOp \<Rightarrow> (nat \<Rightarrow> ut8) \<Rightarrow> int \<Rightarrow> RzAnalysisOp" where
  "inst_neg op buf len =
     (if len < 2 then op
      else
        let d = (shr (byte buf 0) 4 AND 0xf) OR shl (byte buf 1 AND 1) 4
        in ESIL_A op
             [''r'' @ fmt_d d @ '',0x00,-,0xff,&,'',
              ''DUP,r'' @ fmt_d d @ '',0xff,^,|,0x08,&,!,!,hf,=,'',
              ''DUP,0x80,-,!,vf,=,'',
              ''DUP,0x80,&,!,!,nf,=,'',
              ''DUP,!,zf,=,'',
              ''DUP,!,!,cf,=,'',
              ''vf,nf,^,sf,=,'',
              ''r'' @ fmt_d d @ '',=,''])"

definition inst_nop :: "RzAnalysisOp \<Rightarrow> RzAnalysisOp" where
  "inst_nop op = ESIL_A op ['',,'']"

definition inst_or :: "RzAnalysisOp \<Rightarrow> (nat \<Rightarrow> ut8) \<Rightarrow> int \<Rightarrow> RzAnalysisOp" where
  "inst_or op buf len =
     (if len < 2 then op
      else
        let d = (shr (byte buf 0) 4 AND 0xf) OR shl (byte buf 1 AND 1) 4;
            r = (byte buf 0 AND 0xf) OR shl (byte buf 1 AND 2) 3
        in ESIL_A op
             [''r'' @ fmt_d r @ '',r'' @ fmt_d d @ '',|=,'',
              ''$z,zf,:=,'',
              ''r'' @ fmt_d d @ '',&,!,!,nf,:=,'',
              ''0,vf,:=,'',
              ''nf,sf,:=''])"

definition inst_ori :: "RzAnalysisOp \<Rightarrow> (nat \<Rightarrow> ut8) \<Rightarrow> int \<Rightarrow> RzAnalysisOp" where
  "inst_ori op buf len =
     (if len < 2 then op
      else
        let d = (shr (byte buf 0) 4 AND 0xf) + 16;
            k = (byte buf 0 AND 0xf) OR shl (byte buf 1 AND 0xf) 4
        in ESIL_A (op\<lparr>op_val := word_of_int k\<rparr>)
             [fmt_d k @ '',r'' @ fmt_d d @ '',|=,'',
              ''$z,zf,:=,'',
              ''r'' @ fmt_d d @ '',0x80,&,!,!,nf,:=,'',
              ''0,vf,:=,'',
              ''nf,sf,:=''])"

definition inst_out ::
  "RzAnalysisOp \<Rightarrow> (nat \<Rightarrow> ut8) \<Rightarrow> int \<Rightarrow> CPU_MODEL list \<Rightarrow> nat \<Rightarrow> RzAnalysisOp option" where
  "inst_out op buf len ms cpu =
     (if len < 2 then Some op
      else
        let r = (shr (byte buf 0) 4 AND 0x0f) OR shl (byte buf 1 AND 0x01) 4;
            a = (byte buf 0 AND 0x0f) OR shl (byte buf 1 AND 0x6) 3
        in case generic_io_dest a True ms cpu of
             None \<Rightarrow> None
           | Some io_dst \<Rightarrow>
               Some (ESIL_A
                 (op\<lparr>op_type2 := 1, op_val := word_of_int a,
                     op_mmio_address := word_of_int a, op_family := F_IO\<rparr>)
                 [''r'' @ fmt_d r @ '','' @ io_dst @ '','']))"

definition inst_pop :: "RzAnalysisOp \<Rightarrow> (nat \<Rightarrow> ut8) \<Rightarrow> int \<Rightarrow> RzAnalysisOp" where
  "inst_pop op buf len =
     (if len < 2 then op
      else
        let d = shl (byte buf 1 AND 0x1) 4 OR (shr (byte buf 0) 4 AND 0xf)
        in ESIL_A (generic_pop op 1) [''r'' @ fmt_d d @ '',=,''])"

definition inst_push ::
  "RzAnalysisOp \<Rightarrow> (nat \<Rightarrow> ut8) \<Rightarrow> int \<Rightarrow> CPU_MODEL \<Rightarrow> RzAnalysisOp" where
  "inst_push op buf len cpu =
     (if len < 2 then op
      else
        let r = shl (byte buf 1 AND 0x1) 4 OR (shr (byte buf 0) 4 AND 0xf)
        in (generic_push (ESIL_A op [''r'' @ fmt_d r @ '','']) 1)
             \<lparr>op_cycles := (if begins_with (model cpu) ''ATxmega'' then 1 else 2)\<rparr>)"

definition inst_rcall ::
  "RzAnalysisOp \<Rightarrow> (nat \<Rightarrow> ut8) \<Rightarrow> int \<Rightarrow> CPU_MODEL \<Rightarrow> RzAnalysisOp" where
  "inst_rcall op buf len cpu =
     (if len < 2 then op
      else
        let jump = op_addr op
              + word_of_int
                  ((shl (shl (byte buf 1 AND 0xf) 8 OR byte buf 0) 1
                    OR (if byte buf 1 AND 0x8 \<noteq> 0 then NOT 0x1fff else 0)) + 2);
            op1 = op\<lparr>op_jump := jump, op_fail := op_addr op + word_of_int (op_size op)\<rparr>;
            op2 = ESIL_A (generic_push (ESIL_A op1 [''pc,'']) (CPU_PC_SIZE cpu))
                    [fmt_lld jump @ '',pc,=,''];
            cycles = (if pc cpu \<le> 16 then 3 else 4)
        in op2\<lparr>op_cycles :=
                 (if str_ncasecmp_eq (model cpu) ''ATtiny'' 6 then 4
                  else if begins_with (model cpu) ''ATxmega'' then cycles - 1 else cycles)\<rparr>)"

definition inst_ret :: "RzAnalysisOp \<Rightarrow> CPU_MODEL \<Rightarrow> RzAnalysisOp" where
  "inst_ret op cpu =
     (let op1 = ESIL_A (generic_pop (op\<lparr>op_eob := True\<rparr>) (CPU_PC_SIZE cpu)) [''pc,=,'']
      in if CPU_PC_SIZE cpu > 2 then op1\<lparr>op_cycles := op_cycles op1 + 1\<rparr> else op1)"

definition inst_reti :: "RzAnalysisOp \<Rightarrow> CPU_MODEL \<Rightarrow> RzAnalysisOp" where
  "inst_reti op cpu = ESIL_A (inst_ret (op\<lparr>op_family := F_PRIV\<rparr>) cpu) [''1,if,=,'']"

definition inst_rjmp :: "RzAnalysisOp \<Rightarrow> (nat \<Rightarrow> ut8) \<Rightarrow> RzAnalysisOp" where
  "inst_rjmp op buf =
     (let jump = ((shl (byte buf 1 AND 0xf) 9 OR shl (byte buf 0) 1)
                  OR (if byte buf 1 AND 0x8 \<noteq> 0 then NOT 0x1fff else 0)) + 2;
          target = op_addr op + word_of_int jump
      in ESIL_A (op\<lparr>op_jump := target\<rparr>) [fmt_lld target @ '',pc,=,''])"

definition inst_ror :: "RzAnalysisOp \<Rightarrow> (nat \<Rightarrow> ut8) \<Rightarrow> RzAnalysisOp" where
  "inst_ror op buf =
     (let d = (shr (byte buf 0) 4 AND 0x0f) OR (shl (byte buf 1) 4 AND 0x10)
      in ESIL_A op
           [''cf,nf,:=,'',
            ''r'' @ fmt_d d @ '',0x1,&,'',
            ''1,r'' @ fmt_d d @ '',>>,7,cf,<<,|,r'' @ fmt_d d @ '',=,cf,:=,'',
            ''$z,zf,:=,'',
            ''nf,cf,^,vf,:=,'',
            ''vf,nf,^,sf,:=''])"

definition inst_sbc :: "RzAnalysisOp \<Rightarrow> (nat \<Rightarrow> ut8) \<Rightarrow> int \<Rightarrow> RzAnalysisOp" where
  "inst_sbc op buf len =
     (if len < 2 then op
      else
        let r = (byte buf 0 AND 0x0f) OR shl (byte buf 1 AND 0x2) 3;
            d = (shr (byte buf 0) 4 AND 0xf) OR shl (byte buf 1 AND 0x1) 4
        in ESIL_A op
             [''cf,r'' @ fmt_d r @ '',+,r'' @ fmt_d d @ '',-=,'',
              ''$z,zf,:=,'', ''3,$b,hf,:=,'', ''8,$b,cf,:=,'', ''7,$o,vf,:=,'',
              ''0x80,r'' @ fmt_d d @ '',&,!,!,nf,:=,'',
              ''vf,nf,^,sf,:=''])"

definition inst_sbci :: "RzAnalysisOp \<Rightarrow> (nat \<Rightarrow> ut8) \<Rightarrow> int \<Rightarrow> RzAnalysisOp" where
  "inst_sbci op buf len =
     (if len < 2 then op
      else
        let d = (shr (byte buf 0) 4 AND 0xf) + 16;
            k = shl (byte buf 1 AND 0xf) 4 OR (byte buf 0 AND 0xf)
        in ESIL_A (op\<lparr>op_val := word_of_int k\<rparr>)
             [''cf,'' @ fmt_d k @ '',+,r'' @ fmt_d d @ '',-=,'',
              ''$z,zf,:=,'', ''3,$b,hf,:=,'', ''8,$b,cf,:=,'', ''7,$o,vf,:=,'',
              ''0x80,r'' @ fmt_d d @ '',&,!,!,nf,:=,'',
              ''vf,nf,^,sf,:=''])"

definition inst_sub :: "RzAnalysisOp \<Rightarrow> (nat \<Rightarrow> ut8) \<Rightarrow> int \<Rightarrow> RzAnalysisOp" where
  "inst_sub op buf len =
     (if len < 2 then op
      else
        let d = (shr (byte buf 0) 4 AND 0xf) OR shl (byte buf 1 AND 1) 4;
            r = (byte buf 0 AND 0xf) OR shl (byte buf 1 AND 2) 3
        in ESIL_A op
             [''r'' @ fmt_d r @ '',r'' @ fmt_d d @ '',-=,'',
              ''$z,zf,:=,'', ''3,$b,hf,:=,'', ''8,$b,cf,:=,'', ''7,$o,vf,:=,'',
              ''0x80,r'' @ fmt_d d @ '',&,!,!,nf,:=,'',
              ''vf,nf,^,sf,:=''])"

definition inst_subi :: "RzAnalysisOp \<Rightarrow> (nat \<Rightarrow> ut8) \<Rightarrow> int \<Rightarrow> RzAnalysisOp" where
  "inst_subi op buf len =
     (if len < 2 then op
      else
        let d = (shr (byte buf 0) 4 AND 0xf) + 16;
            k = shl (byte buf 1 AND 0xf) 4 OR (byte buf 0 AND 0xf)
        in ESIL_A (op\<lparr>op_val := word_of_int k\<rparr>)
             [fmt_d k @ '',r'' @ fmt_d d @ '',-=,'',
              ''$z,zf,:=,'', ''3,$b,hf,:=,'', ''8,$b,cf,:=,'', ''7,$o,vf,:=,'',
              ''0x80,r'' @ fmt_d d @ '',&,!,!,nf,:=,'',
              ''vf,nf,^,sf,:=''])"

definition inst_sbi ::
  "RzAnalysisOp \<Rightarrow> (nat \<Rightarrow> ut8) \<Rightarrow> int \<Rightarrow> CPU_MODEL list \<Rightarrow> nat \<Rightarrow> RzAnalysisOp option" where
  "inst_sbi op buf len ms cpu =
     (if len < 1 then Some op
      else
        let a = shr (byte buf 0) 3 AND 0x1f;
            b = byte buf 0 AND 0x07;
            op1 = op\<lparr>op_type2 := 1, op_val := word_of_int a, op_family := F_IO\<rparr>
        in case generic_io_dest a False ms cpu of
             None \<Rightarrow> None
           | Some rd \<Rightarrow>
               (case generic_io_dest a True ms cpu of
                  None \<Rightarrow> None
                | Some wr \<Rightarrow>
                    Some (ESIL_A op1
                      [''0xff,'' @ fmt_d b @ '',1,<<,|,'' @ rd @ '',&,'', wr @ '',''])))"

definition inst_sbix ::
  "RzAnalysisOp \<Rightarrow> (nat \<Rightarrow> ut8) \<Rightarrow> int \<Rightarrow> CPU_MODEL list \<Rightarrow> nat \<Rightarrow> int
     \<Rightarrow> RzAnalysisOp option" where
  "inst_sbix op buf len ms cpu next_op_size =
     (let a = shr (byte buf 0) 3 AND 0x1f;
          b = byte buf 0 AND 0x07;
          jump = op_addr op + word_of_int next_op_size + 2;
          op1 = op\<lparr>op_type2 := 0, op_val := word_of_int a, op_family := F_IO,
                   op_jump := jump, op_fail := op_addr op + word_of_int (op_size op),
                   op_cycles := 1\<rparr>
      in case generic_io_dest a False ms cpu of
           None \<Rightarrow> None
         | Some io_port \<Rightarrow>
             Some (ESIL_A op1
               [fmt_d b @ '',1,<<,'' @ io_port @ '',&,'',
                if byte buf 1 AND 0xe = 0xc then ''!,'' else ''!,!,'',
                ''?{,'' @ fmt_lld jump @ '',pc,=,},'']))"

definition inst_sbiw :: "RzAnalysisOp \<Rightarrow> (nat \<Rightarrow> ut8) \<Rightarrow> int \<Rightarrow> RzAnalysisOp" where
  "inst_sbiw op buf len =
     (if len < 1 then op
      else
        let d = shr (byte buf 0 AND 0x30) 3 + 24;
            k = (byte buf 0 AND 0xf) OR (shr (byte buf 0) 2 AND 0x30)
        in ESIL_A (op\<lparr>op_val := word_of_int k\<rparr>)
             [''7,r'' @ fmt_d (d + 1) @ '',>>,'',
              ''8,'' @ fmt_d k @ '',8,r'' @ fmt_d (d + 1) @ '',<<,r'' @ fmt_d d
                @ '',|,-,DUP,r'' @ fmt_d d @ '',=,>>,r'' @ fmt_d (d + 1) @ '',=,'',
              ''$z,zf,:=,'',
              ''DUP,!,7,r'' @ fmt_d (d + 1) @ '',>>,&,cf,:=,'',
              ''r'' @ fmt_d (d + 1) @ '',0x80,&,!,!,nf,:=,'',
              ''7,r'' @ fmt_d (d + 1) @ '',>>,!,&,vf,:=,'',
              ''vf,nf,^,sf,:=''])"

definition inst_sbrx ::
  "RzAnalysisOp \<Rightarrow> (nat \<Rightarrow> ut8) \<Rightarrow> int \<Rightarrow> int \<Rightarrow> RzAnalysisOp" where
  "inst_sbrx op buf len next_op_size =
     (let b = byte buf 0 AND 0x7;
          r = (shr (byte buf 0) 4 AND 0xf) OR shl (byte buf 1 AND 0x01) 4;
          jump = op_addr op + word_of_int next_op_size + 2;
          op1 = op\<lparr>op_jump := jump, op_fail := op_addr op + 2, op_cycles := 1\<rparr>
      in ESIL_A op1
           [fmt_d b @ '',1,<<,r'' @ fmt_d r @ '',&,'',
            if byte buf 1 AND 0xe = 0xc then ''!,'' else ''!,!,'',
            ''?{,'' @ fmt_lld jump @ '',pc,=,},''])"

definition inst_sleep :: "RzAnalysisOp \<Rightarrow> RzAnalysisOp" where
  "inst_sleep op = ESIL_A op [''BREAK'']"

text \<open>\<open>spm\<close> chooses the program by the value of \<open>spmcsr\<close> at analysis time; the default
  case only prints a message.\<close>

definition inst_spm :: "(string \<Rightarrow> ut64) \<Rightarrow> RzAnalysisOp \<Rightarrow> RzAnalysisOp" where
  "inst_spm regs op =
     (let spmcsr = regs ''spmcsr'';
          op1 = ESIL_A op [''0x7c,spmcsr,&=,''];
          op2 = (if spmcsr AND 0x7f = 0x03
                 then ESIL_A op1 [''16,rampz,<<,z,+,'', ''SPM_PAGE_ERASE,'']
                 else if spmcsr AND 0x7f = 0x01
                 then ESIL_A op1 [''r1,r0,'', ''z,'', ''SPM_PAGE_FILL,'']
                 else if spmcsr AND 0x7f = 0x05
                 then ESIL_A op1 [''16,rampz,<<,z,+,'', ''SPM_PAGE_WRITE,'']
                 else op1)
      in op2\<lparr>op_cycles := 1\<rparr>)"

definition inst_st :: "RzAnalysisOp \<Rightarrow> (nat \<Rightarrow> ut8) \<Rightarrow> int \<Rightarrow> RzAnalysisOp" where
  "inst_st op buf len =
     (if len < 2 then op
      else
        let op1 = ESIL_A op
                    [''r'' @ fmt_d (shl (byte buf 1 AND 1) 4 OR (shr (byte buf 0) 4 AND 0xf))
                       @ '','']
        in generic_ld_st op1 ''ram'' (Some CHR ''x'') False
             (if byte buf 0 AND 0xf = 0xe then - 1
              else if byte buf 0 AND 0xf = 0xd then 1 else 0)
             0 True)"

definition inst_std :: "RzAnalysisOp \<Rightarrow> (nat \<Rightarrow> ut8) \<Rightarrow> int \<Rightarrow> RzAnalysisOp" where
  "inst_std op buf len =
     (if len < 2 then op
      else
        let op1 = ESIL_A op
                    [''r'' @ fmt_d (shl (byte buf 1 AND 1) 4 OR (shr (byte buf 0) 4 AND 0xf))
                       @ '','']
        in generic_ld_st op1 ''ram''
             (Some (if byte buf 0 AND 0x8 \<noteq> 0 then CHR ''y'' else CHR ''z'')) False
             (if byte buf 1 AND 0x10 = 0 then 0
              else if byte buf 0 AND 0x1 \<noteq> 0 then 1 else - 1)
             (if byte buf 1 AND 0x10 = 0
              then (byte buf 1 AND 0x20) OR shl (byte buf 1 AND 0xc) 1 OR (byte buf 0 AND 0x7)
              else 0)
             True)"

definition inst_swap :: "RzAnalysisOp \<Rightarrow> (nat \<Rightarrow> ut8) \<Rightarrow> int \<Rightarrow> RzAnalysisOp" where
  "inst_swap op buf len =
     (if len < 2 then op
      else
        let d = shl (byte buf 1 AND 0x1) 4 OR (shr (byte buf 0) 4 AND 0xf)
        in ESIL_A op
             [''4,r'' @ fmt_d d @ '',>>,0x0f,&,'',
              ''4,r'' @ fmt_d d @ '',<<,0xf0,&,'',
              ''|,'',
              ''r'' @ fmt_d d @ '',=,''])"

section \<open>AVR: the descriptor table and the decoder\<close>

text \<open>The handlers, as the table's function pointers name them.\<close>

datatype (plugins only: size) handler =
    H_adc | H_add | H_adiw | H_and | H_andi | H_asr | H_bclr | H_bld | H_brbx | H_break
  | H_bset | H_bst | H_call | H_cbi | H_com | H_cp | H_cpc | H_cpi | H_cpse | H_dec
  | H_des | H_eicall | H_eijmp | H_elpm | H_eor | H_fmul | H_fmuls | H_fmulsu | H_icall
  | H_ijmp | H_in | H_inc | H_jmp | H_lac | H_las | H_lat | H_ld | H_ldd | H_ldi
  | H_lds | H_lpm | H_lsr | H_mov | H_movw | H_mul | H_muls | H_mulsu | H_neg | H_nop
  | H_or | H_ori | H_out | H_pop | H_push | H_rcall | H_ret | H_reti | H_rjmp | H_ror
  | H_sbc | H_sbci | H_sbi | H_sbiw | H_sbix | H_sbrx | H_sleep | H_spm | H_st | H_std
  | H_sts | H_sub | H_subi | H_swap

text \<open>\<open>OPCODE_DESC\<close>. The column \<open>cycles\<close> is the only one the program writes; its current
  content is passed around as a list (\<open>od_cycles\<close> is its initial value), the other
  columns are constant.\<close>

record OPCODE_DESC =
  od_name :: string
  od_mask :: int
  od_selector :: int
  od_handler :: handler
  od_cycles :: int
  od_size :: int
  od_type :: op_type

definition INST_DECL ::
  "string \<Rightarrow> handler \<Rightarrow> int \<Rightarrow> int \<Rightarrow> int \<Rightarrow> int \<Rightarrow> op_type \<Rightarrow> OPCODE_DESC" where
  "INST_DECL n h m sl c sz t =
     \<lparr>od_name = n, od_mask = m, od_selector = sl, od_handler = h, od_cycles = c,
      od_size = sz, od_type = t\<rparr>"

text \<open>The array \<open>opcodes\<close> without its terminator \<open>INST_LAST\<close>, whose handler is \<open>NULL\<close>
  and ends the scan.\<close>

definition opcodes :: "OPCODE_DESC list" where
  "opcodes =
    [INST_DECL ''break'' H_break 0xffff 0x9698 1 2 T_TRAP,
     INST_DECL ''eicall'' H_eicall 0xffff 0x9519 0 2 T_UCALL,
     INST_DECL ''eijmp'' H_eijmp 0xffff 0x9419 0 2 T_UJMP,
     INST_DECL ''icall'' H_icall 0xffff 0x9509 0 2 T_UCALL,
     INST_DECL ''ijmp'' H_ijmp 0xffff 0x9409 0 2 T_UJMP,
     INST_DECL ''lpm'' H_lpm 0xffff 0x95c8 3 2 T_LOAD,
     INST_DECL ''nop'' H_nop 0xffff 0x0000 1 2 T_NOP,
     INST_DECL ''ret'' H_ret 0xffff 0x9508 4 2 T_RET,
     INST_DECL ''reti'' H_reti 0xffff 0x9518 4 2 T_RET,
     INST_DECL ''sleep'' H_sleep 0xffff 0x9588 1 2 T_NOP,
     INST_DECL ''spm'' H_spm 0xffff 0x95e8 1 2 T_TRAP,
     INST_DECL ''bclr'' H_bclr 0xff8f 0x9488 1 2 T_MOV,
     INST_DECL ''bset'' H_bset 0xff8f 0x9408 1 2 T_MOV,
     INST_DECL ''fmul'' H_fmul 0xff88 0x0308 2 2 T_MUL,
     INST_DECL ''fmuls'' H_fmuls 0xff88 0x0380 2 2 T_MUL,
     INST_DECL ''fmulsu'' H_fmulsu 0xff88 0x0388 2 2 T_MUL,
     INST_DECL ''mulsu'' H_mulsu 0xff88 0x0300 2 2 T_AND,
     INST_DECL ''des'' H_des 0xff0f 0x940b 0 2 T_CRYPTO,
     INST_DECL ''adiw'' H_adiw 0xff00 0x9600 2 2 T_ADD,
     INST_DECL ''sbiw'' H_sbiw 0xff00 0x9700 2 2 T_SUB,
     INST_DECL ''cbi'' H_cbi 0xff00 0x9800 1 2 T_IO,
     INST_DECL ''sbi'' H_sbi 0xff00 0x9a00 1 2 T_IO,
     INST_DECL ''movw'' H_movw 0xff00 0x0100 1 2 T_MOV,
     INST_DECL ''muls'' H_muls 0xff00 0x0200 2 2 T_AND,
     INST_DECL ''asr'' H_asr 0xfe0f 0x9405 1 2 T_SAR,
     INST_DECL ''com'' H_com 0xfe0f 0x9400 1 2 T_NOT,
     INST_DECL ''dec'' H_dec 0xfe0f 0x940a 1 2 T_SUB,
     INST_DECL ''elpm'' H_elpm 0xfe0f 0x9006 0 2 T_LOAD,
     INST_DECL ''elpm'' H_elpm 0xfe0f 0x9007 0 2 T_LOAD,
     INST_DECL ''inc'' H_inc 0xfe0f 0x9403 1 2 T_ADD,
     INST_DECL ''lac'' H_lac 0xfe0f 0x9206 2 2 T_LOAD,
     INST_DECL ''las'' H_las 0xfe0f 0x9205 2 2 T_LOAD,
     INST_DECL ''lat'' H_lat 0xfe0f 0x9207 2 2 T_LOAD,
     INST_DECL ''ld'' H_ld 0xfe0f 0x900c 0 2 T_LOAD,
     INST_DECL ''ld'' H_ld 0xfe0f 0x900d 0 2 T_LOAD,
     INST_DECL ''ld'' H_ld 0xfe0f 0x900e 0 2 T_LOAD,
     INST_DECL ''lds'' H_lds 0xfe0f 0x9000 0 4 T_LOAD,
     INST_DECL ''sts'' H_sts 0xfe0f 0x9200 2 4 T_STORE,
     INST_DECL ''lpm'' H_lpm 0xfe0f 0x9004 3 2 T_LOAD,
     INST_DECL ''lpm'' H_lpm 0xfe0f 0x9005 3 2 T_LOAD,
     INST_DECL ''lsr'' H_lsr 0xfe0f 0x9406 1 2 T_SHR,
     INST_DECL ''neg'' H_neg 0xfe0f 0x9401 2 2 T_SUB,
     INST_DECL ''pop'' H_pop 0xfe0f 0x900f 2 2 T_POP,
     INST_DECL ''push'' H_push 0xfe0f 0x920f 0 2 T_PUSH,
     INST_DECL ''ror'' H_ror 0xfe0f 0x9407 1 2 T_SAR,
     INST_DECL ''st'' H_st 0xfe0f 0x920c 2 2 T_STORE,
     INST_DECL ''st'' H_st 0xfe0f 0x920d 0 2 T_STORE,
     INST_DECL ''st'' H_st 0xfe0f 0x920e 0 2 T_STORE,
     INST_DECL ''swap'' H_swap 0xfe0f 0x9402 1 2 T_SAR,
     INST_DECL ''call'' H_call 0xfe0e 0x940e 0 4 T_CALL,
     INST_DECL ''jmp'' H_jmp 0xfe0e 0x940c 2 4 T_JMP,
     INST_DECL ''bld'' H_bld 0xfe08 0xf800 1 2 T_MOV,
     INST_DECL ''bst'' H_bst 0xfe08 0xfa00 1 2 T_MOV,
     INST_DECL ''sbix'' H_sbix 0xff00 0x9900 2 2 T_CJMP,
     INST_DECL ''sbix'' H_sbix 0xff00 0x9b00 2 2 T_CJMP,
     INST_DECL ''sbrx'' H_sbrx 0xfe08 0xfc00 2 2 T_CJMP,
     INST_DECL ''sbrx'' H_sbrx 0xfe08 0xfe00 2 2 T_CJMP,
     INST_DECL ''ldd'' H_ldd 0xfe07 0x9001 0 2 T_LOAD,
     INST_DECL ''ldd'' H_ldd 0xfe07 0x9002 0 2 T_LOAD,
     INST_DECL ''std'' H_std 0xfe07 0x9201 0 2 T_STORE,
     INST_DECL ''std'' H_std 0xfe07 0x9202 0 2 T_STORE,
     INST_DECL ''adc'' H_adc 0xfc00 0x1c00 1 2 T_ADD,
     INST_DECL ''add'' H_add 0xfc00 0x0c00 1 2 T_ADD,
     INST_DECL ''and'' H_and 0xfc00 0x2000 1 2 T_AND,
     INST_DECL ''brbx'' H_brbx 0xfc00 0xf000 0 2 T_CJMP,
     INST_DECL ''brbx'' H_brbx 0xfc00 0xf400 0 2 T_CJMP,
     INST_DECL ''cp'' H_cp 0xfc00 0x1400 1 2 T_CMP,
     INST_DECL ''cpc'' H_cpc 0xfc00 0x0400 1 2 T_CMP,
     INST_DECL ''cpse'' H_cpse 0xfc00 0x1000 0 2 T_CJMP,
     INST_DECL ''eor'' H_eor 0xfc00 0x2400 1 2 T_XOR,
     INST_DECL ''mov'' H_mov 0xfc00 0x2c00 1 2 T_MOV,
     INST_DECL ''mul'' H_mul 0xfc00 0x9c00 2 2 T_AND,
     INST_DECL ''or'' H_or 0xfc00 0x2800 1 2 T_OR,
     INST_DECL ''sbc'' H_sbc 0xfc00 0x0800 1 2 T_SUB,
     INST_DECL ''sub'' H_sub 0xfc00 0x1800 1 2 T_SUB,
     INST_DECL ''in'' H_in 0xf800 0xb000 1 2 T_IO,
     INST_DECL ''out'' H_out 0xf800 0xb800 1 2 T_IO,
     INST_DECL ''andi'' H_andi 0xf000 0x7000 1 2 T_AND,
     INST_DECL ''cpi'' H_cpi 0xf000 0x3000 1 2 T_CMP,
     INST_DECL ''ldi'' H_ldi 0xf000 0xe000 1 2 T_LOAD,
     INST_DECL ''ori'' H_ori 0xf000 0x6000 1 2 T_OR,
     INST_DECL ''rcall'' H_rcall 0xf000 0xd000 0 2 T_CALL,
     INST_DECL ''rjmp'' H_rjmp 0xf000 0xc000 2 2 T_JMP,
     INST_DECL ''sbci'' H_sbci 0xf000 0x4000 1 2 T_SUB,
     INST_DECL ''subi'' H_subi 0xf000 0x5000 1 2 T_SUB,
     INST_DECL ''ldd'' H_ldd 0xd200 0x8000 0 2 T_LOAD,
     INST_DECL ''std'' H_std 0xd200 0x8200 0 2 T_STORE]"

text \<open>The call through the table's function pointer. \<open>next_op_size\<close> is read by the three
  compare-and-skip handlers only: the size their nested \<open>avr_op_analyze\<close> left in
  \<open>next_op\<close>.\<close>

definition call_handler ::
  "handler \<Rightarrow> (string \<Rightarrow> ut64) \<Rightarrow> RzAnalysisOp \<Rightarrow> (nat \<Rightarrow> ut8) \<Rightarrow> int \<Rightarrow> CPU_MODEL list
     \<Rightarrow> nat \<Rightarrow> int \<Rightarrow> RzAnalysisOp option" where
  "call_handler h regs op buf len ms cpu next_op_size =
     (case h of
        H_adc \<Rightarrow> Some (inst_adc op buf len)
      | H_add \<Rightarrow> Some (inst_add op buf len)
      | H_adiw \<Rightarrow> Some (inst_adiw op buf len)
      | H_and \<Rightarrow> Some (inst_and op buf len)
      | H_andi \<Rightarrow> Some (inst_andi op buf len)
      | H_asr \<Rightarrow> Some (inst_asr op buf len)
      | H_bclr \<Rightarrow> Some (inst_bclr op buf len)
      | H_bld \<Rightarrow> Some (inst_bld op buf len)
      | H_brbx \<Rightarrow> Some (inst_brbx op buf len)
      | H_break \<Rightarrow> Some (inst_break op)
      | H_bset \<Rightarrow> Some (inst_bset op buf len)
      | H_bst \<Rightarrow> Some (inst_bst op buf len)
      | H_call \<Rightarrow> Some (inst_call op buf len (ms ! cpu))
      | H_cbi \<Rightarrow> inst_cbi op buf len ms cpu
      | H_com \<Rightarrow> Some (inst_com op buf len)
      | H_cp \<Rightarrow> Some (inst_cp op buf len)
      | H_cpc \<Rightarrow> Some (inst_cpc op buf len)
      | H_cpi \<Rightarrow> Some (inst_cpi op buf len)
      | H_cpse \<Rightarrow> Some (inst_cpse op buf len next_op_size)
      | H_dec \<Rightarrow> Some (inst_dec op buf len)
      | H_des \<Rightarrow> Some (inst_des op buf)
      | H_eicall \<Rightarrow> Some (inst_eicall regs op (ms ! cpu))
      | H_eijmp \<Rightarrow> Some (inst_eijmp regs op)
      | H_elpm \<Rightarrow> Some (inst_elpm op buf len)
      | H_eor \<Rightarrow> Some (inst_eor op buf len)
      | H_fmul \<Rightarrow> Some (inst_fmul op buf len)
      | H_fmuls \<Rightarrow> Some (inst_fmuls op buf len)
      | H_fmulsu \<Rightarrow> Some (inst_fmulsu op buf len)
      | H_icall \<Rightarrow> Some (inst_icall regs op (ms ! cpu))
      | H_ijmp \<Rightarrow> Some (inst_ijmp regs op)
      | H_in \<Rightarrow> inst_in op buf len ms cpu
      | H_inc \<Rightarrow> Some (inst_inc op buf len)
      | H_jmp \<Rightarrow> Some (inst_jmp op buf len)
      | H_lac \<Rightarrow> Some (inst_lac op buf len)
      | H_las \<Rightarrow> Some (inst_las op buf len)
      | H_lat \<Rightarrow> Some (inst_lat op buf len)
      | H_ld \<Rightarrow> Some (inst_ld op buf len (ms ! cpu))
      | H_ldd \<Rightarrow> Some (inst_ldd op buf len (ms ! cpu))
      | H_ldi \<Rightarrow> Some (inst_ldi op buf len)
      | H_lds \<Rightarrow> Some (inst_lds op buf len)
      | H_lpm \<Rightarrow> Some (inst_lpm op buf len)
      | H_lsr \<Rightarrow> Some (inst_lsr op buf len)
      | H_mov \<Rightarrow> Some (inst_mov op buf len)
      | H_movw \<Rightarrow> Some (inst_movw op buf len)
      | H_mul \<Rightarrow> Some (inst_mul op buf len)
      | H_muls \<Rightarrow> Some (inst_muls op buf len)
      | H_mulsu \<Rightarrow> Some (inst_mulsu op buf len)
      | H_neg \<Rightarrow> Some (inst_neg op buf len)
      | H_nop \<Rightarrow> Some (inst_nop op)
      | H_or \<Rightarrow> Some (inst_or op buf len)
      | H_ori \<Rightarrow> Some (inst_ori op buf len)
      | H_out \<Rightarrow> inst_out op buf len ms cpu
      | H_pop \<Rightarrow> Some (inst_pop op buf len)
      | H_push \<Rightarrow> Some (inst_push op buf len (ms ! cpu))
      | H_rcall \<Rightarrow> Some (inst_rcall op buf len (ms ! cpu))
      | H_ret \<Rightarrow> Some (inst_ret op (ms ! cpu))
      | H_reti \<Rightarrow> Some (inst_reti op (ms ! cpu))
      | H_rjmp \<Rightarrow> Some (inst_rjmp op buf)
      | H_ror \<Rightarrow> Some (inst_ror op buf)
      | H_sbc \<Rightarrow> Some (inst_sbc op buf len)
      | H_sbci \<Rightarrow> Some (inst_sbci op buf len)
      | H_sbi \<Rightarrow> inst_sbi op buf len ms cpu
      | H_sbiw \<Rightarrow> Some (inst_sbiw op buf len)
      | H_sbix \<Rightarrow> inst_sbix op buf len ms cpu next_op_size
      | H_sbrx \<Rightarrow> Some (inst_sbrx op buf len next_op_size)
      | H_sleep \<Rightarrow> Some (inst_sleep op)
      | H_spm \<Rightarrow> Some (inst_spm regs op)
      | H_st \<Rightarrow> Some (inst_st op buf len)
      | H_std \<Rightarrow> Some (inst_std op buf len)
      | H_sts \<Rightarrow> Some (inst_sts op buf len)
      | H_sub \<Rightarrow> Some (inst_sub op buf len)
      | H_subi \<Rightarrow> Some (inst_subi op buf len)
      | H_swap \<Rightarrow> Some (inst_swap op buf len))"

text \<open>The handlers that call \<open>avr_op_analyze\<close> on the next instruction.\<close>

definition lookahead :: "handler \<Rightarrow> bool" where
  "lookahead h = (h = H_cpse \<or> h = H_sbix \<or> h = H_sbrx)"

definition set_invalid_op :: "RzAnalysisOp \<Rightarrow> ut64 \<Rightarrow> RzAnalysisOp" where
  "set_invalid_op op addr =
     op\<lparr>op_family := F_UNKNOWN, op_type := T_UNK, op_addr := addr, op_nopcode := 1,
        op_cycles := 1, op_size := 2, op_esil := ''1,$''\<rparr>"

text \<open>The scan of the table: the index of the first descriptor with
  \<open>(ins & mask) == selector\<close>.\<close>

fun find_opcode :: "OPCODE_DESC list \<Rightarrow> int \<Rightarrow> nat \<Rightarrow> nat option" where
  "find_opcode [] ins i = None"
| "find_opcode (d # ds) ins i =
     (if ins AND od_mask d = od_selector d then Some i else find_opcode ds ins (Suc i))"

lemma find_opcode_bounds:
  "find_opcode ds ins k = Some i \<Longrightarrow> k \<le> i \<and> i - k < length ds"
proof (induction ds arbitrary: k)
  case Nil
  then show ?case by simp
next
  case (Cons d ds)
  show ?case
  proof (cases "ins AND od_mask d = od_selector d")
    case True
    with Cons.prems show ?thesis by simp
  next
    case False
    with Cons.prems have "find_opcode ds ins (Suc k) = Some i" by simp
    from Cons.IH [OF this] show ?thesis by auto
  qed
qed

lemma lookahead_size:
  "\<forall>d \<in> set opcodes. lookahead (od_handler d) \<longrightarrow> od_size d = 2"
  by (simp add: opcodes_def INST_DECL_def lookahead_def)

lemma find_opcode_lookahead_size:
  assumes "find_opcode opcodes ins 0 = Some i" and "lookahead (od_handler (opcodes ! i))"
  shows "od_size (opcodes ! i) = 2"
proof -
  from find_opcode_bounds [OF assms(1)] have "opcodes ! i \<in> set opcodes" by simp
  with lookahead_size assms(2) show ?thesis by blast
qed

text \<open>What \<open>avr_op_analyze\<close> does after the handler has returned (with \<open>fail\<close> still 0):
  the write of 2 into the descriptor's \<open>cycles\<close> when the instruction's cycles are not
  positive, \<open>nopcode\<close>, and the removal of one trailing comma.\<close>

definition trim_comma :: "string \<Rightarrow> string" where
  "trim_comma t = (if length t > 1 \<and> last t = CHR '','' then butlast t else t)"

definition after_handler ::
  "nat \<Rightarrow> RzAnalysisOp \<Rightarrow> int list \<Rightarrow> RzAnalysisOp \<times> int list" where
  "after_handler i op cyc =
     (op\<lparr>op_nopcode := (if op_type op = T_UNK then 1 else 0),
         op_esil := trim_comma (op_esil op)\<rparr>,
      if op_cycles op \<le> 0 then cyc[i := 2] else cyc)"

text \<open>\<open>avr_op_analyze\<close>. The result is the descriptor returned (its index, \<open>None\<close> for
  \<open>NULL\<close>), \<open>*op\<close>, the \<open>cycles\<close> column of the table after the call, and, as a ghost
  value, how many calls of \<open>avr_op_analyze\<close> were nested inside this one at its deepest.
  The whole result is \<open>None\<close> only when a lookup of the CPU model's constants does not
  return.

  The nested call of a compare-and-skip handler is written here, where the handler is
  called: it is made when the handler's own guard \<open>len < 2\<close> does not return early, on
  \<open>buf + op->size\<close> with \<open>len - op->size\<close>, into a zero-initialised \<open>next_op\<close>.\<close>

function avr_op_analyze ::
  "(string \<Rightarrow> ut64) \<Rightarrow> int list \<Rightarrow> RzAnalysisOp \<Rightarrow> ut64 \<Rightarrow> (nat \<Rightarrow> ut8) \<Rightarrow> int
     \<Rightarrow> CPU_MODEL list \<Rightarrow> nat \<Rightarrow> (nat option \<times> RzAnalysisOp \<times> int list \<times> nat) option" where
  "avr_op_analyze regs cyc op addr buf len ms cpu =
     (if len < 2 then Some (None, op, cyc, 0)
      else
        (case find_opcode opcodes ((shl (byte buf 1) 8 OR byte buf 0) AND 0xffff) 0 of
           None \<Rightarrow> Some (None, set_invalid_op op addr, cyc, 0)
         | Some i \<Rightarrow>
             (let h = od_handler (opcodes ! i);
                  op1 = op\<lparr>op_cycles := cyc ! i, op_size := od_size (opcodes ! i),
                           op_type := od_type (opcodes ! i), op_jump := UT64_MAX,
                           op_fail := UT64_MAX, op_addr := addr, op_esil := ''''\<rparr>
              in if lookahead h
                 then
                   (if len < 2
                    then (case after_handler i op1 cyc of
                            (op2, cyc2) \<Rightarrow> Some (Some i, op2, cyc2, 0))
                    else
                      (case avr_op_analyze regs cyc zero_op
                              (op_addr op1 + word_of_int (od_size (opcodes ! i)))
                              (buf_plus buf (od_size (opcodes ! i)))
                              (len - od_size (opcodes ! i)) ms cpu of
                         None \<Rightarrow> None
                       | Some (nd, next_op, cyc1, n) \<Rightarrow>
                           (case call_handler h regs op1 buf len ms cpu (op_size next_op) of
                              None \<Rightarrow> None
                            | Some op2 \<Rightarrow>
                                (case after_handler i op2 cyc1 of
                                   (op3, cyc3) \<Rightarrow> Some (Some i, op3, cyc3, Suc n)))))
                 else
                   (case call_handler h regs op1 buf len ms cpu 0 of
                      None \<Rightarrow> None
                    | Some op2 \<Rightarrow>
                        (case after_handler i op2 cyc of
                           (op3, cyc3) \<Rightarrow> Some (Some i, op3, cyc3, 0))))))"
  by pat_completeness auto
termination
proof (relation "measure (\<lambda>(regs, cyc, op, addr, buf, len, ms, cpu). nat len)")
  show "wf (measure (\<lambda>(regs, cyc, op, addr, buf, len, ms, cpu). nat len))" by simp
next
  fix regs :: "string \<Rightarrow> ut64" and cyc :: "int list" and op :: RzAnalysisOp and addr :: ut64
    and buf :: "nat \<Rightarrow> ut8" and len :: int and ms :: "CPU_MODEL list" and cpu i :: nat
    and h :: handler and op1 :: RzAnalysisOp
  assume len: "\<not> len < 2"
    and found: "find_opcode opcodes ((shl (byte buf 1) 8 OR byte buf 0) AND 0xffff) 0 = Some i"
    and h: "h = od_handler (opcodes ! i)" and la: "lookahead h"
  from find_opcode_lookahead_size [OF found] h la have "od_size (opcodes ! i) = 2" by simp
  with len
  show "((regs, cyc, zero_op, op_addr op1 + word_of_int (od_size (opcodes ! i)),
          buf_plus buf (od_size (opcodes ! i)), len - od_size (opcodes ! i), ms, cpu),
         regs, cyc, op, addr, buf, len, ms, cpu)
        \<in> measure (\<lambda>(regs, cyc, op, addr, buf, len, ms, cpu). nat len)"
    by simp
qed

declare avr_op_analyze.simps [simp del]

section \<open>AVR: the plugin's entry point\<close>

text \<open>What \<open>avr_op\<close> reads of \<open>RzAnalysis\<close>: the CPU name, the byte order, the ESIL
  register file when \<open>analysis->esil\<close> is not \<open>NULL\<close>, and the memory sizes of
  \<open>analysis->arch_target->profile\<close>.\<close>

record RzAnalysis =
  an_cpu :: string
  an_big_endian :: bool
  an_esil :: "(string \<Rightarrow> ut64) option"
  an_profile_pc :: nat
  an_profile_sram_start :: ut64
  an_profile_sram_size :: ut64
  an_profile_eeprom_size :: ut64

text \<open>\<open>rz_analysis_esil_reg_read\<close> into a local variable of a handler: the register's
  value, or the variable's indeterminate content \<open>uninit\<close> when there is no ESIL.\<close>

definition esil_reg_read :: "RzAnalysis \<Rightarrow> (string \<Rightarrow> ut64) \<Rightarrow> string \<Rightarrow> ut64" where
  "esil_reg_read an uninit name = (case an_esil an of Some rf \<Rightarrow> rf name | None \<Rightarrow> uninit name)"

text \<open>\<open>avr_op\<close>. The disassembler of the asm plugin is the parameter \<open>avr_disassembler\<close>:
  from \<open>(buf, len, addr, big_endian)\<close> the size it returns and the text it leaves in the
  string buffer. The result is the value returned, \<open>*op\<close>, the analysis (its ESIL
  registers written), the registry and the \<open>cycles\<close> column. (A failed allocation of the
  mnemonic is not modelled; a \<open>NULL\<close> CPU model would be dereferenced by the handlers and
  is the value \<open>None\<close>.)\<close>

definition avr_op ::
  "((nat \<Rightarrow> ut8) \<Rightarrow> int \<Rightarrow> ut64 \<Rightarrow> bool \<Rightarrow> int \<times> string) \<Rightarrow> (string \<Rightarrow> ut64)
     \<Rightarrow> RzAnalysis \<Rightarrow> cpu_registry \<Rightarrow> int list \<Rightarrow> RzAnalysisOp \<Rightarrow> ut64 \<Rightarrow> (nat \<Rightarrow> ut8) \<Rightarrow> int
     \<Rightarrow> (int \<times> RzAnalysisOp \<times> RzAnalysis \<times> cpu_registry \<times> int list) option" where
  "avr_op avr_disassembler uninit an reg cyc op addr buf len =
     (let op0 = set_invalid_op op addr;
          (size, sb) = (if len > 1 then avr_disassembler buf len addr (an_big_endian an)
                        else (- 1, ''invalid''));
          op1 = op0\<lparr>op_mnemonic := Some sb\<rparr>
      in if sb = ''invalid'' then Some (- 1, op1\<lparr>op_eob := True\<rparr>, an, reg, cyc)
         else
           (case get_cpu_model (an_cpu an) reg of
              None \<Rightarrow> None
            | Some (None, reg1) \<Rightarrow> None
            | Some (Some cpu, reg1) \<Rightarrow>
                (let an1 =
                       (case an_esil an of
                          None \<Rightarrow> an
                        | Some rf \<Rightarrow>
                            (let o1 = word_of_int (shl 1 (an_profile_pc an));
                                 o2 = o1 + an_profile_sram_start an;
                                 o3 = o2 + an_profile_sram_size an;
                                 o4 = o3 + an_profile_eeprom_size an
                             in an\<lparr>an_esil := Some (rf(''_prog'' := 0, ''_io'' := o1,
                                    ''_sram'' := o2, ''_eeprom'' := o3, ''_page'' := o4))\<rparr>))
                 in case avr_op_analyze (esil_reg_read an1 uninit) cyc op1 addr buf len
                           (models reg1) cpu of
                      None \<Rightarrow> None
                    | Some (d, op2, cyc1, n) \<Rightarrow>
                        Some (size, op2\<lparr>op_size := size\<rparr>, an1, reg1, cyc1))))"

text \<open>A buffer given by its bytes, and the \<open>cycles\<close> column as initialised.\<close>

definition mkbuf :: "ut8 list \<Rightarrow> nat \<Rightarrow> ut8" where
  "mkbuf bs = (\<lambda>i. if i < length bs then bs ! i else 0)"

definition cycles0 :: "int list" where
  "cycles0 = map od_cycles opcodes"

section \<open>AVR: the custom ESIL operations\<close>

text \<open>The interpreter state the operations use: whether \<open>esil\<close>, \<open>esil->analysis\<close> and
  \<open>esil->analysis->reg\<close> are all there, \<open>esil->analysis->cpu\<close>, the stack (top first),
  the registers and the memory. A stack item is kept with what
  \<open>rz_analysis_esil_get_parm\<close> makes of it: its value, or \<open>None\<close> when it is neither a
  number nor a register.\<close>

record RzAnalysisEsil =
  es_valid :: bool
  es_cpu :: string
  es_stack :: "ut64 option list"
  es_regs :: "string \<Rightarrow> ut64"
  es_mem :: "ut64 \<Rightarrow> ut8"

text \<open>\<open>__esil_pop_argument\<close>: the value popped (\<open>None\<close> for the result \<open>false\<close>) and the
  interpreter after the pop.\<close>

definition esil_pop_argument :: "RzAnalysisEsil \<Rightarrow> ut64 option \<times> RzAnalysisEsil" where
  "esil_pop_argument esil =
     (case es_stack esil of
        [] \<Rightarrow> (None, esil)
      | t # rest \<Rightarrow> (t, esil\<lparr>es_stack := rest\<rparr>))"

definition esil_mem_write :: "RzAnalysisEsil \<Rightarrow> ut64 \<Rightarrow> ut8 \<Rightarrow> RzAnalysisEsil" where
  "esil_mem_write esil a c = esil\<lparr>es_mem := (es_mem esil)(a := c)\<rparr>"


subsection \<open>SPM\_PAGE\_ERASE\<close>

text \<open>The loop \<open>for (i = 0; i < (1ULL << page_size_bits); i++)\<close> of
  \<open>avr_custom_spm_page_erase\<close>, from the counter \<open>i\<close> on; \<open>n\<close> is the bound.\<close>

function erase_loop :: "ut64 \<Rightarrow> ut32 \<Rightarrow> nat \<Rightarrow> nat \<Rightarrow> RzAnalysisEsil \<Rightarrow> RzAnalysisEsil" where
  "erase_loop addr pc_mask n i esil =
     (if i < n
      then erase_loop addr pc_mask n (Suc i)
             (esil_mem_write esil ((addr + of_nat i) AND ucast pc_mask) 0xff)
      else esil)"
  by pat_completeness auto
termination
  by (relation "measure (\<lambda>(addr, pc_mask, n, i, esil). n - i)") auto

declare erase_loop.simps [simp del]

text \<open>\<open>avr_custom_spm_page_erase\<close>: the result, the interpreter and the registry after the
  call. \<open>~(MASK(page_size_bits))\<close> is a \<open>ut32\<close>, widened with zeros for the \<open>&=\<close> on the
  64-bit address.\<close>

definition avr_custom_spm_page_erase ::
  "cpu_registry \<Rightarrow> RzAnalysisEsil \<Rightarrow> (bool \<times> RzAnalysisEsil \<times> cpu_registry) option" where
  "avr_custom_spm_page_erase reg esil =
     (if \<not> es_valid esil then Some (False, esil, reg)
      else
        (case esil_pop_argument esil of
           (None, esil1) \<Rightarrow> Some (False, esil1, reg)
         | (Some addr, esil1) \<Rightarrow>
             (case get_cpu_model (es_cpu esil1) reg of
                None \<Rightarrow> None
              | Some (None, reg1) \<Rightarrow> None
              | Some (Some cpu, reg1) \<Rightarrow>
                  (case const_by_name (models reg1) cpu CPU_CONST_PARAM ''page_size'' of
                     None \<Rightarrow> None
                   | Some (c, lg) \<Rightarrow>
                       (let page_size_bits = (ucast (const_get_value c) :: ut64);
                            addr1 = addr AND ucast (NOT (MASK (unat page_size_bits)))
                        in Some (True,
                             erase_loop addr1 (CPU_PC_MASK (models reg1 ! cpu))
                               (unat (push_bit (unat page_size_bits) (1 :: ut64))) 0 esil1,
                             reg1\<lparr>errlog := errlog reg1 @ lg\<rparr>))))))"

subsection \<open>des\<close>







subsection \<open>The inheritance chain, for stating what the lookups compute\<close>

text \<open>\<open>chain ms i ps\<close>: following the parent pointers of \<open>ms\<close> from model \<open>i\<close> reaches a
  model without parent, through the models \<open>ps\<close> (child first, root last).\<close>

inductive chain :: "CPU_MODEL list \<Rightarrow> nat \<Rightarrow> nat list \<Rightarrow> bool" where
  root: "inherit_cpu_p (ms ! i) = None \<Longrightarrow> chain ms i [i]"
| step: "inherit_cpu_p (ms ! i) = Some p \<Longrightarrow> chain ms p ps \<Longrightarrow> chain ms i (i # ps)"

text \<open>The specification's lookup: the first constant of that name and kind along a list
  of models, child to root.\<close>

fun lookup_chain :: "CPU_MODEL list \<Rightarrow> int \<Rightarrow> string \<Rightarrow> nat list \<Rightarrow> CPU_CONST option" where
  "lookup_chain ms ty c [] = None"
| "lookup_chain ms ty c (i # ps) =
     (case name_in_groups ty c (cpu_consts (ms ! i)) of
        Some citem \<Rightarrow> Some citem
      | None \<Rightarrow> lookup_chain ms ty c ps)"

text \<open>The registries the program can be in: the array \<open>cpu_models\<close> with some parent
  pointers filled in, and a cache that points into the array.\<close>

definition registry_ok :: "cpu_registry \<Rightarrow> bool" where
  "registry_ok r =
     (map (\<lambda>m. m\<lparr>inherit_cpu_p := None\<rparr>) (models r) = cpu_models
      \<and> (case cached r of Some c \<Rightarrow> c < length cpu_models | None \<Rightarrow> True))"

text \<open>The registries the program reaches from the initial one: a parent pointer that is
  set names the entry the search finds for the parent's name, and the cached model has
  its parent pointer set.\<close>

definition registry_inv :: "cpu_registry \<Rightarrow> bool" where
  "registry_inv r =
     (registry_ok r
      \<and> (\<forall>i < length cpu_models.
           case inherit_cpu_p (models r ! i) of
             None \<Rightarrow> True
           | Some p \<Rightarrow> (case inherit (cpu_models ! i) of
                          Some nm \<Rightarrow> p = model_loop cpu_models nm 0
                        | None \<Rightarrow> False))
      \<and> (case cached r of
           None \<Rightarrow> True
         | Some c \<Rightarrow> inherit (cpu_models ! c) \<noteq> None \<longrightarrow> inherit_cpu_p (models r ! c) \<noteq> None))"

text \<open>The array after \<open>ATmega1280\<close> has been looked up: its parent pointer names entry 0.\<close>

definition models_1280 :: "CPU_MODEL list" where
  "models_1280 = cpu_models[2 := (cpu_models ! 2)\<lparr>inherit_cpu_p := Some 0\<rparr>]"

subsection \<open>The ESIL text of a push\<close>

text \<open>The text that stores \<open>n\<close> bytes below the stack pointer and lowers it by \<open>n\<close>: the
  address \<open>sp + _ram\<close>, lowered by \<open>n - 1\<close> when \<open>n > 1\<close>; the store of \<open>n\<close> bytes
  \<open>=[n]\<close>; and \<open>sp += -n\<close>.\<close>

definition push_text :: "int \<Rightarrow> string" where
  "push_text n = ''sp,_ram,+,'' @ (if n > 1 then ''-'' @ fmt_d (n - 1) @ '',+,'' else [])
       @ ''=['' @ fmt_d n @ ''],'' @ ''-'' @ fmt_d n @ '',sp,+=,''"

subsection \<open>Which handlers read the interpreter\<close>



subsection \<open>Example inputs\<close>


definition esil_example :: "ut64 option list \<Rightarrow> RzAnalysisEsil" where
  "esil_example st =
     \<lparr>es_valid = True, es_cpu = ''ATmega8'', es_stack = st, es_regs = (\<lambda>r. 0),
      es_mem = (\<lambda>a. 0)\<rparr>"



section \<open>Properties\<close>

text \<open>
  C1 (as the code has it). The expressions built for GE, LT, GT and HI are the ones the
  specification lists and the always condition leaves the effect unwrapped; for LS and LE
  the code joins the two operands with \<open>AND\<close>, where the specification (and the
  architecture) has \<open>OR\<close>. With all four flags clear, LS evaluates to false although
  \<open>\<not>C \<or> Z\<close> is true; with only Z set, LE evaluates to false although \<open>Z \<or> (N \<oplus> V)\<close>
  is true.
\<close>

theorem cond_LS_LE_built_with_AND:
  "cond ARM_CC_GE = Some (IL_INV (IL_XOR (VARG ''nf'') (VARG ''vf'')))
   \<and> cond ARM_CC_LT = Some (IL_XOR (VARG ''nf'') (VARG ''vf''))
   \<and> cond ARM_CC_GT =
       Some (IL_AND (IL_INV (VARG ''zf'')) (IL_INV (IL_XOR (VARG ''nf'') (VARG ''vf''))))
   \<and> cond ARM_CC_HI = Some (IL_AND (VARG ''cf'') (IL_INV (VARG ''zf'')))
   \<and> rz_arm_cs_32_il (Some eff) ARM_CC_AL = Some eff
   \<and> cond ARM_CC_LS = Some (IL_AND (IL_INV (VARG ''cf'')) (VARG ''zf''))
   \<and> cond ARM_CC_LE = Some (IL_AND (VARG ''zf'') (IL_XOR (VARG ''nf'') (VARG ''vf'')))
   \<and> cond ARM_CC_LS \<noteq> Some (IL_OR (IL_INV (VARG ''cf'')) (VARG ''zf''))
   \<and> cond ARM_CC_LE \<noteq> Some (IL_OR (VARG ''zf'') (IL_XOR (VARG ''nf'') (VARG ''vf'')))
   \<and> \<not> il_eval (\<lambda>v. False) (the (cond ARM_CC_LS))
   \<and> \<not> il_eval (\<lambda>v. v = ''zf'') (the (cond ARM_CC_LE))"
  by (simp add: rz_arm_cs_32_il_def)

subsection \<open>CPU models\<close>

lemma model_loop_no_match:
  "\<forall>j. i \<le> j \<and> j < length ms - 1 \<longrightarrow> \<not> str_casecmp_eq name (model (ms ! j))
   \<Longrightarrow> i \<le> length ms - 1 \<Longrightarrow> model_loop ms name i = length ms - 1"
proof (induction ms name i rule: model_loop.induct)
  case (1 ms name i)
  show ?case
  proof (cases "i < length ms - 1")
    case True
    with 1 show ?thesis by (subst model_loop.simps) auto
  next
    case False
    with 1 show ?thesis by (subst model_loop.simps) auto
  qed
qed

lemma length_cpu_models: "length cpu_models = 8"
  by (simp add: cpu_models_def)

lemma registry_ok_fields:
  assumes "registry_ok r"
  shows "length (models r) = 8"
    and "i < 8 \<Longrightarrow> model (models r ! i) = model (cpu_models ! i)"
    and "i < 8 \<Longrightarrow> inherit (models r ! i) = inherit (cpu_models ! i)"
    and "i < 8 \<Longrightarrow> pc (models r ! i) = pc (cpu_models ! i)"
    and "i < 8 \<Longrightarrow> cpu_consts (models r ! i) = cpu_consts (cpu_models ! i)"
proof -
  from assms have eq: "map (\<lambda>m. m\<lparr>inherit_cpu_p := None\<rparr>) (models r) = cpu_models"
    by (simp add: registry_ok_def)
  then have "length (map (\<lambda>m. m\<lparr>inherit_cpu_p := None\<rparr>) (models r)) = 8"
    by (simp add: length_cpu_models)
  then show len: "length (models r) = 8" by simp
  have nth: "cpu_models ! i = (models r ! i)\<lparr>inherit_cpu_p := None\<rparr>" if "i < 8"
    using that len nth_map [of i "models r" "\<lambda>m. m\<lparr>inherit_cpu_p := None\<rparr>"] eq by simp
  show "i < 8 \<Longrightarrow> model (models r ! i) = model (cpu_models ! i)" by (simp add: nth)
  show "i < 8 \<Longrightarrow> inherit (models r ! i) = inherit (cpu_models ! i)" by (simp add: nth)
  show "i < 8 \<Longrightarrow> pc (models r ! i) = pc (cpu_models ! i)" by (simp add: nth)
  show "i < 8 \<Longrightarrow> cpu_consts (models r ! i) = cpu_consts (cpu_models ! i)" by (simp add: nth)
qed

text \<open>
  C5 (amended). A name that matches no entry of \<open>cpu_models\<close> is not reported and yields
  no sentinel: the search loop stops at the last entry of the array, the default model
  ATmega8, and \<open>get_cpu_model\<close> returns it (entry 7), whatever the cache holds. Nothing is
  written to the log and no parent pointer changes; only the cache now points to entry 7.
\<close>

theorem get_cpu_model_unknown_default:
  assumes ok: "registry_ok r"
    and unknown: "\<forall>m \<in> set cpu_models. \<not> str_casecmp_eq name (model m)"
  shows "get_cpu_model name r = Some (Some 7, r\<lparr>cached := Some 7\<rparr>)
         \<and> model (models r ! 7) = ''ATmega8''"
proof -
  note f = registry_ok_fields [OF ok]
  have nomatch: "\<not> str_casecmp_eq name (model (models r ! i))" if "i < 8" for i
  proof -
    have "cpu_models ! i \<in> set cpu_models" using that by (simp add: length_cpu_models)
    with unknown have "\<not> str_casecmp_eq name (model (cpu_models ! i))" by blast
    with f(2) [OF that] show ?thesis by simp
  qed
  have cache_miss:
    "\<not> (case cached r of Some c \<Rightarrow> str_casecmp_eq name (model (models r ! c)) | None \<Rightarrow> False)"
  proof (cases "cached r")
    case None
    then show ?thesis by simp
  next
    case (Some c)
    with ok have "c < 8" by (simp add: registry_ok_def length_cpu_models)
    with nomatch Some show ?thesis by simp
  qed
  have loop: "model_loop (models r) name 0 = 7"
    using model_loop_no_match [of 0 "models r" name] nomatch f(1) by simp
  have inh7: "inherit (models r ! 7) = None"
    using f(3) [of 7] by (simp add: cpu_models_def mk_model_def)
  have m7: "model (models r ! 7) = ''ATmega8''"
    using f(2) [of 7] by (simp add: cpu_models_def mk_model_def)
  have "get_cpu_model name r = Some (Some 7, r\<lparr>cached := Some 7\<rparr>)"
    by (subst get_cpu_model.simps) (simp add: cache_miss loop inh7)
  with m7 show ?thesis by simp
qed

theorem get_cpu_model_unknown_default_witness:
  "get_cpu_model ''ATtiny85'' registry0 = Some (Some 7, registry0\<lparr>cached := Some 7\<rparr>)
   \<and> model (models registry0 ! 7) = ''ATmega8''"
proof -
  have ok: "registry_ok registry0"
    by (simp add: registry_ok_def registry0_def cpu_models_def mk_model_def)
  have unknown: "\<forall>m \<in> set cpu_models. \<not> str_casecmp_eq ''ATtiny85'' (model m)"
    by (simp add: cpu_models_def mk_model_def str_casecmp_eq_def lower_char_def)
  show ?thesis using get_cpu_model_unknown_default [OF ok unknown] .
qed

text \<open>C5 as stated fails for the name \<open>ATtiny85\<close>: the caller receives the valid model
  ATmega8 (program counter width 13) and the log stays empty.\<close>

theorem get_cpu_model_unknown_counterexample:
  "get_cpu_model ''ATtiny85'' registry0 = Some (Some 7, registry0\<lparr>cached := Some 7\<rparr>)
   \<and> model (cpu_models ! 7) = ''ATmega8'' \<and> pc (cpu_models ! 7) = 13
   \<and> errlog (registry0\<lparr>cached := Some 7\<rparr>) = []"
  apply (subst get_cpu_model.simps)
  apply (simp add: registry0_def model_loop.simps cpu_models_def mk_model_def
      str_casecmp_eq_def lower_char_def)
  done

text \<open>
  C9. Along a resolved inheritance chain \<open>const_by_name\<close> returns the first constant of
  the requested name and kind, walking child to root; in particular a model without a
  local match returns its parent chain's constant. When no model of the chain has the
  key, the call still returns, with \<open>NULL\<close>, which \<open>const_get_value\<close> reads as 0.
\<close>

theorem const_by_name_walks_chain:
  assumes "chain ms cpu ps"
  shows "map_option fst (const_by_name ms cpu ty c) = Some (lookup_chain ms ty c ps)
         \<and> map_option (\<lambda>res. const_get_value (fst res)) (const_by_name ms cpu ty c)
             = Some (case lookup_chain ms ty c ps of
                       None \<Rightarrow> 0
                     | Some k \<Rightarrow> MASK (c_size k * 8) AND c_value k)"
proof -
  from assms
  have "map_option fst (const_by_name ms cpu ty c) = Some (lookup_chain ms ty c ps)"
  proof (induction rule: chain.induct)
    case (root ms i)
    then show ?case by (subst const_by_name.simps) (simp split: option.splits)
  next
    case (step ms i p ps)
    then show ?case by (subst const_by_name.simps) (simp split: option.splits)
  qed
  then show ?thesis
    by (cases "const_by_name ms cpu ty c")
      (auto simp: const_get_value_def split: option.splits)
qed


lemma model_loop_ATmega640: "model_loop cpu_models ''ATmega640'' 0 = 0"
  by (simp add: model_loop.simps cpu_models_def mk_model_def str_casecmp_eq_def lower_char_def)





theorem const_by_name_walks_chain_witness:
  "map_option fst (const_by_name models_1280 2 CPU_CONST_PARAM ''page_size'')
     = Some (Some (mk_const ''page_size'' CPU_CONST_PARAM 7 1))
   \<and> map_option (\<lambda>res. const_get_value (fst res))
        (const_by_name models_1280 2 CPU_CONST_PARAM ''flash_size'') = Some 0"
proof -
  have i0: "inherit_cpu_p (models_1280 ! 0) = None"
    by (simp add: models_1280_def cpu_models_def mk_model_def)
  have i2: "inherit_cpu_p (models_1280 ! 2) = Some 0"
    by (simp add: models_1280_def cpu_models_def mk_model_def)
  have c: "chain models_1280 2 [2, 0]"
    by (rule chain.step [OF i2]) (rule chain.root [OF i0])
  have l1: "lookup_chain models_1280 CPU_CONST_PARAM ''page_size'' [2, 0]
      = Some (mk_const ''page_size'' CPU_CONST_PARAM 7 1)"
    by (simp add: models_1280_def cpu_models_def mk_model_def cpu_reg_common_def
        cpu_memsize_m640_m1280m_m1281_m2560_m2561_def cpu_pagesize_7_bits_def mk_const_def
        CPU_CONST_PARAM_def CPU_CONST_NONE_def CPU_CONST_REG_def)
  have l2: "lookup_chain models_1280 CPU_CONST_PARAM ''flash_size'' [2, 0] = None"
    by (simp add: models_1280_def cpu_models_def mk_model_def cpu_reg_common_def
        cpu_memsize_m640_m1280m_m1281_m2560_m2561_def cpu_pagesize_7_bits_def mk_const_def
        CPU_CONST_PARAM_def CPU_CONST_NONE_def CPU_CONST_REG_def)
  have a: "map_option fst (const_by_name models_1280 2 CPU_CONST_PARAM ''page_size'')
      = Some (Some (mk_const ''page_size'' CPU_CONST_PARAM 7 1))"
    using const_by_name_walks_chain [OF c, of CPU_CONST_PARAM "''page_size''", THEN conjunct1]
    unfolding l1 .
  have b: "map_option (\<lambda>res. const_get_value (fst res))
      (const_by_name models_1280 2 CPU_CONST_PARAM ''flash_size'') = Some 0"
    using const_by_name_walks_chain [OF c, of CPU_CONST_PARAM "''flash_size''", THEN conjunct2]
    unfolding l2 by simp
  from a b show ?thesis by (rule conjI)
qed

subsection \<open>The decoder\<close>

text \<open>
  C6. On a buffer shorter than two bytes \<open>avr_op\<close> does not call the disassembler: it
  returns -1 and leaves in \<open>*op\<close> the invalid instruction of \<open>set_invalid_op\<close>, whose
  size is 2 (the minimum instruction size), whose type is unknown and whose ESIL text is
  the single trap \<open>1,$\<close>. Nothing else changes.
\<close>

theorem avr_op_short_buffer:
  assumes "len < 2"
  shows "avr_op avr_disassembler uninit an reg cyc op addr buf len
           = Some (- 1,
               (set_invalid_op op addr)\<lparr>op_mnemonic := Some ''invalid'', op_eob := True\<rparr>,
               an, reg, cyc)
         \<and> op_size ((set_invalid_op op addr)\<lparr>op_mnemonic := Some ''invalid'', op_eob := True\<rparr>) = 2
         \<and> op_esil ((set_invalid_op op addr)\<lparr>op_mnemonic := Some ''invalid'', op_eob := True\<rparr>)
             = ''1,$''
         \<and> op_type ((set_invalid_op op addr)\<lparr>op_mnemonic := Some ''invalid'', op_eob := True\<rparr>)
             = T_UNK"
  using assms by (simp add: avr_op_def set_invalid_op_def)

theorem avr_op_short_buffer_witness:
  "avr_op (\<lambda>b l a e. (2, ''nop'')) (\<lambda>n. 0)
       \<lparr>an_cpu = ''ATmega8'', an_big_endian = False, an_esil = None, an_profile_pc = 13,
        an_profile_sram_start = 0x60, an_profile_sram_size = 1024,
        an_profile_eeprom_size = 512\<rparr>
       registry0 cycles0 zero_op 0x100 (mkbuf [0x0c]) 1
     = Some (- 1,
         (set_invalid_op zero_op 0x100)\<lparr>op_mnemonic := Some ''invalid'', op_eob := True\<rparr>,
         \<lparr>an_cpu = ''ATmega8'', an_big_endian = False, an_esil = None, an_profile_pc = 13,
          an_profile_sram_start = 0x60, an_profile_sram_size = 1024,
          an_profile_eeprom_size = 512\<rparr>,
         registry0, cycles0)"
proof -
  have "(1 :: int) < 2" by simp
  from avr_op_short_buffer [OF this] show ?thesis by blast
qed

lemma CPU_PC_SIZE_ceiling: "CPU_PC_SIZE cpu = \<lceil>real_of_int (pc cpu) / 8\<rceil>"
proof -
  have a: "pc cpu AND 7 = pc cpu mod 8"
  proof -
    have "pc cpu AND mask 3 = pc cpu mod 2 ^ 3"
      by (simp flip: take_bit_eq_mask add: take_bit_eq_mod)
    then show ?thesis by (simp add: mask_eq_exp_minus_1)
  qed
  have b: "drop_bit 3 (pc cpu) = pc cpu div 8" by (simp add: drop_bit_eq_div)
  have c: "\<lceil>real_of_int (pc cpu) / 8\<rceil> = pc cpu div 8 + (if pc cpu mod 8 \<noteq> 0 then 1 else 0)"
  proof -
    have "\<lceil>real_of_int (pc cpu) / real_of_int 8\<rceil> = - (- pc cpu div 8)"
      by (rule ceiling_divide_eq_div)
    also have "\<dots> = pc cpu div 8 + (if pc cpu mod 8 \<noteq> 0 then 1 else 0)"
      by presburger
    finally show ?thesis by simp
  qed
  show ?thesis by (simp add: CPU_PC_SIZE_def a b c)
qed

lemma generic_push_esil:
  "generic_push op sz = op\<lparr>op_esil := op_esil op @ push_text sz\<rparr>"
  by (simp add: generic_push_def ESIL_A_def push_text_def)

text \<open>
  C8. Whatever the program counter width \<open>pc\<close> of the CPU model, each of the four call
  handlers emits, after \<open>pc,\<close> (the return address), the push of exactly
  \<open>\<lceil>pc / 8\<rceil>\<close> bytes and only then the jump, which ends the text. (\<open>CALL\<close> and
  \<open>RCALL\<close> emit nothing at all when the buffer is shorter than the instruction.)
\<close>

theorem call_handlers_push_pc_size:
  fixes cpu :: CPU_MODEL
  defines "n \<equiv> \<lceil>real_of_int (pc cpu) / 8\<rceil>"
  shows "op_esil (inst_call op buf len cpu) =
           (if len < 4 then op_esil op
            else op_esil op @ ''pc,'' @ push_text n
                   @ fmt_lld (op_jump (inst_call op buf len cpu)) @ '',pc,=,'')
       \<and> op_esil (inst_rcall op buf len cpu) =
           (if len < 2 then op_esil op
            else op_esil op @ ''pc,'' @ push_text n
                   @ fmt_lld (op_jump (inst_rcall op buf len cpu)) @ '',pc,=,'')
       \<and> op_esil (inst_icall regs op cpu) =
           op_esil op @ ''pc,'' @ push_text n @ ''1,z,<<,pc,=,''
       \<and> op_esil (inst_eicall regs op cpu) =
           op_esil op @ ''pc,'' @ push_text n @ ''1,z,16,eind,<<,+,<<,pc,=,''"
  unfolding n_def CPU_PC_SIZE_ceiling [symmetric]
  by (simp add: inst_call_def inst_rcall_def inst_icall_def inst_eicall_def inst_ijmp_def
      inst_eijmp_def generic_push_esil ESIL_A_def Let_def)


lemma find_elpm: "find_opcode opcodes 0x9006 0 = Some 27"
  by (simp add: opcodes_def INST_DECL_def)

lemma opcodes_27: "opcodes ! 27 = INST_DECL ''elpm'' H_elpm 0xfe0f 0x9006 0 2 T_LOAD"
  by (simp add: opcodes_def)

lemma cycles0_27: "cycles0 ! 27 = 0"
  by (simp add: cycles0_def opcodes_def INST_DECL_def)

lemma length_cycles0: "length cycles0 = 87"
  by (simp add: cycles0_def opcodes_def)

text \<open>
  C3 (as the code has it). \<open>ELPM r0, Z\<close> (bytes \<open>06 90\<close>) has 0 cycles in the table and
  its handler sets none. On the first decode the instruction is returned with 0 cycles:
  the 2 is written into the table's \<open>cycles\<close> column (\<open>opcode_desc->cycles = 2\<close>), not
  into the instruction. Only a second decode, which copies the changed column, returns 2.
\<close>

theorem elpm_cycles_left_at_zero:
  "map_option (\<lambda>(d, op, cyc, n). (d, op_cycles op, cyc = cycles0[27 := 2]))
     (avr_op_analyze regs cycles0 zero_op 0 (mkbuf [0x06, 0x90]) 2 cpu_models 7)
     = Some (Some 27, 0, True)
   \<and> map_option (\<lambda>(d, op, cyc, n). (d, op_cycles op))
       (avr_op_analyze regs (cycles0[27 := 2]) zero_op 0 (mkbuf [0x06, 0x90]) 2 cpu_models 7)
     = Some (Some 27, 2)"
proof
  show "map_option (\<lambda>(d, op, cyc, n). (d, op_cycles op, cyc = cycles0[27 := 2]))
     (avr_op_analyze regs cycles0 zero_op 0 (mkbuf [0x06, 0x90]) 2 cpu_models 7)
     = Some (Some 27, 0, True)"
    by (subst avr_op_analyze.simps)
      (simp add: byte_def mkbuf_def shl_def shr_def find_elpm opcodes_27 INST_DECL_def
        lookahead_def call_handler_def inst_elpm_def ESIL_A_def after_handler_def cycles0_27)
  show "map_option (\<lambda>(d, op, cyc, n). (d, op_cycles op))
       (avr_op_analyze regs (cycles0[27 := 2]) zero_op 0 (mkbuf [0x06, 0x90]) 2 cpu_models 7)
     = Some (Some 27, 2)"
    by (subst avr_op_analyze.simps)
      (simp add: byte_def mkbuf_def shl_def shr_def find_elpm opcodes_27 INST_DECL_def
        lookahead_def call_handler_def inst_elpm_def ESIL_A_def after_handler_def
        length_cycles0)
qed





subsection \<open>Nested decoding\<close>

lemmas inst_defs = inst_adc_def inst_add_def inst_adiw_def inst_and_def inst_andi_def inst_asr_def inst_bclr_def inst_bld_def inst_brbx_def inst_break_def inst_bset_def inst_bst_def inst_call_def inst_cbi_def inst_com_def inst_cp_def inst_cpc_def inst_cpi_def inst_cpse_def inst_dec_def inst_des_def inst_eijmp_def inst_eicall_def inst_elpm_def inst_eor_def inst_fmul_def inst_fmuls_def inst_fmulsu_def inst_ijmp_def inst_icall_def inst_in_def inst_inc_def inst_jmp_def inst_lac_def inst_las_def inst_lat_def inst_ld_def inst_ldd_def inst_ldi_def inst_lds_def inst_sts_def inst_lpm_def inst_lsr_def inst_mov_def inst_movw_def inst_mul_def inst_muls_def inst_mulsu_def inst_neg_def inst_nop_def inst_or_def inst_ori_def inst_out_def inst_pop_def inst_push_def inst_rcall_def inst_ret_def inst_reti_def inst_rjmp_def inst_ror_def inst_sbc_def inst_sbci_def inst_sub_def inst_subi_def inst_sbi_def inst_sbix_def inst_sbiw_def inst_sbrx_def inst_sleep_def inst_spm_def inst_st_def inst_std_def inst_swap_def

lemma call_handler_buf_cong:
  assumes "2 \<le> len" and "b1 0 = b2 0" and "b1 (Suc 0) = b2 (Suc 0)"
    and "4 \<le> len \<Longrightarrow> b1 2 = b2 2 \<and> b1 3 = b2 3"
  shows "call_handler h regs op b1 len ms cpu nsz = call_handler h regs op b2 len ms cpu nsz"
proof -
  have b: "byte b1 0 = byte b2 0" "byte b1 (Suc 0) = byte b2 (Suc 0)"
    using assms by (simp_all add: byte_def)
  have c: "byte b1 2 = byte b2 2" "byte b1 3 = byte b2 3" if "4 \<le> len"
    using assms(4) [OF that] by (simp_all add: byte_def)
  show ?thesis
    by (cases h; simp add: call_handler_def inst_defs b c Let_def cong: if_cong)
qed


lemma buf_plus_agree:
  assumes "\<forall>i. int i < len \<longrightarrow> b1 i = b2 i" and "0 \<le> k"
  shows "\<forall>i. int i < len - k \<longrightarrow> buf_plus b1 k i = buf_plus b2 k i"
  using assms by (auto simp: buf_plus_def)

lemma avr_op_analyze_buf_agree:
  "\<forall>i. int i < len \<longrightarrow> b1 i = b2 i \<Longrightarrow>
     avr_op_analyze regs cyc op addr b1 len ms cpu = avr_op_analyze regs cyc op addr b2 len ms cpu"
proof (induction regs cyc op addr b1 len ms cpu arbitrary: b2 rule: avr_op_analyze.induct)
  case (1 regs cyc op addr buf len ms cpu)
  show ?case
  proof (cases "len < 2")
    case True
    then show ?thesis by (simp add: avr_op_analyze.simps [of _ _ _ _ _ len])
  next
    case False
    with "1.prems" have b0: "buf 0 = b2 0" and b1: "buf (Suc 0) = b2 (Suc 0)" by auto
    from "1.prems" have b23: "4 \<le> len \<Longrightarrow> buf 2 = b2 2 \<and> buf 3 = b2 3" by auto
    have ins: "(shl (byte buf 1) 8 OR byte buf 0) AND 0xffff
        = (shl (byte b2 1) 8 OR byte b2 0) AND 0xffff"
      using b0 b1 by (simp add: byte_def)
    have ch: "call_handler h regs op' buf len ms cpu nsz
        = call_handler h regs op' b2 len ms cpu nsz" for h op' nsz
      using call_handler_buf_cong [OF _ b0 b1 b23] False by simp
    show ?thesis
    proof (cases "find_opcode opcodes ((shl (byte buf 1) 8 OR byte buf 0) AND 0xffff) 0")
      case None
      with False ins show ?thesis
        by (simp add: avr_op_analyze.simps [of _ _ _ _ buf] avr_op_analyze.simps [of _ _ _ _ b2])
    next
      case (Some i)
      show ?thesis
      proof (cases "lookahead (od_handler (opcodes ! i))")
        case la: True
        from find_opcode_lookahead_size [OF Some la] have sz: "od_size (opcodes ! i) = 2" .
        have "\<forall>j. int j < len - 2 \<longrightarrow> buf_plus buf 2 j = buf_plus b2 2 j"
          using buf_plus_agree [OF "1.prems", of 2] by simp
        then have "avr_op_analyze regs cyc zero_op (addr + 2) (buf_plus buf 2) (len - 2) ms cpu
            = avr_op_analyze regs cyc zero_op (addr + 2) (buf_plus b2 2) (len - 2) ms cpu"
          using "1.IH" [OF False Some refl refl la False, of "buf_plus b2 2"] sz by simp
        with False Some ins la sz ch show ?thesis
          by (simp add: avr_op_analyze.simps [of _ _ _ _ buf] avr_op_analyze.simps [of _ _ _ _ b2]
              cong: option.case_cong)
      next
        case nla: False
        with False Some ins ch show ?thesis
          by (simp add: avr_op_analyze.simps [of _ _ _ _ buf] avr_op_analyze.simps [of _ _ _ _ b2])
      qed
    qed
  qed
qed

lemma avr_op_analyze_depth:
  "avr_op_analyze regs cyc op addr buf len ms cpu = Some (d, op', cyc', n)
     \<Longrightarrow> 2 * int n \<le> max 0 len"
proof (induction regs cyc op addr buf len ms cpu arbitrary: d op' cyc' n
    rule: avr_op_analyze.induct)
  case (1 regs cyc op addr buf len ms cpu)
  show ?case
  proof (cases "len < 2")
    case True
    with "1.prems" show ?thesis by (simp add: avr_op_analyze.simps [of _ _ _ _ _ len])
  next
    case False
    show ?thesis
    proof (cases "find_opcode opcodes ((shl (byte buf 1) 8 OR byte buf 0) AND 0xffff) 0")
      case None
      with False "1.prems" show ?thesis
        by (simp add: avr_op_analyze.simps [of _ _ _ _ buf])
    next
      case (Some i)
      show ?thesis
      proof (cases "lookahead (od_handler (opcodes ! i))")
        case la: True
        from find_opcode_lookahead_size [OF Some la] have sz: "od_size (opcodes ! i) = 2" .
        from "1.prems" False Some la sz
        obtain nd next_op cyc1 m where
          nested: "avr_op_analyze regs cyc zero_op (addr + 2) (buf_plus buf 2) (len - 2) ms cpu
            = Some (nd, next_op, cyc1, m)" and n: "n = Suc m"
          by (auto simp: avr_op_analyze.simps [of _ _ _ _ buf] split: option.splits prod.splits)
        from "1.IH" [OF False Some refl refl la False, of nd next_op cyc1 m] nested sz
        have "2 * int m \<le> max 0 (len - 2)" by simp
        with n False show ?thesis by simp
      next
        case nla: False
        with False Some "1.prems" have "n = 0"
          by (auto simp: avr_op_analyze.simps [of _ _ _ _ buf] split: option.splits prod.splits)
        then show ?thesis by simp
      qed
    qed
  qed
qed

lemma call_handler_total:
  assumes "\<forall>v. const_by_value ms cpu CPU_CONST_REG v \<noteq> None"
  shows "call_handler h regs op buf len ms cpu nsz \<noteq> None"
proof -
  have nn: "const_by_value ms cpu CPU_CONST_REG v \<noteq> None" for v using assms by blast
  have io: "generic_io_dest a w ms cpu \<noteq> None" for a w
    by (simp add: generic_io_dest_def nn split: option.splits)
  show ?thesis
    by (cases h;
        simp add: call_handler_def inst_cbi_def inst_in_def inst_out_def inst_sbi_def
          inst_sbix_def io Let_def split: option.splits)
qed

lemma avr_op_analyze_total:
  assumes "\<forall>v. const_by_value ms cpu CPU_CONST_REG v \<noteq> None"
  shows "avr_op_analyze regs cyc op addr buf len ms cpu \<noteq> None"
  using assms
proof (induction regs cyc op addr buf len ms cpu rule: avr_op_analyze.induct)
  case (1 regs cyc op addr buf len ms cpu)
  note ct = call_handler_total [OF "1.prems"]
  show ?case
  proof (cases "len < 2")
    case True
    then show ?thesis by (simp add: avr_op_analyze.simps [of _ _ _ _ _ len])
  next
    case False
    show ?thesis
    proof (cases "find_opcode opcodes ((shl (byte buf 1) 8 OR byte buf 0) AND 0xffff) 0")
      case None
      with False show ?thesis by (simp add: avr_op_analyze.simps [of _ _ _ _ buf])
    next
      case (Some i)
      show ?thesis
      proof (cases "lookahead (od_handler (opcodes ! i))")
        case la: True
        from "1.IH" [OF False Some refl refl la False "1.prems"]
        have "avr_op_analyze regs cyc zero_op (addr + word_of_int (od_size (opcodes ! i)))
            (buf_plus buf (od_size (opcodes ! i))) (len - od_size (opcodes ! i)) ms cpu \<noteq> None"
          by simp
        with False Some la show ?thesis
          by (simp add: avr_op_analyze.simps [of _ _ _ _ buf] ct split: option.splits prod.splits)
      next
        case nla: False
        with False Some show ?thesis
          by (simp add: avr_op_analyze.simps [of _ _ _ _ buf] ct split: option.splits prod.splits)
      qed
    qed
  qed
qed

text \<open>
  C4 (amended). A compare-and-skip handler decodes the rest of the buffer, \<open>len - 2\<close>
  bytes; that decode may again be of a compare-and-skip instruction and nest further.
  The depth \<open>n\<close> of nesting is bounded by the length, \<open>2 n \<le> len\<close>, not by one. Every
  decode, the nested ones included, reads only bytes below the length it was given: two
  buffers that agree below \<open>len\<close> give the same result. (The decode returns, provided
  the lookup of the CPU model's constants does.)
\<close>

theorem nested_decode_bounded_by_length:
  assumes "\<forall>i. int i < len \<longrightarrow> b1 i = b2 i"
    and "\<forall>v. const_by_value ms cpu CPU_CONST_REG v \<noteq> None"
  shows "\<exists>d op' cyc' n.
           avr_op_analyze regs cyc op addr b1 len ms cpu = Some (d, op', cyc', n)
         \<and> avr_op_analyze regs cyc op addr b2 len ms cpu = Some (d, op', cyc', n)
         \<and> 2 * int n \<le> max 0 len"
proof -
  have "avr_op_analyze regs cyc op addr b1 len ms cpu \<noteq> None"
    by (rule avr_op_analyze_total [OF assms(2)])
  then obtain x where x: "avr_op_analyze regs cyc op addr b1 len ms cpu = Some x" by blast
  obtain d op' cyc' n where "x = (d, op', cyc', n)" by (cases x)
  with x have r: "avr_op_analyze regs cyc op addr b1 len ms cpu = Some (d, op', cyc', n)"
    by simp
  from avr_op_analyze_buf_agree [OF assms(1)] r
  have "avr_op_analyze regs cyc op addr b2 len ms cpu = Some (d, op', cyc', n)" by simp
  with r avr_op_analyze_depth [OF r] show ?thesis by blast
qed

lemma const_by_value_ATmega8: "const_by_value cpu_models 7 ty v \<noteq> None"
  by (subst const_by_value.simps)
    (simp add: cpu_models_def mk_model_def split: option.splits)

theorem nested_decode_bounded_by_length_witness:
  "\<exists>d op' cyc' n.
     avr_op_analyze (\<lambda>r. 0) cycles0 zero_op 0
       (mkbuf [0x00, 0x10, 0x00, 0x10, 0x00, 0x00]) 6 cpu_models 7 = Some (d, op', cyc', n)
   \<and> avr_op_analyze (\<lambda>r. 0) cycles0 zero_op 0
       (mkbuf [0x00, 0x10, 0x00, 0x10, 0x00, 0x00, 0x0c, 0x94]) 6 cpu_models 7
       = Some (d, op', cyc', n)
   \<and> 2 * int n \<le> max 0 6"
proof -
  have a: "\<forall>i. int i < 6 \<longrightarrow>
      mkbuf [0x00, 0x10, 0x00, 0x10, 0x00, 0x00] i
      = mkbuf [0x00, 0x10, 0x00, 0x10, 0x00, 0x00, 0x0c, 0x94] i"
    by (simp add: mkbuf_def nth_Cons split: nat.splits)
  have b: "\<forall>v. const_by_value cpu_models 7 CPU_CONST_REG v \<noteq> None"
    using const_by_value_ATmega8 by blast
  show ?thesis using nested_decode_bounded_by_length [OF a b] .
qed


lemma find_cpse: "find_opcode opcodes 0x1000 0 = Some 68"
  by (simp add: opcodes_def INST_DECL_def)

lemma find_nop: "find_opcode opcodes 0 0 = Some 6"
  by (simp add: opcodes_def INST_DECL_def)

lemma opcodes_68: "opcodes ! 68 = INST_DECL ''cpse'' H_cpse 0xfc00 0x1000 0 2 T_CJMP"
  by (simp add: opcodes_def)

lemma opcodes_6: "opcodes ! 6 = INST_DECL ''nop'' H_nop 0xffff 0x0000 1 2 T_NOP"
  by (simp add: opcodes_def)

lemma decode_nop:
  assumes "2 \<le> len" and "buf 0 = 0" and "buf (Suc 0) = 0"
  shows "\<exists>op' cyc'. avr_op_analyze regs cyc op addr buf len ms cpu = Some (Some 6, op', cyc', 0)"
  using assms
  by (subst avr_op_analyze.simps)
    (simp add: byte_def shl_def find_nop opcodes_6 INST_DECL_def lookahead_def call_handler_def
      after_handler_def Let_def)

lemma decode_cpse:
  assumes "2 \<le> len" and "buf 0 = 0" and "buf (Suc 0) = 0x10"
    and "avr_op_analyze regs cyc zero_op (addr + 2) (buf_plus buf 2) (len - 2) ms cpu
          = Some (nd, next_op, cyc1, n)"
  shows "\<exists>op' cyc'. avr_op_analyze regs cyc op addr buf len ms cpu = Some (Some 68, op', cyc', Suc n)"
  using assms
  by (subst avr_op_analyze.simps)
    (simp add: byte_def shl_def find_cpse opcodes_68 INST_DECL_def lookahead_def call_handler_def
      after_handler_def Let_def)

text \<open>C4 as stated fails for \<open>CPSE; CPSE; NOP\<close> (bytes \<open>00 10 00 10 00 00\<close>): the
  nested decode of the second \<open>CPSE\<close> makes a nested decode of its own, depth 2.\<close>

theorem cpse_nests_twice_counterexample:
  "map_option (\<lambda>(d, op, cyc, n). n)
     (avr_op_analyze (\<lambda>r. 0) cycles0 zero_op 0
        (mkbuf [0x00, 0x10, 0x00, 0x10, 0x00, 0x00]) 6 cpu_models 7) = Some 2"
proof -
  let ?b = "mkbuf [0x00, 0x10, 0x00, 0x10, 0x00, 0x00]"
  have "\<exists>o3 c3. avr_op_analyze (\<lambda>r. 0) cycles0 zero_op (0 + 2 + 2) (buf_plus (buf_plus ?b 2) 2)
       (6 - 2 - 2) cpu_models 7 = Some (Some 6, o3, c3, 0)"
    by (rule decode_nop) (simp_all add: buf_plus_def mkbuf_def)
  then obtain o3 c3 where l3:
    "avr_op_analyze (\<lambda>r. 0) cycles0 zero_op (0 + 2 + 2) (buf_plus (buf_plus ?b 2) 2) (6 - 2 - 2)
       cpu_models 7 = Some (Some 6, o3, c3, 0)"
    by blast
  have "\<exists>o2 c2. avr_op_analyze (\<lambda>r. 0) cycles0 zero_op (0 + 2) (buf_plus ?b 2) (6 - 2)
       cpu_models 7 = Some (Some 68, o2, c2, Suc 0)"
    by (rule decode_cpse [OF _ _ _ l3]) (simp_all add: buf_plus_def mkbuf_def)
  then obtain o2 c2 where l2:
    "avr_op_analyze (\<lambda>r. 0) cycles0 zero_op (0 + 2) (buf_plus ?b 2) (6 - 2) cpu_models 7
       = Some (Some 68, o2, c2, Suc 0)"
    by blast
  have "\<exists>o1 c1. avr_op_analyze (\<lambda>r. 0) cycles0 zero_op 0 ?b 6 cpu_models 7
       = Some (Some 68, o1, c1, Suc (Suc 0))"
    by (rule decode_cpse [OF _ _ _ l2]) (simp_all add: mkbuf_def)
  then show ?thesis by auto
qed


subsection \<open>What a decode depends on\<close>








text \<open>The search of \<open>get_cpu_model\<close> in a registry reached from the initial one: the
  entry found depends on the name only, and the registry after the call is again such a
  registry, with the parent pointer of the entry found resolved.\<close>

lemma model_names:
  "map (\<lambda>m. map lower_char (model m)) cpu_models
   = [''atmega640'', ''atxmega128a4u'', ''atmega1280'', ''atmega1281'', ''atmega2560'',
      ''atmega2561'', ''atmega88'', ''atmega8'']"
  by (simp add: cpu_models_def mk_model_def lower_char_def)

lemma model_names_distinct: "distinct (map (\<lambda>m. map lower_char (model m)) cpu_models)"
  unfolding model_names by simp

lemma model_parents:
  "map inherit cpu_models
   = [None, None, Some ''ATmega640'', Some ''ATmega640'', Some ''ATmega640'',
      Some ''ATmega640'', Some ''ATmega8'', None]"
  by (simp add: cpu_models_def mk_model_def)

lemma model_loop_ATmega8: "model_loop cpu_models ''ATmega8'' 0 = 7"
  by (simp add: model_loop.simps cpu_models_def mk_model_def str_casecmp_eq_def lower_char_def)

lemma inherit_nth:
  assumes "i < 8"
  shows "inherit (cpu_models ! i)
     = [None, None, Some ''ATmega640'', Some ''ATmega640'', Some ''ATmega640'',
        Some ''ATmega640'', Some ''ATmega8'', None] ! i"
  using assms nth_map [of i cpu_models inherit] by (simp add: model_parents length_cpu_models)

lemma less_8_cases:
  "i < (8::nat) \<Longrightarrow> i = 0 \<or> i = 1 \<or> i = 2 \<or> i = 3 \<or> i = 4 \<or> i = 5 \<or> i = 6 \<or> i = 7"
  by arith

lemma parents_are_roots:
  assumes "i < 8" and "inherit (cpu_models ! i) = Some nm"
  shows "model_loop cpu_models nm 0 < 8
       \<and> inherit (cpu_models ! model_loop cpu_models nm 0) = None"
proof -
  from assms have "nm = ''ATmega640'' \<or> nm = ''ATmega8''"
    unfolding inherit_nth [OF assms(1)]
    using less_8_cases [OF assms(1)] by auto
  then show ?thesis
    using inherit_nth [of 0] inherit_nth [of 7]
    by (auto simp: model_loop_ATmega640 model_loop_ATmega8)
qed

lemma model_loop_names:
  assumes "length ms = length ms'"
    and "\<forall>j < length ms. model (ms ! j) = model (ms' ! j)"
  shows "model_loop ms name i = model_loop ms' name i"
  using assms
proof (induction ms name i rule: model_loop.induct)
  case (1 ms name i)
  show ?case
  proof (cases "i < length ms - 1")
    case True
    then have m: "model (ms ! i) = model (ms' ! i)" using "1.prems"(2) by simp
    show ?thesis
    proof (cases "str_casecmp_eq name (model (ms ! i))")
      case t: True
      with True m "1.prems"(1) show ?thesis
        by (simp add: model_loop.simps [of _ name i])
    next
      case f: False
      from "1.IH" [OF True f "1.prems"]
      have "model_loop ms name (i + 1) = model_loop ms' name (i + 1)" .
      with True f m "1.prems"(1) show ?thesis
        by (simp add: model_loop.simps [of _ name i])
    qed
  next
    case False
    with "1.prems"(1) show ?thesis
      by (simp add: model_loop.simps [of _ name i])
  qed
qed

lemma model_loop_bound:
  "i \<le> length ms - 1 \<Longrightarrow> model_loop ms name i \<le> length ms - 1"
proof (induction ms name i rule: model_loop.induct)
  case (1 ms name i)
  show ?case
  proof (cases "i < length ms - 1")
    case True
    show ?thesis
    proof (cases "str_casecmp_eq name (model (ms ! i))")
      case t: True
      with True show ?thesis by (simp add: model_loop.simps [of ms name i])
    next
      case f: False
      from True have "i + 1 \<le> length ms - 1" by simp
      from "1.IH" [OF True f this] True f show ?thesis
        by (simp add: model_loop.simps [of ms name i])
    qed
  next
    case False
    then have "model_loop ms name i = i" by (subst model_loop.simps) simp
    with "1.prems" show ?thesis by simp
  qed
qed

lemma model_loop_finds:
  assumes "distinct (map (\<lambda>m. map lower_char (model m)) ms)"
    and "c < length ms" and "str_casecmp_eq name (model (ms ! c))" and "i \<le> c"
  shows "model_loop ms name i = c"
  using assms
proof (induction ms name i rule: model_loop.induct)
  case (1 ms name i)
  show ?case
  proof (cases "i < length ms - 1")
    case True
    show ?thesis
    proof (cases "str_casecmp_eq name (model (ms ! i))")
      case t: True
      from True have il: "i < length ms" by simp
      from t "1.prems"(3)
      have "map (\<lambda>m. map lower_char (model m)) ms ! i
          = map (\<lambda>m. map lower_char (model m)) ms ! c"
        using il "1.prems"(2) by (simp add: str_casecmp_eq_def)
      with "1.prems"(1) il "1.prems"(2) have "i = c"
        using nth_eq_iff_index_eq [of "map (\<lambda>m. map lower_char (model m)) ms" i c]
        by simp
      moreover from True t have "model_loop ms name i = i"
        by (subst model_loop.simps) simp
      ultimately show ?thesis by simp
    next
      case f: False
      with "1.prems"(3) have "i \<noteq> c" by auto
      with "1.prems"(4) have "i + 1 \<le> c" by simp
      from "1.IH" [OF True f "1.prems"(1-3) this] True f show ?thesis
        by (simp add: model_loop.simps [of ms name i])
    qed
  next
    case False
    with "1.prems"(2,4) have "i = c" by simp
    moreover from False have "model_loop ms name i = i" by (subst model_loop.simps) simp
    ultimately show ?thesis by simp
  qed
qed

lemma registry_inv_ok: "registry_inv r \<Longrightarrow> registry_ok r"
  by (simp add: registry_inv_def)

lemma registry_inv_loop:
  assumes "registry_inv r"
  shows "model_loop (models r) name 0 = model_loop cpu_models name 0"
    and "model_loop cpu_models name 0 < 8"
proof -
  note f = registry_ok_fields [OF registry_inv_ok [OF assms]]
  show "model_loop (models r) name 0 = model_loop cpu_models name 0"
    by (rule model_loop_names) (simp_all add: f length_cpu_models)
  from model_loop_bound [of 0 cpu_models name]
  show "model_loop cpu_models name 0 < 8" by (simp add: length_cpu_models)
qed

lemma registry_inv_hit:
  assumes "registry_inv r" and "cached r = Some c"
    and "str_casecmp_eq name (model (models r ! c))"
  shows "model_loop cpu_models name 0 = c"
proof -
  from assms(1,2) have c: "c < 8"
    by (simp add: registry_inv_def registry_ok_def length_cpu_models)
  note f = registry_ok_fields [OF registry_inv_ok [OF assms(1)]]
  from assms(3) have "str_casecmp_eq name (model (cpu_models ! c))"
    by (simp add: f c)
  with c show ?thesis
    by (intro model_loop_finds [OF model_names_distinct]) (simp_all add: length_cpu_models)
qed

lemma registry_inv_cached:
  assumes "registry_inv r" and "c < 8"
    and "inherit (cpu_models ! c) \<noteq> None \<longrightarrow> inherit_cpu_p (models r ! c) \<noteq> None"
  shows "registry_inv (r\<lparr>cached := Some c\<rparr>)"
  using assms by (simp add: registry_inv_def registry_ok_def length_cpu_models)

lemma registry_inv_resolve:
  assumes "registry_inv r" and "idx < 8" and "inherit (cpu_models ! idx) = Some parent"
    and "models r' = (models r)[idx := (models r ! idx)
           \<lparr>inherit_cpu_p := Some (model_loop cpu_models parent 0)\<rparr>]"
    and "cached r' = Some idx"
  shows "registry_inv r'"
proof -
  note f = registry_ok_fields [OF registry_inv_ok [OF assms(1)]]
  from assms(1) have eq: "map (\<lambda>m. m\<lparr>inherit_cpu_p := None\<rparr>) (models r) = cpu_models"
    by (simp add: registry_inv_def registry_ok_def)
  have nth: "(models r ! idx)\<lparr>inherit_cpu_p := None\<rparr> = cpu_models ! idx"
    using nth_map [of idx "models r" "\<lambda>m. m\<lparr>inherit_cpu_p := None\<rparr>"] eq f(1) assms(2)
    by simp
  have "map (\<lambda>m. m\<lparr>inherit_cpu_p := None\<rparr>) (models r') = cpu_models"
    by (simp add: assms(4) map_update eq nth)
  then have ok: "registry_ok r'"
    using assms(2,5) by (simp add: registry_ok_def length_cpu_models)
  have ptr: "case inherit_cpu_p (models r' ! i) of
             None \<Rightarrow> True
           | Some p \<Rightarrow> (case inherit (cpu_models ! i) of
                          Some nm \<Rightarrow> p = model_loop cpu_models nm 0
                        | None \<Rightarrow> False)" if "i < 8" for i
  proof (cases "i = idx")
    case True
    then show ?thesis using assms(2,3) f(1) by (simp add: assms(4))
  next
    case False
    then have "models r' ! i = models r ! i" by (simp add: assms(4))
    with assms(1) that show ?thesis
      by (simp add: registry_inv_def length_cpu_models)
  qed
  have "inherit_cpu_p (models r' ! idx) \<noteq> None"
    using assms(2) f(1) by (simp add: assms(4))
  with ok ptr assms(5) show ?thesis
    by (simp add: registry_inv_def length_cpu_models)
qed

lemma get_cpu_model_root:
  assumes "registry_inv r"
    and "inherit (cpu_models ! model_loop cpu_models name 0) = None"
  shows "get_cpu_model name r
     = Some (Some (model_loop cpu_models name 0),
             r\<lparr>cached := Some (model_loop cpu_models name 0)\<rparr>)"
proof -
  define idx where "idx = model_loop cpu_models name 0"
  note f = registry_ok_fields [OF registry_inv_ok [OF assms(1)]]
  note l = registry_inv_loop [OF assms(1), of name, folded idx_def]
  show ?thesis
  proof (cases "case cached r of Some c \<Rightarrow> str_casecmp_eq name (model (models r ! c))
                | None \<Rightarrow> False")
    case True
    then obtain c where c: "cached r = Some c"
      and m: "str_casecmp_eq name (model (models r ! c))"
      by (cases "cached r") auto
    from registry_inv_hit [OF assms(1) c m] have "idx = c" by (simp add: idx_def)
    with c have "r\<lparr>cached := Some idx\<rparr> = r" by simp
    with True c \<open>idx = c\<close> show ?thesis
      unfolding idx_def [symmetric]
      by (subst get_cpu_model.simps) simp
  next
    case False
    from assms(2) have "inherit (models r ! idx) = None"
      by (simp add: f l idx_def [symmetric])
    with False show ?thesis
      unfolding idx_def [symmetric]
      by (subst get_cpu_model.simps) (simp add: l)
  qed
qed

lemma get_cpu_model_inv:
  assumes "registry_inv r"
  shows "\<exists>r'. get_cpu_model name r = Some (Some (model_loop cpu_models name 0), r')
            \<and> registry_inv r' \<and> cached r' = Some (model_loop cpu_models name 0)"
proof -
  define idx where "idx = model_loop cpu_models name 0"
  note f = registry_ok_fields [OF registry_inv_ok [OF assms(1)]]
  note l = registry_inv_loop [OF assms(1), of name, folded idx_def]
  show ?thesis
    unfolding idx_def [symmetric]
  proof (cases "inherit (cpu_models ! idx)")
    case None
    from get_cpu_model_root [OF assms, of name, folded idx_def, OF None]
    have "get_cpu_model name r = Some (Some idx, r\<lparr>cached := Some idx\<rparr>)" .
    moreover have "registry_inv (r\<lparr>cached := Some idx\<rparr>)"
      by (rule registry_inv_cached [OF assms l(2)]) (simp add: None)
    ultimately show "\<exists>r'. get_cpu_model name r = Some (Some idx, r')
            \<and> registry_inv r' \<and> cached r' = Some idx"
      by simp
  next
    case (Some parent)
    then have ih: "inherit (models r ! idx) = Some parent" by (simp add: f l)
    show "\<exists>r'. get_cpu_model name r = Some (Some idx, r')
            \<and> registry_inv r' \<and> cached r' = Some idx"
    proof (cases "case cached r of Some c \<Rightarrow> str_casecmp_eq name (model (models r ! c))
                  | None \<Rightarrow> False")
      case True
      then obtain c where c: "cached r = Some c"
        and m: "str_casecmp_eq name (model (models r ! c))"
        by (cases "cached r") auto
      from registry_inv_hit [OF assms(1) c m] have "idx = c" by (simp add: idx_def)
      with True c have "get_cpu_model name r = Some (Some idx, r)"
        by (subst get_cpu_model.simps) simp
      with assms c \<open>idx = c\<close> show ?thesis by simp
    next
      case False
      show ?thesis
      proof (cases "inherit_cpu_p (models r ! idx)")
        case p: (Some q)
        with False ih have "get_cpu_model name r = Some (Some idx, r\<lparr>cached := Some idx\<rparr>)"
          by (subst get_cpu_model.simps) (simp add: l)
        moreover have "registry_inv (r\<lparr>cached := Some idx\<rparr>)"
          by (rule registry_inv_cached [OF assms l(2)]) (simp add: p)
        ultimately show ?thesis by simp
      next
        case p: None
        define pidx where "pidx = model_loop cpu_models parent 0"
        from parents_are_roots [OF l(2) Some]
        have root: "inherit (cpu_models ! pidx) = None" by (simp add: pidx_def)
        from get_cpu_model_root [OF assms, of parent, folded pidx_def, OF root]
        have rec: "get_cpu_model parent r = Some (Some pidx, r\<lparr>cached := Some pidx\<rparr>)" .
        define r' where "r' = r\<lparr>models := (models r)[idx := (models r ! idx)
             \<lparr>inherit_cpu_p := Some pidx\<rparr>], cached := Some idx\<rparr>"
        from False ih p rec have "get_cpu_model name r = Some (Some idx, r')"
          by (subst get_cpu_model.simps) (simp add: l r'_def)
        moreover have "registry_inv r'"
          by (rule registry_inv_resolve [OF assms l(2) Some])
            (simp_all add: r'_def pidx_def)
        moreover have "cached r' = Some idx" by (simp add: r'_def)
        ultimately show ?thesis by simp
      qed
    qed
  qed
qed

lemma cpu_models_unresolved:
  assumes "i < 8"
  shows "inherit_cpu_p (cpu_models ! i) = None"
proof -
  have "\<forall>m \<in> set cpu_models. inherit_cpu_p m = None"
    by (simp add: cpu_models_def mk_model_def)
  moreover from assms have "cpu_models ! i \<in> set cpu_models"
    by (simp add: length_cpu_models)
  ultimately show ?thesis by blast
qed

lemma cpu_models_stripped:
  "map (\<lambda>m. m\<lparr>inherit_cpu_p := None\<rparr>) cpu_models = cpu_models"
  by (simp add: cpu_models_def mk_model_def)

lemma registry_inv_registry0: "registry_inv registry0"
  by (simp add: registry_inv_def registry_ok_def registry0_def length_cpu_models
      cpu_models_unresolved cpu_models_stripped)

lemma registry_inv_entry:
  assumes "registry_inv r" and "cached r = Some idx"
  shows "idx < 8"
    and "models r ! idx = (cpu_models ! idx)
           \<lparr>inherit_cpu_p := map_option (\<lambda>nm. model_loop cpu_models nm 0)
                               (inherit (cpu_models ! idx))\<rparr>"
proof -
  from assms show i: "idx < 8"
    by (simp add: registry_inv_def registry_ok_def length_cpu_models)
  note f = registry_ok_fields [OF registry_inv_ok [OF assms(1)]]
  from assms(1) have eq: "map (\<lambda>m. m\<lparr>inherit_cpu_p := None\<rparr>) (models r) = cpu_models"
    by (simp add: registry_inv_def registry_ok_def)
  have nth: "(models r ! idx)\<lparr>inherit_cpu_p := None\<rparr> = cpu_models ! idx"
    using nth_map [of idx "models r" "\<lambda>m. m\<lparr>inherit_cpu_p := None\<rparr>"] eq f(1) i
    by simp
  from assms(1) i have ptr: "case inherit_cpu_p (models r ! idx) of
             None \<Rightarrow> True
           | Some p \<Rightarrow> (case inherit (cpu_models ! idx) of
                          Some nm \<Rightarrow> p = model_loop cpu_models nm 0
                        | None \<Rightarrow> False)"
    by (simp add: registry_inv_def length_cpu_models)
  from assms have c: "inherit (cpu_models ! idx) \<noteq> None
      \<longrightarrow> inherit_cpu_p (models r ! idx) \<noteq> None"
    by (simp add: registry_inv_def)
  from ptr c have "inherit_cpu_p (models r ! idx)
      = map_option (\<lambda>nm. model_loop cpu_models nm 0) (inherit (cpu_models ! idx))"
    by (cases "inherit_cpu_p (models r ! idx)"; cases "inherit (cpu_models ! idx)") auto
  then have "(cpu_models ! idx)
           \<lparr>inherit_cpu_p := map_option (\<lambda>nm. model_loop cpu_models nm 0)
                               (inherit (cpu_models ! idx))\<rparr>
      = ((models r ! idx)\<lparr>inherit_cpu_p := None\<rparr>)
           \<lparr>inherit_cpu_p := inherit_cpu_p (models r ! idx)\<rparr>"
    by (simp add: nth)
  then show "models r ! idx = (cpu_models ! idx)
           \<lparr>inherit_cpu_p := map_option (\<lambda>nm. model_loop cpu_models nm 0)
                               (inherit (cpu_models ! idx))\<rparr>"
    by simp
qed

lemma registry_inv_root:
  assumes "registry_inv r" and "i < 8" and "inherit (cpu_models ! i) = None"
  shows "models r ! i = cpu_models ! i"
proof -
  note f = registry_ok_fields [OF registry_inv_ok [OF assms(1)]]
  from assms(1) have eq: "map (\<lambda>m. m\<lparr>inherit_cpu_p := None\<rparr>) (models r) = cpu_models"
    by (simp add: registry_inv_def registry_ok_def)
  have nth: "(models r ! i)\<lparr>inherit_cpu_p := None\<rparr> = cpu_models ! i"
    using nth_map [of i "models r" "\<lambda>m. m\<lparr>inherit_cpu_p := None\<rparr>"] eq f(1) assms(2)
    by simp
  from assms have "inherit_cpu_p (models r ! i) = None"
    by (cases "inherit_cpu_p (models r ! i)")
      (auto simp: registry_inv_def length_cpu_models split: option.splits)
  then have "(models r ! i)\<lparr>inherit_cpu_p := None\<rparr> = models r ! i" by simp
  with nth show ?thesis by simp
qed







subsection \<open>The custom operations\<close>








subsection \<open>The page-erase operation\<close>

text \<open>
  The loop of \<open>avr_custom_spm_page_erase\<close> in closed form, then the addresses it
  writes as natural numbers.
\<close>

lemma erase_loop_mem:
  "erase_loop addr m n i esil =
     esil\<lparr>es_mem := (\<lambda>a. if \<exists>j. i \<le> j \<and> j < n \<and> a = (addr + of_nat j) AND ucast m
                        then 0xff else es_mem esil a)\<rparr>"
proof (induction addr m n i esil rule: erase_loop.induct)
  case (1 addr m n i esil)
  show ?case
  proof (cases "i < n")
    case False
    then have "(\<lambda>a. if \<exists>j. i \<le> j \<and> j < n \<and> a = (addr + of_nat j) AND ucast m
                  then 0xff else es_mem esil a) = es_mem esil"
      by (auto simp: fun_eq_iff)
    with False show ?thesis by (subst erase_loop.simps) simp
  next
    case True
    let ?ai = "(addr + of_nat i) AND ucast m"
    have split: "(\<exists>j. i \<le> j \<and> j < n \<and> a = (addr + of_nat j) AND ucast m)
        \<longleftrightarrow> a = ?ai \<or> (\<exists>j. Suc i \<le> j \<and> j < n \<and> a = (addr + of_nat j) AND ucast m)"
      for a
      using True by (metis Suc_leI le_eq_less_or_eq Suc_le_lessD nat_less_le)
    have f: "(\<lambda>a. if \<exists>j. Suc i \<le> j \<and> j < n \<and> a = (addr + of_nat j) AND ucast m
                 then 0xff else es_mem (esil_mem_write esil ?ai 0xff) a)
        = (\<lambda>a. if \<exists>j. i \<le> j \<and> j < n \<and> a = (addr + of_nat j) AND ucast m
                 then 0xff else es_mem esil a)"
    proof (rule ext)
      fix a
      show "(if \<exists>j. Suc i \<le> j \<and> j < n \<and> a = (addr + of_nat j) AND ucast m
               then 0xff else es_mem (esil_mem_write esil ?ai 0xff) a)
          = (if \<exists>j. i \<le> j \<and> j < n \<and> a = (addr + of_nat j) AND ucast m
               then 0xff else es_mem esil a)"
        unfolding split [of a] by (auto simp: esil_mem_write_def)
    qed
    have "erase_loop addr m n i esil
        = erase_loop addr m n (Suc i) (esil_mem_write esil ?ai 0xff)"
      using True by (subst erase_loop.simps) simp
    also have "\<dots> = (esil_mem_write esil ?ai 0xff)
        \<lparr>es_mem := (\<lambda>a. if \<exists>j. Suc i \<le> j \<and> j < n \<and> a = (addr + of_nat j) AND ucast m
                          then 0xff else es_mem (esil_mem_write esil ?ai 0xff) a)\<rparr>"
      by (rule "1.IH" [OF True])
    also have "\<dots> = esil
        \<lparr>es_mem := (\<lambda>a. if \<exists>j. i \<le> j \<and> j < n \<and> a = (addr + of_nat j) AND ucast m
                          then 0xff else es_mem esil a)\<rparr>"
      unfolding f by (simp add: esil_mem_write_def)
    finally show ?thesis .
  qed
qed

lemma MASK_eq_mask: "k \<le> 32 \<Longrightarrow> MASK k = mask k"
  by (auto simp: MASK_def push_bit_minus_one_eq_not_mask mask_eq_exp_minus_1)

lemma page_erase_result:
  assumes "es_valid esil" and "es_stack esil = Some A # rest"
    and "get_cpu_model (es_cpu esil) reg = Some (Some cpu, reg1)"
    and "const_by_name (models reg1) cpu CPU_CONST_PARAM ''page_size'' = Some (c, lg)"
    and "k = unat (const_get_value c)" and "k < 32"
  shows "avr_custom_spm_page_erase reg esil =
           Some (True,
             esil\<lparr>es_stack := rest,
                  es_mem := (\<lambda>a. if \<exists>j < 2 ^ k.
                                     a = ((A AND ucast (NOT (MASK k))) + of_nat j)
                                         AND ucast (CPU_PC_MASK (models reg1 ! cpu))
                                 then 0xff else es_mem esil a)\<rparr>,
             reg1\<lparr>errlog := errlog reg1 @ lg\<rparr>)"
proof -
  have "unat (const_get_value c) < 2 ^ 32"
    using unsigned_less [of "const_get_value c", where 'a = nat] by simp
  then have "unat (const_get_value c) < 2 ^ 64" by simp
  then have u: "unat (ucast (const_get_value c) :: ut64) = k"
    using assms(5) by (simp add: unsigned_ucast_eq take_bit_nat_eq_self)
  have "(2 :: nat) ^ k < 2 ^ 64"
    by (rule power_strict_increasing) (use assms(6) in simp_all)
  then have p: "unat (push_bit k (1 :: ut64)) = 2 ^ k"
    unfolding unsigned_push_bit_eq using assms(6) by (simp add: take_bit_nat_eq_self)
  show ?thesis
    using assms(1-4)
    by (simp add: avr_custom_spm_page_erase_def esil_pop_argument_def Let_def u p [simplified]
        erase_loop_mem cong: if_cong)
qed

text \<open>arithmetic reading\<close>

lemma MASK_and_unat:
  fixes x :: ut64
  assumes "p \<le> 32"
  shows "unat (x AND ucast (MASK p)) = unat x mod 2 ^ p"
proof -
  have "ucast (MASK p) = (mask p :: ut64)"
    using assms by (simp add: MASK_eq_mask ucast_mask_eq)
  then have "unat (x AND ucast (MASK p)) = unat (take_bit p x)"
    by (simp only: take_bit_eq_mask)
  also have "\<dots> = take_bit p (unat x)" by (rule unsigned_take_bit_eq)
  also have "\<dots> = unat x mod 2 ^ p" by (rule take_bit_eq_mod)
  finally show ?thesis .
qed

lemma page_base_unat:
  fixes A :: ut64
  assumes "k < 32"
  shows "unat (A AND ucast (NOT (MASK k))) = unat A mod 2 ^ 32 div 2 ^ k * 2 ^ k"
proof -
  have m: "MASK k = mask k" using assms by (simp add: MASK_eq_mask)
  have "A AND ucast (NOT (mask k :: ut32)) = push_bit k (take_bit (32 - k) (drop_bit k A))"
    by (rule bit_word_eqI) (use assms in \<open>auto simp: bit_simps\<close>)
  then have "unat (A AND ucast (NOT (MASK k)))
      = unat (push_bit k (take_bit (32 - k) (drop_bit k A)))"
    by (simp add: m)
  also have "\<dots> = take_bit 64 (push_bit k (take_bit (32 - k) (drop_bit k (unat A))))"
    by (simp add: unsigned_push_bit_eq unsigned_take_bit_eq unat_drop_bit_eq)
  also have "\<dots> = push_bit k (take_bit (32 - k) (drop_bit k (unat A)))"
  proof (rule take_bit_nat_eq_self)
    have "take_bit (32 - k) (drop_bit k (unat A)) < 2 ^ (32 - k)" by simp
    then have "push_bit k (take_bit (32 - k) (drop_bit k (unat A))) < 2 ^ (32 - k) * 2 ^ k"
      by (simp add: push_bit_eq_mult)
    also have "\<dots> = 2 ^ 32" using assms by (simp flip: power_add)
    finally show "push_bit k (take_bit (32 - k) (drop_bit k (unat A))) < 2 ^ 64" by simp
  qed
  also have "\<dots> = unat A mod 2 ^ 32 div 2 ^ k * 2 ^ k"
  proof -
    have "unat A div 2 ^ k mod 2 ^ (32 - k) = unat A mod 2 ^ 32 div 2 ^ k"
      using assms
      by (metis add_diff_inverse_nat div_exp_mod_exp_eq less_imp_le_nat not_less)
    then show ?thesis
      by (simp add: push_bit_eq_mult take_bit_eq_mod drop_bit_eq_div)
  qed
  finally show ?thesis .
qed

lemma written_arith:
  fixes A a :: ut64
  assumes "k < 32" and "p \<le> 32"
  shows "(\<exists>j < 2 ^ k. a = ((A AND ucast (NOT (MASK k))) + of_nat j) AND ucast (MASK p))
         \<longleftrightarrow> (\<exists>j < 2 ^ k. unat a = (unat A mod 2 ^ 32 div 2 ^ k * 2 ^ k + j) mod 2 ^ p)"
proof -
  let ?B = "A AND ucast (NOT (MASK k))"
  have base: "unat ?B = unat A mod 2 ^ 32 div 2 ^ k * 2 ^ k"
    by (rule page_base_unat [OF assms(1)])
  have blt: "unat ?B < 2 ^ 32"
  proof -
    have "unat A mod 2 ^ 32 div 2 ^ k * 2 ^ k \<le> unat A mod 2 ^ 32" by simp
    also have "\<dots> < 2 ^ 32" by simp
    finally show ?thesis using base by simp
  qed
  have step: "unat ((?B + of_nat j) AND ucast (MASK p))
      = (unat A mod 2 ^ 32 div 2 ^ k * 2 ^ k + j) mod 2 ^ p" if "j < 2 ^ k" for j
  proof -
    have "(2 :: nat) ^ k < 2 ^ 32" by (rule power_strict_increasing) (use assms(1) in simp_all)
    with that have j: "j < 2 ^ 32" by simp
    then have uj: "unat (of_nat j :: ut64) = j" by (simp add: unat_of_nat)
    have "unat ?B + unat (of_nat j :: ut64) < 2 ^ LENGTH(64)" using blt j uj by simp
    from unat_add_lem [THEN iffD1, OF this]
    have "unat (?B + of_nat j) = unat ?B + j" unfolding uj .
    then show ?thesis by (simp add: MASK_and_unat [OF assms(2)] base)
  qed
  show ?thesis
  proof
    assume "\<exists>j < 2 ^ k. a = (?B + of_nat j) AND ucast (MASK p)"
    then obtain j where "j < 2 ^ k" and "a = (?B + of_nat j) AND ucast (MASK p)" by blast
    with step [of j] show "\<exists>j < 2 ^ k. unat a = (unat A mod 2 ^ 32 div 2 ^ k * 2 ^ k + j) mod 2 ^ p"
      by auto
  next
    assume "\<exists>j < 2 ^ k. unat a = (unat A mod 2 ^ 32 div 2 ^ k * 2 ^ k + j) mod 2 ^ p"
    then obtain j where j: "j < 2 ^ k"
      and "unat a = (unat A mod 2 ^ 32 div 2 ^ k * 2 ^ k + j) mod 2 ^ p" by blast
    with step [of j] have "unat a = unat ((?B + of_nat j) AND ucast (MASK p))" by simp
    then have "a = (?B + of_nat j) AND ucast (MASK p)" by (simp add: word_unat_eq_iff)
    with j show "\<exists>j < 2 ^ k. a = (?B + of_nat j) AND ucast (MASK p)" by blast
  qed
qed

lemma same_page_arith:
  fixes x y :: nat
  assumes "x < 2 ^ p" and "k \<le> p" and "p \<le> 32"
  shows "(\<exists>j < 2 ^ k. y = (x mod 2 ^ 32 div 2 ^ k * 2 ^ k + j) mod 2 ^ p)
         \<longleftrightarrow> y div 2 ^ k = x div 2 ^ k"
proof -
  have "(2 :: nat) ^ p \<le> 2 ^ 32" using assms(3) by (intro power_increasing) simp_all
  with assms(1) have x32: "x mod 2 ^ 32 = x" by simp
  obtain q where q: "p = k + q" using assms(2) by (metis le_iff_add)
  have "x div 2 ^ k < 2 ^ q"
    using assms(1) by (simp add: q power_add less_mult_imp_div_less mult.commute)
  then have "x div 2 ^ k + 1 \<le> 2 ^ q" by simp
  then have "(x div 2 ^ k + 1) * 2 ^ k \<le> 2 ^ q * 2 ^ k" by (rule mult_le_mono1)
  then have top: "x div 2 ^ k * 2 ^ k + 2 ^ k \<le> 2 ^ p" by (simp add: q power_add mult.commute)
  have modp: "(x div 2 ^ k * 2 ^ k + j) mod 2 ^ p = x div 2 ^ k * 2 ^ k + j" if "j < 2 ^ k" for j
    using that top by simp
  show ?thesis
  proof
    assume "\<exists>j < 2 ^ k. y = (x mod 2 ^ 32 div 2 ^ k * 2 ^ k + j) mod 2 ^ p"
    then obtain j where "j < 2 ^ k" and "y = x div 2 ^ k * 2 ^ k + j"
      using modp x32 by auto
    then show "y div 2 ^ k = x div 2 ^ k" by simp
  next
    assume e: "y div 2 ^ k = x div 2 ^ k"
    have "y = y div 2 ^ k * 2 ^ k + y mod 2 ^ k" by (rule div_mult_mod_eq [symmetric])
    with e have "y = x div 2 ^ k * 2 ^ k + y mod 2 ^ k" by simp
    moreover have "y mod 2 ^ k < 2 ^ k" by simp
    ultimately show "\<exists>j < 2 ^ k. y = (x mod 2 ^ 32 div 2 ^ k * 2 ^ k + j) mod 2 ^ p"
      using modp [of "y mod 2 ^ k"] x32 by metis
  qed
qed

lemma page_erase_arith:
  assumes "es_valid esil" and "es_stack esil = Some A # rest"
    and "get_cpu_model (es_cpu esil) reg = Some (Some cpu, reg1)"
    and "const_by_name (models reg1) cpu CPU_CONST_PARAM ''page_size'' = Some (c, lg)"
    and "k = unat (const_get_value c)" and "k < 32"
    and "p = nat (pc (models reg1 ! cpu))" and "p \<le> 32"
  shows "\<exists>esil'.
           avr_custom_spm_page_erase reg esil
             = Some (True, esil', reg1\<lparr>errlog := errlog reg1 @ lg\<rparr>)
         \<and> es_stack esil' = rest \<and> es_regs esil' = es_regs esil
         \<and> (\<forall>a. es_mem esil' a =
                  (if \<exists>j < 2 ^ k. unat a = (unat A mod 2 ^ 32 div 2 ^ k * 2 ^ k + j) mod 2 ^ p
                   then 0xff else es_mem esil a))
         \<and> (unat A < 2 ^ p \<and> k \<le> p \<longrightarrow>
              (\<forall>a. es_mem esil' a =
                  (if unat a div 2 ^ k = unat A div 2 ^ k then 0xff else es_mem esil a)))"
proof -
  have m: "CPU_PC_MASK (models reg1 ! cpu) = MASK p"
    by (simp add: CPU_PC_MASK_def assms(7))
  note w = written_arith [OF assms(6) assms(8), where A = A]
  let ?e = "esil\<lparr>es_stack := rest,
      es_mem := (\<lambda>a. if \<exists>j < 2 ^ k. unat a = (unat A mod 2 ^ 32 div 2 ^ k * 2 ^ k + j) mod 2 ^ p
                      then 0xff else es_mem esil a)\<rparr>"
  have r: "avr_custom_spm_page_erase reg esil
      = Some (True, ?e, reg1\<lparr>errlog := errlog reg1 @ lg\<rparr>)"
    unfolding page_erase_result [OF assms(1-6)] m w ..
  have s: "unat A < 2 ^ p \<and> k \<le> p \<longrightarrow>
      (\<forall>a. es_mem ?e a = (if unat a div 2 ^ k = unat A div 2 ^ k then 0xff else es_mem esil a))"
  proof (intro impI allI)
    fix a :: ut64
    assume "unat A < 2 ^ p \<and> k \<le> p"
    then have "(\<exists>j < 2 ^ k. unat a = (unat A mod 2 ^ 32 div 2 ^ k * 2 ^ k + j) mod 2 ^ p)
        \<longleftrightarrow> unat a div 2 ^ k = unat A div 2 ^ k"
      using same_page_arith [of "unat A" p k "unat a"] assms(8) by blast
    then show "es_mem ?e a
        = (if unat a div 2 ^ k = unat A div 2 ^ k then 0xff else es_mem esil a)"
      by simp
  qed
  show ?thesis
    by (rule exI [of _ ?e]) (use r s in simp)
qed

lemma get_cpu_model_ATmega8:
  "get_cpu_model ''ATmega8'' registry0 = Some (Some 7, registry0\<lparr>cached := Some 7\<rparr>)"
  by (subst get_cpu_model.simps)
    (simp add: registry0_def model_loop.simps cpu_models_def mk_model_def
      str_casecmp_eq_def lower_char_def)

lemma page_size_ATmega8:
  "const_by_name cpu_models 7 CPU_CONST_PARAM ''page_size''
     = Some (Some (mk_const ''page_size'' CPU_CONST_PARAM 5 1), [])"
  by (subst const_by_name.simps)
    (simp add: cpu_models_def mk_model_def cpu_reg_common_def cpu_memsize_common_def
      cpu_pagesize_5_bits_def mk_const_def CPU_CONST_PARAM_def CPU_CONST_NONE_def
      CPU_CONST_REG_def)

lemma page_size_value: "unat (const_get_value (Some (mk_const ''page_size'' CPU_CONST_PARAM 5 1))) = 5"
  by (simp add: const_get_value_def mk_const_def MASK_def mask_eq_exp_minus_1)

lemma pc_ATmega8: "nat (pc (cpu_models ! 7)) = 13"
  by (simp add: cpu_models_def mk_model_def)

lemma registry_ATmega8:
  "models (registry0\<lparr>cached := Some 7\<rparr>) = cpu_models"
  "errlog (registry0\<lparr>cached := Some 7\<rparr>) = []"
  by (simp_all add: registry0_def)

lemma page_base_wrap:
  fixes x j k p :: nat
  assumes "k \<le> p" and "p \<le> 32"
  shows "(x mod 2 ^ 32 div 2 ^ k * 2 ^ k + j) mod 2 ^ p
       = (x mod 2 ^ p mod 2 ^ 32 div 2 ^ k * 2 ^ k + j) mod 2 ^ p"
proof -
  define x' where "x' = x mod 2 ^ p"
  define q where "q = x mod 2 ^ 32 div 2 ^ p"
  have d: "(2::nat) ^ p dvd 2 ^ 32" using assms(2) by (rule le_imp_power_dvd)
  have "x mod 2 ^ 32 mod 2 ^ p = x'" unfolding x'_def by (rule mod_mod_cancel [OF d])
  then have x32: "x mod 2 ^ 32 = 2 ^ p * q + x'"
    unfolding q_def using div_mult_mod_eq [of "x mod 2 ^ 32" "2 ^ p"] by (simp add: mult.commute)
  have pk: "(2::nat) ^ p = 2 ^ k * 2 ^ (p - k)"
    using assms(1) by (simp add: power_add [symmetric])
  have "x mod 2 ^ 32 div 2 ^ k = 2 ^ (p - k) * q + x' div 2 ^ k"
    unfolding x32 pk by (simp add: mult.assoc)
  then have l: "x mod 2 ^ 32 div 2 ^ k * 2 ^ k = 2 ^ p * q + x' div 2 ^ k * 2 ^ k"
    unfolding pk by (simp add: algebra_simps)
  have "x' < 2 ^ p" unfolding x'_def by simp
  also have "(2::nat) ^ p \<le> 2 ^ 32" using assms(2) by (intro power_increasing) simp_all
  finally have r: "x' mod 2 ^ 32 = x'" by simp
  show ?thesis
    unfolding x'_def [symmetric] r l by (simp add: add.assoc)
qed

lemma wrapped_page_arith:
  fixes x y k p :: nat
  assumes "k \<le> p" and "p \<le> 32"
  shows "(\<exists>j < 2 ^ k. y = (x mod 2 ^ 32 div 2 ^ k * 2 ^ k + j) mod 2 ^ p)
         \<longleftrightarrow> y div 2 ^ k = x mod 2 ^ p div 2 ^ k"
proof -
  have "x mod 2 ^ p < 2 ^ p" by simp
  from same_page_arith [OF this assms, of y]
  show ?thesis unfolding page_base_wrap [OF assms, of x] .
qed

lemma const_by_name_resolved:
  assumes "registry_inv r" and "cached r = Some idx"
  shows "const_by_name (models r) idx ty c
     = Some (case name_in_groups ty c (cpu_consts (cpu_models ! idx)) of
               Some citem \<Rightarrow> (Some citem, [])
             | None \<Rightarrow>
                 (case inherit (cpu_models ! idx) of
                    None \<Rightarrow> (None, [''ERROR: CONSTANT key['' @ c @ ''] NOT FOUND.''])
                  | Some nm \<Rightarrow>
                      (case name_in_groups ty c
                              (cpu_consts (cpu_models ! model_loop cpu_models nm 0)) of
                         Some citem \<Rightarrow> (Some citem, [])
                       | None \<Rightarrow> (None, [''ERROR: CONSTANT key['' @ c @ ''] NOT FOUND.'']))))"
proof -
  note e = registry_inv_entry [OF assms]
  show ?thesis
  proof (cases "inherit (cpu_models ! idx)")
    case None
    then show ?thesis
      by (subst const_by_name.simps) (simp add: e(2) split: option.splits)
  next
    case (Some nm)
    define p where "p = model_loop cpu_models nm 0"
    from parents_are_roots [OF e(1) Some]
    have p: "p < 8" "inherit (cpu_models ! p) = None" by (simp_all add: p_def)
    have root: "models r ! p = cpu_models ! p"
      by (rule registry_inv_root [OF assms(1) p])
    have pp: "inherit_cpu_p (cpu_models ! p) = None"
      by (rule cpu_models_unresolved [OF p(1)])
    have par: "const_by_name (models r) p ty c
        = Some (case name_in_groups ty c (cpu_consts (cpu_models ! p)) of
                  Some citem \<Rightarrow> (Some citem, [])
                | None \<Rightarrow> (None, [''ERROR: CONSTANT key['' @ c @ ''] NOT FOUND.'']))"
      by (subst const_by_name.simps) (simp add: root pp split: option.splits)
    show ?thesis
      by (subst const_by_name.simps)
        (simp add: e(2) Some par p_def [symmetric] split: option.splits)
  qed
qed

lemma page_size_consts:
  "map (\<lambda>m. name_in_groups CPU_CONST_PARAM ''page_size'' (cpu_consts m)) cpu_models
   = [Some (mk_const ''page_size'' CPU_CONST_PARAM 7 1),
      Some (mk_const ''page_size'' CPU_CONST_PARAM 7 1),
      None, None, None, None, None,
      Some (mk_const ''page_size'' CPU_CONST_PARAM 5 1)]"
  by (simp add: cpu_models_def mk_model_def cpu_reg_common_def cpu_memsize_common_def
      cpu_memsize_m640_m1280m_m1281_m2560_m2561_def cpu_memsize_xmega128a4u_def
      cpu_pagesize_5_bits_def cpu_pagesize_7_bits_def mk_const_def CPU_CONST_PARAM_def
      CPU_CONST_NONE_def CPU_CONST_REG_def)

lemma model_pcs: "map pc cpu_models = [15, 17, 16, 16, 17, 17, 8, 13]"
  by (simp add: cpu_models_def mk_model_def)

lemma page_size_values:
  "unat (const_get_value (Some (mk_const ''page_size'' CPU_CONST_PARAM 7 (Suc 0)))) = 7"
  "unat (const_get_value (Some (mk_const ''page_size'' CPU_CONST_PARAM 5 (Suc 0)))) = 5"
  by (simp_all add: const_get_value_def mk_const_def MASK_def mask_eq_exp_minus_1)

lemma page_size_resolved:
  assumes "registry_inv r" and "cached r = Some idx"
  shows "\<exists>c. const_by_name (models r) idx CPU_CONST_PARAM ''page_size'' = Some (Some c, [])
           \<and> unat (const_get_value (Some c)) \<le> nat (pc (models r ! idx))
           \<and> unat (const_get_value (Some c)) < 32
           \<and> nat (pc (models r ! idx)) \<le> 32"
proof -
  note e = registry_inv_entry [OF assms]
  note f = registry_ok_fields [OF registry_inv_ok [OF assms(1)]]
  have n: "name_in_groups CPU_CONST_PARAM ''page_size'' (cpu_consts (cpu_models ! i))
      = [Some (mk_const ''page_size'' CPU_CONST_PARAM 7 1),
         Some (mk_const ''page_size'' CPU_CONST_PARAM 7 1),
         None, None, None, None, None,
         Some (mk_const ''page_size'' CPU_CONST_PARAM 5 1)] ! i" if "i < 8" for i
    using that
      nth_map [of i cpu_models
        "\<lambda>m. name_in_groups CPU_CONST_PARAM ''page_size'' (cpu_consts m)"]
    by (simp add: page_size_consts length_cpu_models)
  have p: "pc (cpu_models ! i) = [15, 17, 16, 16, 17, 17, 8, 13] ! i" if "i < 8" for i
    using that nth_map [of i cpu_models pc] by (simp add: model_pcs length_cpu_models)
  from less_8_cases [OF e(1)] show ?thesis
    unfolding const_by_name_resolved [OF assms] f(4) [OF e(1)]
    by (elim disjE)
      (simp_all add: n p inherit_nth model_loop_ATmega640 model_loop_ATmega8 page_size_values)
qed

text \<open>
  C7 (amended). In a registry reached from the initial one, with the interpreter in place
  and an address \<open>A\<close> on its stack, the page-erase operation finds the CPU model and
  its page-size constant of \<open>k\<close> bits, succeeds, and writes 0xFF to exactly the \<open>2 ^ k\<close>
  bytes of the aligned page that contains \<open>A mod 2 ^ p\<close>, where \<open>p\<close> is the width of
  the model's program counter (\<open>k \<le> p \<le> 32\<close>); every other byte and every register
  is unchanged. For \<open>A < 2 ^ p\<close> this is the page of \<open>A\<close>.
\<close>

theorem page_erase_fills_page_of_wrapped_address:
  assumes "registry_inv reg" and "es_valid esil" and "es_stack esil = Some A # rest"
  shows "\<exists>cpu reg1 c esil'.
           get_cpu_model (es_cpu esil) reg = Some (Some cpu, reg1)
         \<and> const_by_name (models reg1) cpu CPU_CONST_PARAM ''page_size'' = Some (Some c, [])
         \<and> unat (const_get_value (Some c)) \<le> nat (pc (models reg1 ! cpu))
         \<and> nat (pc (models reg1 ! cpu)) \<le> 32
         \<and> avr_custom_spm_page_erase reg esil = Some (True, esil', reg1)
         \<and> es_stack esil' = rest \<and> es_regs esil' = es_regs esil
         \<and> (\<forall>a. es_mem esil' a =
                (if unat a div 2 ^ unat (const_get_value (Some c))
                      = unat A mod 2 ^ nat (pc (models reg1 ! cpu))
                          div 2 ^ unat (const_get_value (Some c))
                 then 0xff else es_mem esil a))"
proof -
  define idx where "idx = model_loop cpu_models (es_cpu esil) 0"
  from get_cpu_model_inv [OF assms(1), of "es_cpu esil"]
  obtain reg1 where g: "get_cpu_model (es_cpu esil) reg = Some (Some idx, reg1)"
    and i: "registry_inv reg1" and c: "cached reg1 = Some idx"
    by (auto simp: idx_def)
  from page_size_resolved [OF i c]
  obtain cst where cn: "const_by_name (models reg1) idx CPU_CONST_PARAM ''page_size''
        = Some (Some cst, [])"
    and kp: "unat (const_get_value (Some cst)) \<le> nat (pc (models reg1 ! idx))"
    and k: "unat (const_get_value (Some cst)) < 32"
    and p: "nat (pc (models reg1 ! idx)) \<le> 32"
    by blast
  from page_erase_arith [OF assms(2,3) g cn refl k refl p]
  obtain esil' where r: "avr_custom_spm_page_erase reg esil
        = Some (True, esil', reg1\<lparr>errlog := errlog reg1 @ []\<rparr>)"
    and s: "es_stack esil' = rest" "es_regs esil' = es_regs esil"
    and m: "\<forall>a. es_mem esil' a =
        (if \<exists>j < 2 ^ unat (const_get_value (Some cst)).
              unat a = (unat A mod 2 ^ 32 div 2 ^ unat (const_get_value (Some cst))
                          * 2 ^ unat (const_get_value (Some cst)) + j)
                       mod 2 ^ nat (pc (models reg1 ! idx))
         then 0xff else es_mem esil a)"
    by blast
  from r have r': "avr_custom_spm_page_erase reg esil = Some (True, esil', reg1)" by simp
  from m have m': "\<forall>a. es_mem esil' a =
        (if unat a div 2 ^ unat (const_get_value (Some cst))
              = unat A mod 2 ^ nat (pc (models reg1 ! idx))
                  div 2 ^ unat (const_get_value (Some cst))
         then 0xff else es_mem esil a)"
    unfolding wrapped_page_arith [OF kp p] .
  from g cn kp p r' s m' show ?thesis by blast
qed

theorem page_erase_fills_page_of_wrapped_address_witness:
  "\<exists>esil'.
     avr_custom_spm_page_erase registry0 (esil_example [Some 0x1010])
       = Some (True, esil', registry0\<lparr>cached := Some 7\<rparr>)
     \<and> es_stack esil' = []
     \<and> (\<forall>a. es_mem esil' a = (if unat a div 32 = 128 then 0xff else 0))"
proof -
  let ?esil = "esil_example [Some 0x1010]"
  have v: "es_valid ?esil" and st: "es_stack ?esil = Some 0x1010 # []"
    by (simp_all add: esil_example_def)
  have n: "es_cpu ?esil = ''ATmega8''" by (simp add: esil_example_def)
  from page_erase_fills_page_of_wrapped_address [OF registry_inv_registry0 v st]
  obtain cpu reg1 c e where
    g: "get_cpu_model (es_cpu ?esil) registry0 = Some (Some cpu, reg1)"
    and cn: "const_by_name (models reg1) cpu CPU_CONST_PARAM ''page_size'' = Some (Some c, [])"
    and r: "avr_custom_spm_page_erase registry0 ?esil = Some (True, e, reg1)"
    and s: "es_stack e = []"
    and m: "\<forall>a. es_mem e a =
                (if unat a div 2 ^ unat (const_get_value (Some c))
                      = unat (0x1010 :: ut64) mod 2 ^ nat (pc (models reg1 ! cpu))
                          div 2 ^ unat (const_get_value (Some c))
                 then 0xff else es_mem ?esil a)"
    by blast
  from g have cpu: "cpu = 7" and reg1: "reg1 = registry0\<lparr>cached := Some 7\<rparr>"
    by (simp_all add: n get_cpu_model_ATmega8)
  from cn have c: "c = mk_const ''page_size'' CPU_CONST_PARAM 5 1"
    by (simp add: cpu reg1 registry_ATmega8 page_size_ATmega8)
  have k: "unat (const_get_value (Some c)) = 5"
    unfolding c by (rule page_size_value)
  have p: "nat (pc (models reg1 ! cpu)) = 13"
    by (simp add: cpu reg1 registry_ATmega8 pc_ATmega8)
  from m have "\<forall>a. es_mem e a = (if unat a div 32 = 128 then 0xff else 0)"
    unfolding k p by (simp add: esil_example_def)
  with r s show ?thesis by (simp add: reg1)
qed

text \<open>
  C7 as stated fails on the ATmega8 (13-bit program counter, 32-byte pages) at
  \<open>A = 0x2000\<close>: the byte at \<open>A\<close> itself is not written, and the byte at address 0,
  outside the page of \<open>A\<close>, is.
\<close>

theorem page_erase_wraps_counterexample:
  "map_option (\<lambda>(ok, e, r). (ok, es_mem e 0x2000, es_mem e 0))
     (avr_custom_spm_page_erase registry0 (esil_example [Some 0x2000]))
   = Some (True, 0, 0xff)"
proof -
  let ?esil = "esil_example [Some 0x2000]"
  let ?reg1 = "registry0\<lparr>cached := Some 7\<rparr>"
  let ?c = "Some (mk_const ''page_size'' CPU_CONST_PARAM 5 1)"
  have v: "es_valid ?esil" and st: "es_stack ?esil = Some 0x2000 # []"
    by (simp_all add: esil_example_def)
  have g: "get_cpu_model (es_cpu ?esil) registry0 = Some (Some 7, ?reg1)"
    by (simp add: esil_example_def get_cpu_model_ATmega8)
  have c: "const_by_name (models ?reg1) 7 CPU_CONST_PARAM ''page_size'' = Some (?c, [])"
    by (simp add: registry_ATmega8 page_size_ATmega8)
  have k: "5 = unat (const_get_value ?c)"
    by (rule page_size_value [symmetric])
  have p: "13 = nat (pc (models ?reg1 ! 7))"
    by (simp add: registry_ATmega8 pc_ATmega8)
  from page_erase_arith [OF v st g c k _ p]
  obtain e where r: "avr_custom_spm_page_erase registry0 ?esil
        = Some (True, e, ?reg1\<lparr>errlog := errlog ?reg1 @ []\<rparr>)"
    and m: "\<forall>a. es_mem e a
          = (if \<exists>j < 2 ^ 5. unat a
                  = (unat (0x2000 :: ut64) mod 2 ^ 32 div 2 ^ 5 * 2 ^ 5 + j) mod 2 ^ 13
             then 0xff else es_mem ?esil a)"
    by fastforce
  have e0: "\<exists>j < (2::nat) ^ 5.
      unat (0 :: ut64) = (unat (0x2000 :: ut64) mod 2 ^ 32 div 2 ^ 5 * 2 ^ 5 + j) mod 2 ^ 13"
    by (rule exI [of _ 0]) simp
  have e1: "\<not> (\<exists>j < (2::nat) ^ 5.
      unat (0x2000 :: ut64) = (unat (0x2000 :: ut64) mod 2 ^ 32 div 2 ^ 5 * 2 ^ 5 + j) mod 2 ^ 13)"
  proof
    assume "\<exists>j < (2::nat) ^ 5.
      unat (0x2000 :: ut64) = (unat (0x2000 :: ut64) mod 2 ^ 32 div 2 ^ 5 * 2 ^ 5 + j) mod 2 ^ 13"
    then obtain j :: nat where "8192 = j mod 8192" by auto
    moreover have "j mod 8192 < 8192" by simp
    ultimately show False by linarith
  qed
  have a0: "es_mem e 0 = 0xff"
    using m [rule_format, of 0] e0 by (simp only: if_True)
  have a1: "es_mem e 0x2000 = 0"
    using m [rule_format, of "0x2000"] e1 by (simp only: if_False) (simp add: esil_example_def)
  show ?thesis
    unfolding r by (simp add: a0 a1)
qed

end
